(* ===== verification/Prelude.thy ===== *)
theory Prelude
  imports Main "HOL-Library.Word" "HOL-Library.Finite_Map"
begin

text \<open>
  Shared vocabulary of the development: the machine-integer types of the Rust sources,
  panics as values, overflow under the two Rust build profiles, the poll and swarm
  command types that every network behaviour exchanges, and generic lemmas on lists,
  words and finite maps that the component theories use.

  Rust's integer addition and subtraction panic when overflow checks are compiled in
  (the default of a debug build) and wrap around otherwise (the default of a release
  build). The workspace sets no profile of its own, so both builds exist. The operations
  that can overflow take the flag \<open>chk\<close> (overflow checks enabled) as an argument.
\<close>

section \<open>Types\<close>

type_synonym u8 = "8 word"
type_synonym u16 = "16 word"
type_synonym u32 = "32 word"
type_synonym u64 = "64 word"
type_synonym u128 = "128 word"
type_synonym u256 = "256 word"
type_synonym bytes = "u8 list"

text \<open>Simplification rules of the components, and their invariants' unfolding rules.\<close>

named_theorems run_simps \<comment> \<open>evaluation of panicking computations\<close>
named_theorems inv_defs \<comment> \<open>definitions of the component invariants\<close>

section \<open>Panics\<close>

text \<open>A computation that returns, or panics (an assertion, \<open>unwrap\<close>, \<open>expect\<close>,
  an index out of range, or a checked overflow).\<close>

datatype 'a run = Done 'a | Panic

primrec run_bind :: "'a run \<Rightarrow> ('a \<Rightarrow> 'b run) \<Rightarrow> 'b run" where
  "run_bind (Done x) f = f x"
| "run_bind Panic f = Panic"

definition expect_run :: "'a option \<Rightarrow> 'a run" where
  "expect_run x = (case x of None \<Rightarrow> Panic | Some y \<Rightarrow> Done y)"

lemma run_bind_eq_Done [simp]:
  "run_bind m f = Done y \<longleftrightarrow> (\<exists>x. m = Done x \<and> f x = Done y)"
  by (cases m) auto

lemma run_bind_eq_Panic:
  "run_bind m f = Panic \<longleftrightarrow> m = Panic \<or> (\<exists>x. m = Done x \<and> f x = Panic)"
  by (cases m) auto

lemma expect_run_simps [simp, run_simps]:
  "expect_run None = Panic" "expect_run (Some x) = Done x"
  by (simp_all add: expect_run_def)

lemma expect_run_Done [simp]: "expect_run x = Done y \<longleftrightarrow> x = Some y"
  by (cases x) auto

section \<open>Arithmetic that can overflow\<close>

definition add_chk :: "bool \<Rightarrow> 'w::len word \<Rightarrow> 'w word \<Rightarrow> 'w word run" where
  "add_chk chk a b = (if chk \<and> 2 ^ LENGTH('w) \<le> unat a + unat b then Panic else Done (a + b))"

definition sub_chk :: "bool \<Rightarrow> 'w::len word \<Rightarrow> 'w word \<Rightarrow> 'w word run" where
  "sub_chk chk a b = (if chk \<and> a < b then Panic else Done (a - b))"

lemma unat_add_no_overflow:
  fixes a b :: "'w::len word"
  assumes "unat a + unat b < 2 ^ LENGTH('w)"
  shows "unat (a + b) = unat a + unat b"
  using assms by (simp add: unat_word_ariths)

lemma add_chk_no_overflow:
  fixes a b :: "'w::len word"
  assumes "unat a + unat b < 2 ^ LENGTH('w)"
  shows "add_chk chk a b = Done (a + b)"
  using assms by (simp add: add_chk_def)

lemma sub_chk_no_underflow:
  fixes a b :: "'w::len word"
  assumes "b \<le> a"
  shows "sub_chk chk a b = Done (a - b)"
  using assms by (simp add: sub_chk_def not_less)

abbreviation u32_max :: u32 where "u32_max \<equiv> 4294967295"

lemma u32_below_max:
  fixes a :: u32
  assumes "a < u32_max"
  shows "unat a + 1 < 2 ^ 32"
proof -
  have "unat a < unat u32_max"
    using assms by (simp only: word_less_nat_alt)
  then show ?thesis by simp
qed

lemma u32_add_one:
  fixes a :: u32
  assumes "a < u32_max"
  shows "add_chk chk a 1 = Done (a + 1)" and "unat (a + 1) = unat a + 1"
  using u32_below_max [OF assms]
  by (simp_all add: add_chk_no_overflow unat_add_no_overflow)

section \<open>Lists\<close>

lemma take_Suc_update:
  assumes "i < length xs"
  shows "take (Suc i) (xs[i := x]) = take i xs @ [x]"
  using assms by (simp add: take_Suc_conv_app_nth)

lemma sorted_wrt_nth_trans:
  assumes "transp R" and "sorted_wrt R xs" and "i < j" and "j < length xs"
  shows "R (xs ! i) (xs ! j)"
  using assms by (simp add: sorted_wrt_iff_nth_less)

end
