(* ===== verification/Ranges.thy ===== *)
theory Ranges
  imports Prelude
begin

text \<open>
  Block ranges and range sets (messages/src/range.rs). A range is a closed interval of
  32-bit block numbers; a range set is a vector of ranges that the code keeps sorted and
  separated by at least one missing block. The specification of a range set is the set of
  block numbers it covers: \<open>extend\<close> adds the points of its argument, and the queries
  (\<open>has\<close>, \<open>find_containing_range\<close>, \<open>includes\<close>), which are one binary search each,
  decide membership and inclusion.
\<close>

section \<open>Ranges\<close>

datatype range = Range (rbegin: u32) (rend: u32)

text \<open>The derived ordering compares the fields in declaration order.\<close>

instantiation range :: linorder
begin

definition less_eq_range :: "range \<Rightarrow> range \<Rightarrow> bool" where
  "less_eq_range a b \<longleftrightarrow> rbegin a < rbegin b \<or> rbegin a = rbegin b \<and> rend a \<le> rend b"

definition less_range :: "range \<Rightarrow> range \<Rightarrow> bool" where
  "less_range a b \<longleftrightarrow> rbegin a < rbegin b \<or> rbegin a = rbegin b \<and> rend a < rend b"

instance
  by standard (auto simp: less_eq_range_def less_range_def intro: range.expand)

end

definition range_new :: "u32 \<Rightarrow> u32 \<Rightarrow> range run" where
  "range_new b e = (if b \<le> e then Done (Range b e) else Panic)"

section \<open>Range sets\<close>

record range_set =
  ranges :: "range list"

definition range_set_empty :: range_set where
  "range_set_empty = \<lparr>ranges = []\<rparr>"

datatype ordering = OLess | OEqual | OGreater

text \<open>
  The standard library's \<open>binary_search_by\<close> (Rust 1.78, the toolchain of the workspace).
  \<open>size\<close> is \<open>right - left\<close> at the head of every iteration. \<open>Inr\<close> is \<open>Ok\<close>, the index
  of a match; \<open>Inl\<close> is \<open>Err\<close>, the insertion point.
\<close>

function binary_search_loop ::
    "('a \<Rightarrow> ordering) \<Rightarrow> 'a list \<Rightarrow> nat \<Rightarrow> nat \<Rightarrow> nat + nat" where
  "binary_search_loop f xs left right =
     (if left < right then
        let mid = left + (right - left) div 2; cmp = f (xs ! mid) in
        if cmp = OEqual then Inr mid
        else if cmp = OLess then binary_search_loop f xs (mid + 1) right
        else binary_search_loop f xs left mid
      else Inl left)"
  by pat_completeness auto
termination
  by (relation "measure (\<lambda>(f, xs, left, right). right - left)") auto

declare binary_search_loop.simps [simp del]

definition binary_search_by :: "'a list \<Rightarrow> ('a \<Rightarrow> ordering) \<Rightarrow> nat + nat" where
  "binary_search_by xs f = binary_search_loop f xs 0 (length xs)"

definition point_cmp :: "u32 \<Rightarrow> range \<Rightarrow> ordering" where
  "point_cmp point i =
     (if point < rbegin i then OGreater else if rend i < point then OLess else OEqual)"

definition containing_range :: "range_set \<Rightarrow> u32 \<Rightarrow> nat option" where
  "containing_range self point =
     (case binary_search_by (ranges self) (point_cmp point) of Inr i \<Rightarrow> Some i | Inl _ \<Rightarrow> None)"

definition range_set_has :: "range_set \<Rightarrow> u32 \<Rightarrow> bool" where
  "range_set_has self point \<longleftrightarrow> containing_range self point \<noteq> None"

definition find_containing_range :: "range_set \<Rightarrow> u32 \<Rightarrow> range option" where
  "find_containing_range self point =
     map_option (\<lambda>i. ranges self ! i) (containing_range self point)"

definition range_set_includes :: "range_set \<Rightarrow> range \<Rightarrow> bool" where
  "range_set_includes self r =
     (case find_containing_range self (rbegin r) of
        Some c \<Rightarrow> rend r \<le> rend c
      | None \<Rightarrow> False)"

text \<open>
  The merge loop of \<open>extend\<close>: \<open>for i in 1..len\<close> over the sorted vector, \<open>pi\<close> the index of
  the last range kept. Both indices are below the length, so no access is out of bounds.
  \<open>p.end + 1\<close> is a 32-bit addition.
\<close>

fun extend_loop :: "bool \<Rightarrow> nat list \<Rightarrow> nat \<Rightarrow> range list \<Rightarrow> (nat \<times> range list) run" where
  "extend_loop chk [] pi rs = Done (pi, rs)"
| "extend_loop chk (i # is) pi rs =
     (let c = rs ! i; p = rs ! pi in
      run_bind (add_chk chk (rend p) 1) (\<lambda>e1.
        if e1 < rbegin c then extend_loop chk is (pi + 1) (rs[pi + 1 := c])
        else run_bind (range_new (rbegin p) (max (rend c) (rend p))) (\<lambda>r.
               extend_loop chk is pi (rs[pi := r]))))"

definition range_set_extend :: "bool \<Rightarrow> range_set \<Rightarrow> range list \<Rightarrow> range_set run" where
  "range_set_extend chk self iter =
     (let rs = sort (ranges self @ iter) in
      run_bind (extend_loop chk [1..<length rs] 0 rs) (\<lambda>(pi, rs').
        Done (self\<lparr>ranges := take (pi + 1) rs'\<rparr>)))"

definition range_set_from :: "bool \<Rightarrow> range list \<Rightarrow> range_set run" where
  "range_set_from chk iter = range_set_extend chk range_set_empty iter"

section \<open>Specification\<close>

definition range_wf :: "range \<Rightarrow> bool" where
  "range_wf r \<longleftrightarrow> rbegin r \<le> rend r"

definition range_points :: "range \<Rightarrow> u32 set" where
  "range_points r = {rbegin r..rend r}"

definition points :: "range list \<Rightarrow> u32 set" where
  "points rs = (\<Union>r\<in>set rs. range_points r)"

text \<open>\<open>separated a b\<close>: at least one block is missing between \<open>a\<close> and \<open>b\<close>.\<close>

definition separated :: "range \<Rightarrow> range \<Rightarrow> bool" where
  "separated a b \<longleftrightarrow> unat (rend a) + 1 < unat (rbegin b)"

definition range_set_inv :: "range_set \<Rightarrow> bool" where
  "range_set_inv s \<longleftrightarrow> list_all range_wf (ranges s) \<and> sorted_wrt separated (ranges s)"

declare range_set_inv_def [inv_defs]

text \<open>The reference algorithm for \<open>extend\<close>: a fold over the sorted list.\<close>

fun merge_ranges :: "range \<Rightarrow> range list \<Rightarrow> range list" where
  "merge_ranges p [] = [p]"
| "merge_ranges p (c # cs) =
     (if separated p c then p # merge_ranges c cs
      else merge_ranges (Range (rbegin p) (max (rend c) (rend p))) cs)"

fun normalise :: "range list \<Rightarrow> range list" where
  "normalise [] = []"
| "normalise (r # rs) = merge_ranges r rs"

section \<open>Binary search\<close>

lemma binary_search_loop_Inr:
  assumes "binary_search_loop f xs l r = Inr i"
  shows "l \<le> i \<and> i < r \<and> f (xs ! i) = OEqual"
  using assms
proof (induction f xs l r rule: binary_search_loop.induct)
  case (1 f xs l r)
  let ?m = "l + (r - l) div 2"
  have "l < r" using "1.prems" by (auto simp: binary_search_loop.simps [of f xs l r] split: if_splits)
  show ?case
  proof (cases "f (xs ! ?m)")
    case OLess
    with "1.IH"(1) [OF \<open>l < r\<close> refl refl] "1.prems" \<open>l < r\<close> show ?thesis
      by (auto simp: binary_search_loop.simps [of f xs l r] Let_def)
  next
    case OEqual
    with "1.prems" \<open>l < r\<close> show ?thesis
      by (auto simp: binary_search_loop.simps [of f xs l r] Let_def)
  next
    case OGreater
    with "1.IH"(2) [OF \<open>l < r\<close> refl refl] "1.prems" \<open>l < r\<close> show ?thesis
      by (auto simp: binary_search_loop.simps [of f xs l r] Let_def)
  qed
qed

text \<open>A comparator that is ordered along the list: less, then equal, then greater.\<close>

definition cmp_ordered :: "('a \<Rightarrow> ordering) \<Rightarrow> 'a list \<Rightarrow> bool" where
  "cmp_ordered f xs \<longleftrightarrow> (\<forall>i j. i < j \<and> j < length xs \<longrightarrow>
     (f (xs ! j) = OLess \<longrightarrow> f (xs ! i) = OLess) \<and>
     (f (xs ! i) = OGreater \<longrightarrow> f (xs ! j) = OGreater))"

lemma cmp_orderedD:
  assumes "cmp_ordered f xs" and "i \<le> j" and "j < length xs"
  shows "f (xs ! j) = OLess \<Longrightarrow> f (xs ! i) = OLess"
    and "f (xs ! i) = OGreater \<Longrightarrow> f (xs ! j) = OGreater"
  using assms by (auto simp: cmp_ordered_def le_less)

lemma binary_search_loop_Inl:
  assumes "binary_search_loop f xs l r = Inl k"
    and "cmp_ordered f xs" and "r \<le> length xs"
    and "l \<le> i" and "i < r"
  shows "f (xs ! i) \<noteq> OEqual"
  using assms
proof (induction f xs l r rule: binary_search_loop.induct)
  case (1 f xs l r)
  let ?m = "l + (r - l) div 2"
  have lr: "l < r" and m: "?m < r" using "1.prems" by auto
  show ?case
  proof (cases "f (xs ! ?m)")
    case OLess
    show ?thesis
    proof (cases "i \<le> ?m")
      case True
      from cmp_orderedD(1) [OF "1.prems"(2) True] m "1.prems"(3) OLess show ?thesis by simp
    next
      case False
      with OLess "1.IH"(1) [OF lr refl refl] "1.prems" lr show ?thesis
        by (simp add: binary_search_loop.simps [of f xs l r] Let_def)
    qed
  next
    case OEqual
    with "1.prems"(1) lr show ?thesis
      by (simp add: binary_search_loop.simps [of f xs l r] Let_def)
  next
    case OGreater
    show ?thesis
    proof (cases "?m \<le> i")
      case True
      from cmp_orderedD(2) [OF "1.prems"(2) True] "1.prems"(3,5) OGreater show ?thesis by simp
    next
      case False
      with OGreater "1.IH"(2) [OF lr refl refl] "1.prems" lr show ?thesis
        by (simp add: binary_search_loop.simps [of f xs l r] Let_def)
    qed
  qed
qed

lemma binary_search_by_Inr:
  "binary_search_by xs f = Inr i \<Longrightarrow> i < length xs \<and> f (xs ! i) = OEqual"
  unfolding binary_search_by_def by (drule binary_search_loop_Inr) simp

lemma binary_search_by_Inl:
  assumes "binary_search_by xs f = Inl k" and "cmp_ordered f xs" and "x \<in> set xs"
  shows "f x \<noteq> OEqual"
proof -
  from assms(3) obtain i where "i < length xs" and "x = xs ! i" by (auto simp: in_set_conv_nth)
  with binary_search_loop_Inl [of f xs 0 "length xs" k i] assms(1,2) show ?thesis
    by (simp add: binary_search_by_def)
qed

section \<open>Geometry of ranges\<close>

lemma point_cmp_OEqual: "point_cmp x r = OEqual \<longleftrightarrow> x \<in> range_points r"
  by (auto simp: point_cmp_def range_points_def not_less)

lemma point_cmp_OLess: "point_cmp x r = OLess \<longleftrightarrow> rbegin r \<le> x \<and> rend r < x"
  by (auto simp: point_cmp_def not_less)

lemma point_cmp_OGreater: "point_cmp x r = OGreater \<longleftrightarrow> x < rbegin r"
  by (auto simp: point_cmp_def)

lemmas point_cmp_iffs = point_cmp_OEqual point_cmp_OLess point_cmp_OGreater

lemma points_simps [simp]:
  "points [] = {}" "points (r # rs) = range_points r \<union> points rs"
  "points (xs @ ys) = points xs \<union> points ys"
  by (auto simp: points_def)

lemma points_cong_set: "set xs = set ys \<Longrightarrow> points xs = points ys"
  by (simp add: points_def)

lemma separated_less:
  "separated a b \<Longrightarrow> rend a < rbegin b"
  by (simp add: separated_def word_less_nat_alt)

lemma separated_trans_wf:
  "separated a b \<Longrightarrow> range_wf b \<Longrightarrow> separated b c \<Longrightarrow> separated a c"
  by (auto simp: separated_def range_wf_def word_le_nat_alt)

lemma separated_mono:
  "separated a b \<Longrightarrow> rbegin b \<le> rbegin c \<Longrightarrow> separated a c"
  by (auto simp: separated_def word_le_nat_alt)

lemma range_points_join:
  assumes "rbegin p \<le> rbegin c" and "\<not> separated p c"
  shows "range_points (Range (rbegin p) (max (rend c) (rend p))) =
         range_points p \<union> range_points c"
proof (rule set_eqI)
  fix x
  have gap: "rbegin c \<le> x" if "\<not> x \<le> rend p"
    using that assms(2) by (simp add: separated_def word_le_nat_alt)
  show "x \<in> range_points (Range (rbegin p) (max (rend c) (rend p))) \<longleftrightarrow>
        x \<in> range_points p \<union> range_points c"
    using gap order_trans [OF assms(1), of x]
    by (simp add: range_points_def le_max_iff_disj) blast
qed

section \<open>The reference algorithm\<close>

text \<open>Merging relies on the order of the lower ends only.\<close>

abbreviation begin_sorted :: "range list \<Rightarrow> bool" where
  "begin_sorted \<equiv> sorted_wrt (\<lambda>a b. rbegin a \<le> rbegin b)"

lemma sorted_begin_sorted: "sorted rs \<Longrightarrow> begin_sorted rs"
  by (rule sorted_wrt_mono_rel [of _ "(\<le>)"]) (auto simp: less_eq_range_def)

lemma merge_step:
  assumes "begin_sorted (p # c # cs)" and "list_all range_wf (p # c # cs)"
  shows "begin_sorted (Range (rbegin p) (max (rend c) (rend p)) # cs)"
    and "list_all range_wf (Range (rbegin p) (max (rend c) (rend p)) # cs)"
  using assms by (auto simp: range_wf_def le_max_iff_disj)

lemma merge_ranges_points:
  assumes "begin_sorted (p # cs)" and "list_all range_wf (p # cs)"
  shows "points (merge_ranges p cs) = points (p # cs)"
  using assms
proof (induction p cs rule: merge_ranges.induct)
  case (1 p)
  then show ?case by simp
next
  case (2 p c cs)
  let ?m = "Range (rbegin p) (max (rend c) (rend p))"
  have le: "rbegin p \<le> rbegin c" using "2.prems"(1) by simp
  show ?case
  proof (cases "separated p c")
    case True
    with 2 show ?thesis by auto
  next
    case False
    have "points (merge_ranges ?m cs) = points (?m # cs)"
      using "2.IH"(2) [OF False] merge_step [OF "2.prems"] .
    with False range_points_join [OF le False] show ?thesis by auto
  qed
qed

lemma merge_ranges_inv:
  assumes "begin_sorted (p # cs)" and "list_all range_wf (p # cs)"
  shows "list_all range_wf (merge_ranges p cs) \<and> sorted_wrt separated (merge_ranges p cs) \<and>
         (\<forall>r\<in>set (merge_ranges p cs). rbegin p \<le> rbegin r)"
  using assms
proof (induction p cs rule: merge_ranges.induct)
  case (1 p)
  then show ?case by simp
next
  case (2 p c cs)
  let ?m = "Range (rbegin p) (max (rend c) (rend p))"
  have le: "rbegin p \<le> rbegin c" using "2.prems"(1) by simp
  show ?case
  proof (cases "separated p c")
    case True
    with 2 have IH: "list_all range_wf (merge_ranges c cs)"
        "sorted_wrt separated (merge_ranges c cs)" "\<forall>r\<in>set (merge_ranges c cs). rbegin c \<le> rbegin r"
      by auto
    with True le "2.prems"(2) show ?thesis
      by (auto intro: separated_mono order_trans)
  next
    case False
    from "2.IH"(2) [OF False merge_step [OF "2.prems"]] False show ?thesis by simp
  qed
qed

lemma normalise_points:
  assumes "sorted rs" and "list_all range_wf rs"
  shows "points (normalise rs) = points rs"
proof (cases rs)
  case (Cons r rs')
  with merge_ranges_points [of r rs'] sorted_begin_sorted [OF assms(1)] assms(2)
  show ?thesis by simp
qed simp

lemma normalise_inv:
  assumes "sorted rs" and "list_all range_wf rs"
  shows "range_set_inv \<lparr>ranges = normalise rs\<rparr>"
proof (cases rs)
  case (Cons r rs')
  with merge_ranges_inv [of r rs'] sorted_begin_sorted [OF assms(1)] assms(2)
  show ?thesis by (simp add: range_set_inv_def)
qed (simp add: range_set_inv_def)

section \<open>The loop of \<open>extend\<close> implements the reference algorithm\<close>

definition mergeable :: "range \<Rightarrow> bool" where
  "mergeable r \<longleftrightarrow> range_wf r \<and> rend r < u32_max"

lemma mergeable_join:
  "mergeable p \<Longrightarrow> mergeable c \<Longrightarrow> mergeable (Range (rbegin p) (max (rend c) (rend p)))"
  by (auto simp: mergeable_def range_wf_def max_def)

lemma extend_step:
  assumes "mergeable (rs ! pi)"
  shows "extend_loop chk (i # is) pi rs =
    (if separated (rs ! pi) (rs ! i) then extend_loop chk is (pi + 1) (rs[pi + 1 := rs ! i])
     else extend_loop chk is pi
            (rs[pi := Range (rbegin (rs ! pi)) (max (rend (rs ! i)) (rend (rs ! pi)))]))"
proof -
  from assms have lt: "rend (rs ! pi) < u32_max" and wf: "range_wf (rs ! pi)"
    by (auto simp: mergeable_def)
  have "rend (rs ! pi) + 1 < rbegin (rs ! i) \<longleftrightarrow> separated (rs ! pi) (rs ! i)"
    by (simp add: separated_def word_less_nat_alt u32_add_one(2) [OF lt])
  moreover have "range_new (rbegin (rs ! pi)) (max (rend (rs ! i)) (rend (rs ! pi))) =
      Done (Range (rbegin (rs ! pi)) (max (rend (rs ! i)) (rend (rs ! pi))))"
    using wf by (simp add: range_new_def range_wf_def le_max_iff_disj)
  ultimately show ?thesis by (simp add: Let_def u32_add_one(1) [OF lt])
qed

lemma extend_loop_merge:
  assumes "pi < i" and "i \<le> length rs" and "list_all mergeable (rs ! pi # drop i rs)"
  shows "\<exists>pi' rs'. extend_loop chk [i..<length rs] pi rs = Done (pi', rs') \<and>
           take (pi' + 1) rs' = take pi rs @ merge_ranges (rs ! pi) (drop i rs)"
  using assms
proof (induction "length rs - i" arbitrary: i pi rs)
  case 0
  then have "i = length rs" by simp
  with "0.prems"(1) show ?case by (simp add: take_Suc_conv_app_nth)
next
  case (Suc n)
  then have i: "i < length rs" and n: "n = length rs - Suc i" by simp_all
  let ?c = "rs ! i" and ?p = "rs ! pi" and ?r = "Range (rbegin (rs ! pi)) (max (rend (rs ! i)) (rend (rs ! pi)))"
  have drop: "drop i rs = ?c # drop (Suc i) rs" by (rule Cons_nth_drop_Suc [symmetric, OF i])
  with Suc.prems(3) have m: "mergeable ?p" "mergeable ?c" "list_all mergeable (drop (Suc i) rs)"
    by simp_all
  have upt: "[i..<length rs] = i # [Suc i..<length rs]" using i by (simp add: upt_conv_Cons)
  show ?case
  proof (cases "separated ?p ?c")
    case True
    let ?rs = "rs[pi + 1 := ?c]"
    have eqs: "?rs ! (pi + 1) = ?c" "drop (Suc i) ?rs = drop (Suc i) rs"
        "take (pi + 1) ?rs = take pi rs @ [?p]"
      using Suc.prems(1) i by (simp_all add: take_Suc_conv_app_nth)
    from Suc.hyps(1) [of ?rs "Suc i" "pi + 1"] n Suc.prems(1) i m eqs
    show ?thesis by (simp add: upt extend_step [OF m(1)] True drop del: extend_loop.simps(2))
  next
    case False
    let ?rs = "rs[pi := ?r]"
    have eqs: "?rs ! pi = ?r" "drop (Suc i) ?rs = drop (Suc i) rs" "take pi ?rs = take pi rs"
      using Suc.prems(1) i by simp_all
    from Suc.hyps(1) [of ?rs "Suc i" pi] n Suc.prems(1) i m mergeable_join [OF m(1,2)] eqs
    show ?thesis by (simp add: upt extend_step [OF m(1)] False drop del: extend_loop.simps(2))
  qed
qed

lemma range_set_extend_normalise:
  assumes "list_all mergeable (ranges self @ iter)"
  shows "range_set_extend chk self iter = Done \<lparr>ranges = normalise (sort (ranges self @ iter))\<rparr>"
proof (cases "sort (ranges self @ iter)")
  case Nil
  then show ?thesis by (simp add: range_set_extend_def)
next
  case (Cons r rs)
  have "list_all mergeable (r # rs)"
    using assms unfolding Cons [symmetric] by (simp add: list_all_iff)
  with extend_loop_merge [of 0 1 "r # rs" chk]
  obtain pi rs' where "extend_loop chk [1..<length (r # rs)] 0 (r # rs) = Done (pi, rs')"
    and "take (pi + 1) rs' = merge_ranges r rs" by auto
  with Cons show ?thesis by (simp add: range_set_extend_def del: upt_Suc)
qed

section \<open>Uniqueness of the representation\<close>

lemma inv_Cons_gap:
  assumes "range_set_inv \<lparr>ranges = r # rs\<rparr>" and "x \<in> points rs"
  shows "unat (rend r) + 1 < unat x"
proof -
  from assms(2) obtain q where q: "q \<in> set rs" "x \<in> range_points q" by (auto simp: points_def)
  with assms(1) have "separated r q" by (simp add: range_set_inv_def)
  with q(2) show ?thesis by (auto simp: separated_def range_points_def word_le_nat_alt)
qed

lemma inv_head_least:
  assumes "range_set_inv \<lparr>ranges = r # rs\<rparr>" and "x \<in> points (r # rs)"
  shows "rbegin r \<le> x"
  using assms(2) inv_Cons_gap [OF assms(1)] assms(1)
  by (fastforce simp: range_points_def range_set_inv_def range_wf_def word_le_nat_alt)

lemma inv_head_end:
  assumes inv: "range_set_inv \<lparr>ranges = r # rs\<rparr>" "range_set_inv \<lparr>ranges = q # qs\<rparr>"
    and eq: "points (r # rs) = points (q # qs)" and b: "rbegin r = rbegin q"
  shows "rend r \<le> rend q"
proof (rule ccontr)
  assume "\<not> rend r \<le> rend q"
  then have lt: "unat (rend q) < unat (rend r)" by (simp add: word_le_nat_alt)
  have lt_max: "rend q < u32_max"
    using lt unsigned_less [of "rend r", where 'a = nat] by (simp add: word_less_nat_alt)
  note nxt = u32_add_one(2) [OF lt_max]
  have "rbegin q \<le> rend q" using inv(2) by (simp add: range_set_inv_def range_wf_def)
  then have "rend q + 1 \<in> range_points r"
    using lt nxt b by (simp add: range_points_def word_le_nat_alt)
  then have "rend q + 1 \<in> points (q # qs)" using eq by auto
  moreover have "rend q + 1 \<notin> range_points q" using nxt by (simp add: range_points_def word_le_nat_alt)
  ultimately show False using inv_Cons_gap [OF inv(2), of "rend q + 1"] nxt by auto
qed

lemma range_set_inv_unique:
  assumes "range_set_inv \<lparr>ranges = rs\<rparr>" and "range_set_inv \<lparr>ranges = qs\<rparr>" and "points rs = points qs"
  shows "rs = qs"
  using assms
proof (induction rs arbitrary: qs)
  case Nil
  then show ?case by (cases qs) (auto simp: range_set_inv_def range_wf_def range_points_def)
next
  case (Cons r rs)
  then obtain q qs' where qs: "qs = q # qs'"
    by (cases qs) (auto simp: range_set_inv_def range_wf_def range_points_def)
  note inv = Cons.prems(1) Cons.prems(2) [unfolded qs] and eq = Cons.prems(3) [unfolded qs]
  have b: "rbegin r = rbegin q"
  proof (rule order_antisym)
    show "rbegin r \<le> rbegin q"
      by (rule inv_head_least [OF inv(1)], unfold eq) (use inv(2) in \<open>auto simp: range_points_def range_set_inv_def range_wf_def\<close>)
    show "rbegin q \<le> rbegin r"
      by (rule inv_head_least [OF inv(2)], unfold eq [symmetric]) (use inv(1) in \<open>auto simp: range_points_def range_set_inv_def range_wf_def\<close>)
  qed
  have e: "rend r = rend q"
    using inv_head_end [OF inv eq b] inv_head_end [OF inv(2,1) eq [symmetric] b [symmetric]] by simp
  have rq: "r = q" using b e by (rule range.expand [OF conjI])
  have tail: "range_points r \<inter> points rs = {}" "range_points q \<inter> points qs' = {}"
    using inv_Cons_gap [OF inv(1)] inv_Cons_gap [OF inv(2)]
    by (fastforce simp: range_points_def word_le_nat_alt)+
  have "points rs = points qs'"
    using eq tail by (simp only: points_simps rq) blast
  moreover have "range_set_inv \<lparr>ranges = rs\<rparr>" "range_set_inv \<lparr>ranges = qs'\<rparr>"
    using inv by (auto simp: range_set_inv_def)
  ultimately show ?case using Cons.IH [of qs'] qs rq by simp
qed

section \<open>Queries\<close>

lemma inv_cmp_ordered:
  assumes "range_set_inv s"
  shows "cmp_ordered (point_cmp x) (ranges s)"
  unfolding cmp_ordered_def
proof (intro allI impI)
  fix i j
  assume ij: "i < j \<and> j < length (ranges s)"
  let ?a = "ranges s ! i" and ?b = "ranges s ! j"
  have "separated ?a ?b" and "range_wf ?a" and "range_wf ?b"
    using assms ij by (auto simp: range_set_inv_def sorted_wrt_iff_nth_less list_all_length)
  then have "rbegin ?a \<le> rend ?a" "rend ?a < rbegin ?b"
    by (simp_all add: range_wf_def separated_less)
  then show "(point_cmp x ?b = OLess \<longrightarrow> point_cmp x ?a = OLess) \<and>
             (point_cmp x ?a = OGreater \<longrightarrow> point_cmp x ?b = OGreater)"
    by (auto simp: point_cmp_iffs)
qed

lemma containing_range_Some:
  "containing_range s x = Some i \<Longrightarrow> i < length (ranges s) \<and> x \<in> range_points (ranges s ! i)"
  by (auto simp: containing_range_def point_cmp_OEqual split: sum.splits dest!: binary_search_by_Inr)

lemma containing_range_None:
  assumes "range_set_inv s" and "containing_range s x = None"
  shows "x \<notin> points (ranges s)"
proof -
  from assms(2) obtain k where "binary_search_by (ranges s) (point_cmp x) = Inl k"
    by (auto simp: containing_range_def split: sum.splits)
  from binary_search_by_Inl [OF this inv_cmp_ordered [OF assms(1)]] show ?thesis
    by (auto simp: points_def point_cmp_OEqual)
qed

lemma find_containing_range_Some:
  "find_containing_range s x = Some r \<Longrightarrow> r \<in> set (ranges s) \<and> x \<in> range_points r"
  by (auto simp: find_containing_range_def dest: containing_range_Some)

lemma find_containing_range_total:
  assumes "range_set_inv s"
  shows "(\<exists>r. find_containing_range s x = Some r) \<longleftrightarrow> x \<in> points (ranges s)"
  using containing_range_None [OF assms, of x] containing_range_Some [of s x]
  by (cases "containing_range s x") (auto simp: find_containing_range_def points_def)

lemma inv_disjoint:
  assumes "range_set_inv s" and "r \<in> set (ranges s)" and "q \<in> set (ranges s)"
    and "x \<in> range_points r" and "x \<in> range_points q"
  shows "q = r"
proof -
  from assms(1-3) consider "q = r" | "separated r q" | "separated q r"
    by (auto simp: range_set_inv_def sorted_wrt_iff_nth_less in_set_conv_nth)
       (metis linorder_neqE_nat)
  then show ?thesis
    using assms(4,5) by cases (auto simp: range_points_def dest!: separated_less)
qed

lemma inv_connected:
  assumes "range_set_inv s" and "c \<in> set (ranges s)" and "rbegin c \<le> x" and "rend c < y" and "x \<le> rend c"
  shows "\<not> {x..y} \<subseteq> points (ranges s)"
proof
  assume sub: "{x..y} \<subseteq> points (ranges s)"
  have lt: "rend c < u32_max"
    using assms(4) unsigned_less [of y, where 'a = nat] by (simp add: word_less_nat_alt)
  note nxt = u32_add_one(2) [OF lt]
  have "rend c + 1 \<in> {x..y}"
    using assms(4,5) nxt by (auto simp: word_le_nat_alt word_less_nat_alt)
  with sub obtain q where q: "q \<in> set (ranges s)" "rend c + 1 \<in> range_points q"
    by (auto simp: points_def)
  from assms(1,2) q(1) consider "q = c" | "separated c q" | "separated q c"
    by (auto simp: range_set_inv_def sorted_wrt_iff_nth_less in_set_conv_nth)
       (metis linorder_neqE_nat)
  then show False
    using q(2) nxt assms(3,5)
    by cases (auto simp: range_points_def separated_def word_le_nat_alt)
qed

section \<open>Properties\<close>

text \<open>
  C7. For well-formed ranges none of which ends at the largest 32-bit number, \<open>extend\<close>
  returns (it neither panics nor overflows, in both build profiles); the resulting range
  set is sorted, its ranges are well-formed and separated by at least one missing block,
  and it covers exactly the blocks of the old set and of the added ranges.
\<close>

theorem range_set_extend_correct:
  assumes "\<forall>r\<in>set (ranges self @ iter). rbegin r \<le> rend r \<and> rend r < u32_max"
  shows "\<exists>s. range_set_extend chk self iter = Done s \<and> range_set_inv s \<and>
             points (ranges s) = points (ranges self) \<union> points iter"
proof -
  let ?rs = "sort (ranges self @ iter)"
  have m: "list_all mergeable (ranges self @ iter)"
    using assms by (auto simp: list_all_iff mergeable_def range_wf_def)
  then have wf: "list_all range_wf ?rs" by (auto simp: list_all_iff mergeable_def)
  have "points ?rs = points (ranges self @ iter)" by (rule points_cong_set) simp
  with range_set_extend_normalise [OF m, of chk] normalise_points [OF _ wf] normalise_inv [OF _ wf]
  show ?thesis by simp
qed

theorem range_set_extend_correct_witness:
  "\<exists>s. range_set_extend True \<lparr>ranges = [Range 10 20]\<rparr> [Range 35 40, Range 21 30] = Done s \<and>
       range_set_inv s \<and>
       points (ranges s) = points [Range 10 20] \<union> points [Range 35 40, Range 21 30]"
  using range_set_extend_correct [of "\<lparr>ranges = [Range 10 20]\<rparr>" "[Range 35 40, Range 21 30]" True]
  by simp

text \<open>
  C27. The representation is canonical: two inputs that cover the same blocks, whatever
  their order, overlaps and duplicates, give the same range set, and every range set with
  the invariant is already in this form.
\<close>

theorem range_set_canonical:
  assumes "\<forall>r\<in>set (xs @ ys). rbegin r \<le> rend r \<and> rend r < u32_max"
    and "points xs = points ys"
  shows "range_set_from chk xs = range_set_from chk' ys \<and>
         (\<forall>s. range_set_inv s \<and> points (ranges s) = points xs \<longrightarrow> range_set_from chk xs = Done s)"
proof -
  have m: "list_all mergeable zs \<and> list_all range_wf (sort zs)" if "zs = xs \<or> zs = ys" for zs
    using assms(1) that by (auto simp: list_all_iff mergeable_def range_wf_def)
  have p: "points (normalise (sort zs)) = points zs \<and> range_set_inv \<lparr>ranges = normalise (sort zs)\<rparr>"
    if "zs = xs \<or> zs = ys" for zs
    using normalise_points [OF sorted_sort] normalise_inv [OF sorted_sort] m [OF that]
      points_cong_set [of "sort zs" zs] by simp
  have f: "range_set_from c zs = Done \<lparr>ranges = normalise (sort zs)\<rparr>" if "zs = xs \<or> zs = ys" for c zs
    using range_set_extend_normalise [of range_set_empty zs c] m [OF that]
    by (simp add: range_set_from_def range_set_empty_def)
  have "\<lparr>ranges = normalise (sort xs)\<rparr> = s"
    if "range_set_inv s" "points (ranges s) = points xs" for s
    using range_set_inv_unique [of "ranges s" "normalise (sort xs)"] p [of xs] that
    by (cases s) simp
  moreover have "normalise (sort xs) = normalise (sort ys)"
    by (rule range_set_inv_unique) (use p assms(2) in auto)
  ultimately show ?thesis using f by simp
qed

theorem range_set_canonical_witness:
  "range_set_from True [Range 4 9, Range 0 5] = range_set_from False [Range 0 9]"
proof -
  have "points [Range 4 9, Range 0 5] = points [Range 0 9]"
    by (auto simp: range_points_def) unat_arith+
  then show ?thesis
    using range_set_canonical [of "[Range 4 9, Range 0 5]" "[Range 0 9]" True False] by simp
qed

text \<open>
  C18. On a range set that satisfies the invariant, \<open>has\<close> decides whether the block is
  covered, and \<open>find_containing_range\<close> returns exactly the range of the set that contains it.
\<close>

theorem range_set_lookup_correct:
  assumes "range_set_inv s"
  shows "(range_set_has s x \<longleftrightarrow> x \<in> points (ranges s)) \<and>
         (\<forall>r. find_containing_range s x = Some r \<longleftrightarrow> r \<in> set (ranges s) \<and> x \<in> range_points r)"
proof -
  have "range_set_has s x \<longleftrightarrow> x \<in> points (ranges s)"
    using find_containing_range_total [OF assms, of x]
    by (auto simp: range_set_has_def find_containing_range_def)
  moreover have "find_containing_range s x = Some r"
    if r: "r \<in> set (ranges s)" "x \<in> range_points r" for r
  proof -
    obtain q where q: "find_containing_range s x = Some q"
      using find_containing_range_total [OF assms, of x] r by (auto simp: points_def)
    with find_containing_range_Some inv_disjoint [OF assms r(1)] r(2) show ?thesis by blast
  qed
  ultimately show ?thesis using find_containing_range_Some by blast
qed

theorem range_set_lookup_correct_witness:
  "find_containing_range \<lparr>ranges = [Range 0 10, Range 20 30]\<rparr> 30 = Some (Range 20 30) \<and>
   \<not> range_set_has \<lparr>ranges = [Range 0 10, Range 20 30]\<rparr> 15"
proof -
  have inv: "range_set_inv \<lparr>ranges = [Range 0 10, Range 20 30]\<rparr>"
    by (simp add: range_set_inv_def range_wf_def separated_def)
  show ?thesis
    using range_set_lookup_correct [OF inv, of 30] range_set_lookup_correct [OF inv, of 15]
    by (simp add: range_points_def)
qed

text \<open>
  On a range set that satisfies the invariant, \<open>includes\<close> holds of a well-formed range
  exactly if every one of its blocks is covered.
\<close>

lemma range_set_includes_correct:
  assumes "range_set_inv s" and "rbegin r \<le> rend r"
  shows "range_set_includes s r \<longleftrightarrow> range_points r \<subseteq> points (ranges s)"
proof (cases "find_containing_range s (rbegin r)")
  case None
  then have "rbegin r \<notin> points (ranges s)"
    using find_containing_range_total [OF assms(1), of "rbegin r"] by simp
  with None assms(2) show ?thesis by (auto simp: range_set_includes_def range_points_def)
next
  case (Some c)
  from find_containing_range_Some [OF this]
  have c: "c \<in> set (ranges s)" "rbegin c \<le> rbegin r" "rbegin r \<le> rend c"
    by (auto simp: range_points_def)
  show ?thesis
  proof (cases "rend r \<le> rend c")
    case True
    with c have "range_points r \<subseteq> range_points c" by (auto simp: range_points_def)
    with Some c(1) True show ?thesis by (auto simp: range_set_includes_def points_def)
  next
    case False
    with inv_connected [OF assms(1) c(1,2) _ c(3), of "rend r"] Some show ?thesis
      by (simp add: range_set_includes_def range_points_def)
  qed
qed


end
