(* ===== verification/Data_Chunk.thy ===== *)
theory Data_Chunk
  imports Ranges "HOL-Library.Char_ord" "HOL-Library.List_Lexorder"
begin

text \<open>
  Data chunks (messages/src/data_chunk.rs): the names of the dataset pieces that workers
  store, such as \<^verbatim>\<open>0000000000/0000808640-0000816499-b0486318\<close>. The theory models the
  constructor with its assertions, printing and parsing (with the standard library's
  string splitting, decimal formatting and decimal parsing), the derived order and the
  conversion to a range, and shows that parsing inverts printing, that parsing accepts
  only valid chunks, and that the order of chunks is the order of their names.
\<close>

section \<open>Decimal text\<close>

text \<open>The standard library's \<open>str::split\<close> at a character: always at least one piece.\<close>

fun split_char :: "char \<Rightarrow> string \<Rightarrow> string list" where
  "split_char sep [] = [[]]"
| "split_char sep (c # cs) =
     (if c = sep then [] # split_char sep cs
      else case split_char sep cs of [] \<Rightarrow> [[c]] | p # ps \<Rightarrow> (c # p) # ps)"

definition digit_char :: "nat \<Rightarrow> char" where
  "digit_char d = char_of (48 + d)"

definition char_digit :: "char \<Rightarrow> nat option" where
  "char_digit c = (let n = of_char c in if 48 \<le> n \<and> n \<le> 57 then Some (n - 48) else None)"

text \<open>\<open>u32::from_str\<close>: an optional plus sign, at least one digit, no overflow.\<close>

fun parse_digits :: "nat \<Rightarrow> string \<Rightarrow> nat option" where
  "parse_digits acc [] = Some acc"
| "parse_digits acc (c # cs) =
     (case char_digit c of
        None \<Rightarrow> None
      | Some d \<Rightarrow> (let acc' = acc * 10 + d in if acc' < 2 ^ 32 then parse_digits acc' cs else None))"

fun parse_u32 :: "string \<Rightarrow> u32 option" where
  "parse_u32 [] = None"
| "parse_u32 (c # cs) =
     (if cs = [] \<and> (c = CHR ''+'' \<or> c = CHR ''-'') then None
      else map_option of_nat (parse_digits 0 (if c = CHR ''+'' then cs else c # cs)))"

text \<open>Decimal formatting, and the padding of the format \<^verbatim>\<open>{:010}\<close>.\<close>

fun dec :: "nat \<Rightarrow> string" where
  "dec n = (if n < 10 then [digit_char n] else dec (n div 10) @ [digit_char (n mod 10)])"

declare dec.simps [simp del]

definition pad :: "nat \<Rightarrow> string \<Rightarrow> string" where
  "pad w s = replicate (w - length s) (CHR ''0'') @ s"

section \<open>Data chunks\<close>

datatype data_chunk =
  DataChunk (top: u32) (first_block: u32) (last_block: u32) (last_hash: string)

instantiation data_chunk :: linorder
begin

definition less_eq_data_chunk :: "data_chunk \<Rightarrow> data_chunk \<Rightarrow> bool" where
  "less_eq_data_chunk a b \<longleftrightarrow>
     top a < top b \<or> top a = top b \<and>
       (first_block a < first_block b \<or> first_block a = first_block b \<and>
         (last_block a < last_block b \<or> last_block a = last_block b \<and> last_hash a \<le> last_hash b))"

definition less_data_chunk :: "data_chunk \<Rightarrow> data_chunk \<Rightarrow> bool" where
  "less_data_chunk a b \<longleftrightarrow>
     top a < top b \<or> top a = top b \<and>
       (first_block a < first_block b \<or> first_block a = first_block b \<and>
         (last_block a < last_block b \<or> last_block a = last_block b \<and> last_hash a < last_hash b))"

instance
  by standard (auto simp: less_eq_data_chunk_def less_data_chunk_def intro: data_chunk.expand)

end

definition data_chunk_new :: "u32 \<Rightarrow> u32 \<Rightarrow> u32 \<Rightarrow> string \<Rightarrow> data_chunk run" where
  "data_chunk_new tp fb lb hash =
     (if tp \<le> fb then if fb \<le> lb then Done (DataChunk tp fb lb hash) else Panic else Panic)"

definition data_chunk_display :: "data_chunk \<Rightarrow> string" where
  "data_chunk_display c =
     pad 10 (dec (unat (top c))) @ ''/'' @ pad 10 (dec (unat (first_block c))) @ ''-'' @
     pad 10 (dec (unat (last_block c))) @ ''-'' @ last_hash c"

definition get_nth :: "'a list \<Rightarrow> nat \<Rightarrow> 'a option" where
  "get_nth xs i = (if i < length xs then Some (xs ! i) else None)"

text \<open>\<open>None\<close> is the error \<^verbatim>\<open>Err(())\<close>; the constructor's assertions can panic.\<close>

definition data_chunk_from_str :: "string \<Rightarrow> data_chunk option run" where
  "data_chunk_from_str s =
     (let top_range_split = split_char (CHR ''/'') s in
      case Option.bind (get_nth top_range_split 0) parse_u32 of None \<Rightarrow> Done None | Some tp \<Rightarrow>
      case get_nth top_range_split 1 of None \<Rightarrow> Done None | Some range_str \<Rightarrow>
      let range_split = split_char (CHR ''-'') range_str in
      case Option.bind (get_nth range_split 0) parse_u32 of None \<Rightarrow> Done None | Some beg \<Rightarrow>
      case Option.bind (get_nth range_split 1) parse_u32 of None \<Rightarrow> Done None | Some fin \<Rightarrow>
      case get_nth range_split 2 of None \<Rightarrow> Done None | Some hash \<Rightarrow>
      if tp \<le> beg \<and> beg \<le> fin then run_bind (data_chunk_new tp beg fin hash) (\<lambda>c. Done (Some c))
      else Done None)"

definition range_from_data_chunk :: "data_chunk \<Rightarrow> range run" where
  "range_from_data_chunk c = range_new (first_block c) (last_block c)"

definition data_chunk_inv :: "data_chunk \<Rightarrow> bool" where
  "data_chunk_inv c \<longleftrightarrow> top c \<le> first_block c \<and> first_block c \<le> last_block c"

declare data_chunk_inv_def [inv_defs]

section \<open>Fixed-width decimals\<close>

fun fixed_dec :: "nat \<Rightarrow> nat \<Rightarrow> string" where
  "fixed_dec 0 n = []"
| "fixed_dec (Suc w) n = fixed_dec w (n div 10) @ [digit_char (n mod 10)]"

lemma length_fixed_dec [simp]: "length (fixed_dec w n) = w"
  by (induction w arbitrary: n) auto

lemma of_char_digit_char: "d < 10 \<Longrightarrow> of_char (digit_char d) = 48 + d"
  by (simp add: digit_char_def)

lemma char_digit_digit_char [simp]: "d < 10 \<Longrightarrow> char_digit (digit_char d) = Some d"
  by (simp add: char_digit_def of_char_digit_char)

lemma digit_char_0: "digit_char 0 = CHR ''0''"
  by code_simp

lemma fixed_dec_zero: "fixed_dec w 0 = replicate w (CHR ''0'')"
  by (induction w) (auto simp: digit_char_0 replicate_append_same)

lemma length_dec_le: "n < 10 ^ w \<Longrightarrow> 0 < w \<Longrightarrow> length (dec n) \<le> w"
proof (induction n arbitrary: w rule: dec.induct)
  case (1 n)
  show ?case
  proof (cases "n < 10")
    case True
    with "1.prems" show ?thesis by (simp add: dec.simps [of n])
  next
    case False
    with "1.prems" obtain v where v: "w = Suc v" "0 < v" by (cases w; cases "w - 1") auto
    then have "n div 10 < 10 ^ v" using "1.prems" by (simp add: div_less_iff_less_mult mult.commute)
    with "1.IH" [OF False] v False show ?thesis by (simp add: dec.simps [of n])
  qed
qed

lemma pad_dec: "n < 10 ^ w \<Longrightarrow> 0 < w \<Longrightarrow> pad w (dec n) = fixed_dec w n"
proof (induction n arbitrary: w rule: dec.induct)
  case (1 n)
  show ?case
  proof (cases "n < 10")
    case True
    with "1.prems" show ?thesis
      by (cases w) (auto simp: dec.simps [of n] pad_def fixed_dec_zero)
  next
    case False
    with "1.prems" obtain v where v: "w = Suc v" "0 < v" by (cases w; cases "w - 1") auto
    then have "n div 10 < 10 ^ v" using "1.prems" by (simp add: div_less_iff_less_mult mult.commute)
    with "1.IH" [OF False] v False show ?thesis by (auto simp: dec.simps [of n] pad_def)
  qed
qed

lemma u32_less_pow: "unat (x :: u32) < 10 ^ 10"
  using unsigned_less [of x, where 'a = nat] by simp

lemma pad_dec_u32: "pad 10 (dec (unat (x :: u32))) = fixed_dec 10 (unat x)"
  by (rule pad_dec [OF u32_less_pow]) simp

section \<open>Parsing inverts printing\<close>

lemma parse_digits_append:
  "parse_digits acc (xs @ ys) = Option.bind (parse_digits acc xs) (\<lambda>a. parse_digits a ys)"
  by (induction xs arbitrary: acc) (auto simp: Let_def split: option.splits)

lemma parse_digits_fixed_dec:
  assumes "n < 10 ^ w" and "acc * 10 ^ w + n < 2 ^ 32"
  shows "parse_digits acc (fixed_dec w n) = Some (acc * 10 ^ w + n)"
  using assms
proof (induction w arbitrary: n)
  case 0
  then show ?case by simp
next
  case (Suc w)
  have "acc * 10 ^ w + n div 10 \<le> acc * 10 ^ Suc w + n"
    by (rule add_mono) auto
  with Suc.prems Suc.IH [of "n div 10"]
  have "parse_digits acc (fixed_dec w (n div 10)) = Some (acc * 10 ^ w + n div 10)"
    by (simp add: div_less_iff_less_mult mult.commute)
  moreover have "(acc * 10 ^ w + n div 10) * 10 + n mod 10 = acc * 10 ^ Suc w + n"
    by (simp add: algebra_simps)
  ultimately show ?case using Suc.prems by (simp add: parse_digits_append Let_def)
qed

lemma set_fixed_dec: "c \<in> set (fixed_dec w n) \<Longrightarrow> 48 \<le> (of_char c :: nat) \<and> (of_char c :: nat) \<le> 57"
  by (induction w arbitrary: n) (auto simp: of_char_digit_char)

lemma fixed_dec_no_sep [simp]:
  "CHR ''/'' \<notin> set (fixed_dec w n)" "CHR ''-'' \<notin> set (fixed_dec w n)" "CHR ''+'' \<notin> set (fixed_dec w n)"
  by (auto dest!: set_fixed_dec)

lemma parse_u32_fixed_dec [simp]: "parse_u32 (fixed_dec 10 (unat x)) = Some x"
proof -
  obtain c cs where c: "fixed_dec 10 (unat x) = c # cs" "cs \<noteq> []"
    by (cases "fixed_dec 10 (unat x)"; cases "tl (fixed_dec 10 (unat x))")
       (use length_fixed_dec [of 10 "unat x"] in auto)
  have "c \<noteq> CHR ''+''" using fixed_dec_no_sep(3) [of 10 "unat x"] c(1) by auto
  with parse_digits_fixed_dec [of "unat x" 10 0] u32_less_pow [of x] unsigned_less [of x, where 'a = nat] c
  show ?thesis by simp
qed

lemma split_char_no_sep: "sep \<notin> set xs \<Longrightarrow> split_char sep xs = [xs]"
  by (induction xs) auto

lemma split_char_sep: "sep \<notin> set xs \<Longrightarrow> split_char sep (xs @ sep # ys) = xs # split_char sep ys"
  by (induction xs) auto

lemmas split_char_lemmas = split_char_no_sep split_char_sep

lemma data_chunk_from_str_Some:
  assumes "data_chunk_from_str s = Done (Some c)"
  shows "data_chunk_inv c"
  using assms
  by (auto simp: data_chunk_from_str_def data_chunk_new_def data_chunk_inv_def Let_def
      split: option.splits if_splits)

section \<open>The order of names\<close>

lemma append_less_iff:
  fixes xs xs' ys ys' :: string
  assumes "length xs = length xs'"
  shows "xs @ ys < xs' @ ys' \<longleftrightarrow> xs < xs' \<or> xs = xs' \<and> ys < ys'"
  using assms by (induction xs xs' rule: list_induct2) auto

lemma append_le_iff:
  fixes xs xs' ys ys' :: string
  assumes "length xs = length xs'"
  shows "xs @ ys \<le> xs' @ ys' \<longleftrightarrow> xs < xs' \<or> xs = xs' \<and> ys \<le> ys'"
  using append_less_iff [OF assms, of ys ys'] assms by (auto simp: order.order_iff_strict)

lemma digit_char_less:
  assumes "a < 10" and "b < 10"
  shows "digit_char a < digit_char b \<longleftrightarrow> a < b" and "digit_char a = digit_char b \<longleftrightarrow> a = b"
proof -
  show "digit_char a < digit_char b \<longleftrightarrow> a < b"
    by (simp only: less_char_def of_char_digit_char assms nat_add_left_cancel_less)
  show "digit_char a = digit_char b \<longleftrightarrow> a = b"
    using assms by (metis char_digit_digit_char option.inject)
qed

lemma div_mod_less:
  fixes m n :: nat
  shows "m < n \<longleftrightarrow> m div 10 < n div 10 \<or> m div 10 = n div 10 \<and> m mod 10 < n mod 10"
    and "m = n \<longleftrightarrow> m div 10 = n div 10 \<and> m mod 10 = n mod 10"
proof -
  have "10 * a + c < 10 * b + d \<longleftrightarrow> a < b \<or> a = b \<and> c < d"
    if "c < 10" and "d < 10" for a b c d :: nat
    using that by arith
  from this [of "m mod 10" "n mod 10" "m div 10" "n div 10"]
  show "m < n \<longleftrightarrow> m div 10 < n div 10 \<or> m div 10 = n div 10 \<and> m mod 10 < n mod 10" by simp
  show "m = n \<longleftrightarrow> m div 10 = n div 10 \<and> m mod 10 = n mod 10"
    using div_mult_mod_eq [of m 10] div_mult_mod_eq [of n 10] by metis
qed

lemma fixed_dec_less:
  assumes "m < 10 ^ w" and "n < 10 ^ w"
  shows "(fixed_dec w m < fixed_dec w n \<longleftrightarrow> m < n) \<and> (fixed_dec w m = fixed_dec w n \<longleftrightarrow> m = n)"
  using assms
proof (induction w arbitrary: m n)
  case 0
  then show ?case by simp
next
  case (Suc w)
  have dm: "m div 10 < 10 ^ w" "n div 10 < 10 ^ w"
    using Suc.prems by (simp_all add: div_less_iff_less_mult mult.commute)
  show ?case
    unfolding div_mod_less [of m n]
    by (simp add: Suc.IH [OF dm] append_less_iff digit_char_less)
qed

lemma fixed_dec_u32:
  fixes x y :: u32
  shows "fixed_dec 10 (unat x) < fixed_dec 10 (unat y) \<longleftrightarrow> x < y"
    and "fixed_dec 10 (unat x) = fixed_dec 10 (unat y) \<longleftrightarrow> x = y"
  using fixed_dec_less [OF u32_less_pow [of x] u32_less_pow [of y]]
  by (simp_all add: word_less_nat_alt word_unat_eq_iff)

section \<open>Properties\<close>

text \<open>
  C29. Parsing inverts printing: a chunk that satisfies the constructor's assertions and
  whose hash contains neither separator is read back from its name.
\<close>

theorem data_chunk_roundtrip:
  assumes "top c \<le> first_block c" and "first_block c \<le> last_block c"
    and "CHR ''/'' \<notin> set (last_hash c)" and "CHR ''-'' \<notin> set (last_hash c)"
  shows "data_chunk_from_str (data_chunk_display c) = Done (Some c)"
  using assms
  by (simp add: data_chunk_from_str_def data_chunk_display_def pad_dec_u32 split_char_lemmas
      get_nth_def data_chunk_new_def)

theorem data_chunk_roundtrip_witness:
  "data_chunk_from_str (data_chunk_display (DataChunk 0 808640 816499 ''b0486318'')) =
     Done (Some (DataChunk 0 808640 816499 ''b0486318''))"
  by (rule data_chunk_roundtrip) (simp_all)

text \<open>
  C30. Parsing never panics (the assertions of the constructor are established before it is
  called), and whatever it accepts is a chunk whose blocks are ordered, so that its
  conversion to a range does not panic either.
\<close>

theorem data_chunk_from_str_safe:
  "data_chunk_from_str s = Done None \<or>
   (\<exists>c. data_chunk_from_str s = Done (Some c) \<and> data_chunk_inv c \<and>
        range_from_data_chunk c = Done (Range (first_block c) (last_block c)))"
proof -
  have "data_chunk_from_str s \<noteq> Panic"
    by (auto simp: data_chunk_from_str_def data_chunk_new_def Let_def split: option.splits)
  then obtain r where r: "data_chunk_from_str s = Done r" by (cases "data_chunk_from_str s") auto
  then show ?thesis
    by (cases r) (auto dest: data_chunk_from_str_Some
        simp: data_chunk_inv_def range_from_data_chunk_def range_new_def)
qed

text \<open>
  C31. The zero padding makes the derived order of chunks the order of their names, compared
  as strings: a listing sorted by name is sorted by block number.
\<close>

theorem data_chunk_order_names:
  "data_chunk_display a \<le> data_chunk_display b \<longleftrightarrow> a \<le> b"
  by (simp add: data_chunk_display_def pad_dec_u32 append_le_iff fixed_dec_u32 less_eq_data_chunk_def)

end
