(* ===== verification/External.thy ===== *)
theory External
  imports Prelude
begin

text \<open>
  The library code that the sources call and that is not part of the repository. Identifiers
  that the program only compares and passes on are values of simple types; functions of the
  libraries are fields of parameter records, which the definitions of the model take as
  arguments; what the program relies on is stated as a named predicate over such a record
  and appears as a hypothesis of the properties that need it.

  Libraries with an effect on the network (kademlia, gossipsub, request-response, the
  allow list, autonat) are represented by the sequence of calls that the program has made
  on them. Where such a call returns a value the program uses, the value is given by a
  parameter function of the calls so far, which makes no assumption on the library.
\<close>

section \<open>Identifiers\<close>

text \<open>\<open>PeerId\<close> of libp2p: a multihash, identified with its bytes.\<close>

datatype peer_id = PeerId (to_bytes: bytes)

datatype keypair = Keypair (key_bytes: bytes)
datatype pubkey = PublicKey (pubkey_bytes: bytes)

type_synonym req_id = nat \<comment> \<open>\<open>request_response::OutboundRequestId\<close>\<close>
type_synonym query_id = nat \<comment> \<open>\<open>kad::QueryId\<close>\<close>
type_synonym resp_chan = nat \<comment> \<open>\<open>request_response::ResponseChannel\<close>\<close>
type_synonym topic_hash = string \<comment> \<open>\<open>gossipsub::TopicHash\<close>\<close>

text \<open>The protocols of a \<open>Multiaddr\<close> that the sources distinguish; an address is their list.\<close>

datatype protocol =
    Ip4 u32
  | Ip6 u128
  | Dns string
  | Dns4 string
  | Dns6 string
  | Dnsaddr string
  | P2p peer_id
  | P2pCircuit
  | OtherProtocol string

type_synonym multiaddr = "protocol list"

section \<open>Cryptography and identities\<close>

record crypto =
  sha3_256 :: "bytes \<Rightarrow> bytes"
  keypair_sign :: "keypair \<Rightarrow> bytes \<Rightarrow> bytes option"
  keypair_public :: "keypair \<Rightarrow> pubkey"
  pubkey_decode :: "bytes \<Rightarrow> pubkey option" \<comment> \<open>\<open>PublicKey::try_decode_protobuf\<close>\<close>
  pubkey_verify :: "pubkey \<Rightarrow> bytes \<Rightarrow> bytes \<Rightarrow> bool"
  pubkey_peer_id :: "pubkey \<Rightarrow> peer_id"
  peer_from_str :: "string \<Rightarrow> peer_id option"
  peer_to_base58 :: "peer_id \<Rightarrow> string"
  peer_from_bytes :: "bytes \<Rightarrow> peer_id option"

text \<open>
  The key pair of a peer with an inlined public key: the bytes of the peer ID after the
  two-byte multihash header decode to a public key, the key pair can sign every message,
  and that public key verifies its signatures.
\<close>

definition key_of_peer :: "crypto \<Rightarrow> keypair \<Rightarrow> peer_id \<Rightarrow> bool" where
  "key_of_peer cr kp p \<longleftrightarrow>
     2 \<le> length (to_bytes p) \<and>
     (\<exists>pk. pubkey_decode cr (drop 2 (to_bytes p)) = Some pk \<and>
           (\<forall>m. \<exists>s. keypair_sign cr kp m = Some s \<and> pubkey_verify cr pk m s))"

section \<open>Polling and swarm commands\<close>

datatype 'a poll = Pending | Ready 'a

datatype peer_condition = DisconnectedAndNotDialing | NotDialing | Always

text \<open>
  Commands of a behaviour to the swarm (\<open>ToSwarm\<close>): an event for the layer above, a dial
  request, or any other command, whose content the program passes on unseen.
\<close>

datatype ('ev, 'cmd) to_swarm =
    GenerateEvent 'ev
  | Dial peer_id peer_condition
  | OtherCmd 'cmd

section \<open>Third-party containers\<close>

text \<open>
  \<open>futures_bounded::FuturesMap\<close> keyed by peers and filled with futures that never complete:
  a set of timers of bounded size. \<open>fm_try_push\<close> and \<open>fm_remove\<close> return whether they
  succeeded; \<open>fm_poll now\<close> reports a key with \<open>Inl ()\<close> when its timer has expired and with
  \<open>Inr ()\<close> when its future has completed.
\<close>

record 'fm futures_map =
  fm_new :: "nat \<Rightarrow> nat \<Rightarrow> 'fm" \<comment> \<open>timeout (in seconds) and capacity\<close>
  fm_contains :: "'fm \<Rightarrow> peer_id \<Rightarrow> bool"
  fm_try_push :: "'fm \<Rightarrow> peer_id \<Rightarrow> 'fm \<times> bool"
  fm_remove :: "'fm \<Rightarrow> peer_id \<Rightarrow> 'fm \<times> bool"
  fm_poll :: "nat \<Rightarrow> 'fm \<Rightarrow> 'fm \<times> (peer_id \<times> (unit + unit)) poll"

definition fm_keys :: "'fm futures_map \<Rightarrow> 'fm \<Rightarrow> peer_id set" where
  "fm_keys fm s = {p. fm_contains fm s p}"

text \<open>
  Its documented behaviour, with \<open>cap\<close> the capacity a map was created with: it starts
  empty; pushing a new key fails exactly if the map is full, and otherwise adds the key;
  removing reports whether the key was there; polling reports only keys that are there,
  removes what it reports, and never reports the completion of a future that never completes.
\<close>

definition futures_map_laws :: "'fm futures_map \<Rightarrow> ('fm \<Rightarrow> nat) \<Rightarrow> bool" where
  "futures_map_laws fm cap \<longleftrightarrow>
     (\<forall>t c. fm_keys fm (fm_new fm t c) = {} \<and> cap (fm_new fm t c) = c) \<and>
     (\<forall>s. finite (fm_keys fm s)) \<and>
     (\<forall>s p s' ok. fm_try_push fm s p = (s', ok) \<and> p \<notin> fm_keys fm s \<longrightarrow>
        cap s' = cap s \<and> (ok \<longleftrightarrow> card (fm_keys fm s) < cap s) \<and>
        fm_keys fm s' = (if ok then insert p (fm_keys fm s) else fm_keys fm s)) \<and>
     (\<forall>s p s' found. fm_remove fm s p = (s', found) \<longrightarrow>
        cap s' = cap s \<and> (found \<longleftrightarrow> p \<in> fm_keys fm s) \<and> fm_keys fm s' = fm_keys fm s - {p}) \<and>
     (\<forall>now s s' r. fm_poll fm now s = (s', r) \<longrightarrow> cap s' = cap s \<and>
        (case r of Pending \<Rightarrow> fm_keys fm s' = fm_keys fm s
         | Ready (p, res) \<Rightarrow> res = Inl () \<and> p \<in> fm_keys fm s \<and> fm_keys fm s' = fm_keys fm s - {p}))"

lemma fm_contains_keys: "fm_contains fm t p \<longleftrightarrow> p \<in> fm_keys fm t"
  by (simp add: fm_keys_def)

lemma fm_remove_law:
  assumes "futures_map_laws fm cap"
  shows "fm_keys fm (fst (fm_remove fm t p)) = fm_keys fm t - {p}" "cap (fst (fm_remove fm t p)) = cap t"
    "snd (fm_remove fm t p) \<longleftrightarrow> p \<in> fm_keys fm t"
  using assms surjective_pairing [of "fm_remove fm t p"] unfolding futures_map_laws_def by blast+

lemma fm_try_push_law:
  assumes "futures_map_laws fm cap" and "p \<notin> fm_keys fm t"
  shows "cap (fst (fm_try_push fm t p)) = cap t"
    and "snd (fm_try_push fm t p) \<longleftrightarrow> card (fm_keys fm t) < cap t"
    and "fm_keys fm (fst (fm_try_push fm t p)) =
      (if card (fm_keys fm t) < cap t then insert p (fm_keys fm t) else fm_keys fm t)"
proof -
  from assms(1) have "\<forall>s p s' ok. fm_try_push fm s p = (s', ok) \<and> p \<notin> fm_keys fm s \<longrightarrow>
      cap s' = cap s \<and> (ok \<longleftrightarrow> card (fm_keys fm s) < cap s) \<and>
      fm_keys fm s' = (if ok then insert p (fm_keys fm s) else fm_keys fm s)"
    unfolding futures_map_laws_def by (elim conjE)
  from this [rule_format, OF conjI, OF surjective_pairing assms(2)]
  show "cap (fst (fm_try_push fm t p)) = cap t"
    and "snd (fm_try_push fm t p) \<longleftrightarrow> card (fm_keys fm t) < cap t"
    and "fm_keys fm (fst (fm_try_push fm t p)) =
      (if card (fm_keys fm t) < cap t then insert p (fm_keys fm t) else fm_keys fm t)"
    by auto
qed

lemma fm_poll_law:
  assumes "futures_map_laws fm cap" and "fm_poll fm now t = (t', r)"
  shows "cap t' = cap t" and "r = Pending \<Longrightarrow> fm_keys fm t' = fm_keys fm t"
    and "r = Ready (p, res) \<Longrightarrow> res = Inl () \<and> p \<in> fm_keys fm t \<and> fm_keys fm t' = fm_keys fm t - {p}"
proof -
  from assms have "cap t' = cap t \<and> (case r of Pending \<Rightarrow> fm_keys fm t' = fm_keys fm t
      | Ready (p, res) \<Rightarrow> res = Inl () \<and> p \<in> fm_keys fm t \<and> fm_keys fm t' = fm_keys fm t - {p})"
    unfolding futures_map_laws_def by blast
  then show "cap t' = cap t" and "r = Pending \<Longrightarrow> fm_keys fm t' = fm_keys fm t"
    and "r = Ready (p, res) \<Longrightarrow> res = Inl () \<and> p \<in> fm_keys fm t \<and> fm_keys fm t' = fm_keys fm t - {p}"
    by auto
qed

lemma fm_finite: "futures_map_laws fm cap \<Longrightarrow> finite (fm_keys fm t)"
  by (simp add: futures_map_laws_def)

text \<open>
  Timers as a list of peers whose first entry expires when polled: an instance of the laws,
  for the witnesses.
\<close>

definition demo_timers :: "(nat \<times> peer_id list) futures_map" where
  "demo_timers = \<lparr>fm_new = \<lambda>t c. (c, []), fm_contains = \<lambda>s p. p \<in> set (snd s),
     fm_try_push = \<lambda>s p. if p \<in> set (snd s) then (s, True)
       else if card (set (snd s)) < fst s then ((fst s, snd s @ [p]), True) else (s, False),
     fm_remove = \<lambda>s p. ((fst s, removeAll p (snd s)), p \<in> set (snd s)),
     fm_poll = \<lambda>now s. (case snd s of [] \<Rightarrow> (s, Pending)
       | p # ps \<Rightarrow> ((fst s, removeAll p ps), Ready (p, Inl ())))\<rparr>"

lemma demo_timers_laws: "futures_map_laws demo_timers fst"
  unfolding futures_map_laws_def fm_keys_def
proof (intro conjI allI impI)
  fix now s s' r assume "fm_poll demo_timers now s = (s', r)"
  then show "case r of Pending \<Rightarrow> {p. fm_contains demo_timers s' p} = {p. fm_contains demo_timers s p}
      | Ready (p, res) \<Rightarrow> res = Inl () \<and> p \<in> {p. fm_contains demo_timers s p} \<and>
          {p. fm_contains demo_timers s' p} = {p. fm_contains demo_timers s p} - {p}"
    by (auto simp: demo_timers_def split: list.splits)
qed (auto simp: demo_timers_def split: if_splits list.splits)

text \<open>\<open>lru::LruCache\<close> from peers to sets of addresses.\<close>

record 'lru lru_cache =
  lru_new :: "nat \<Rightarrow> 'lru"
  lru_get :: "'lru \<Rightarrow> peer_id \<Rightarrow> 'lru \<times> multiaddr set option"
  lru_get_or_insert_mut ::
    "'lru \<Rightarrow> peer_id \<Rightarrow> multiaddr set \<Rightarrow> (multiaddr set \<Rightarrow> multiaddr set) \<Rightarrow> 'lru"
    \<comment> \<open>key, default value, and the update done through the returned reference\<close>

text \<open>\<open>bimap::BiHashMap\<close> between peers and kademlia queries.\<close>

record 'bm bi_map =
  bm_new :: 'bm
  bm_contains_left :: "'bm \<Rightarrow> peer_id \<Rightarrow> bool"
  bm_get_by_right :: "'bm \<Rightarrow> query_id \<Rightarrow> peer_id option"
  bm_insert :: "'bm \<Rightarrow> peer_id \<Rightarrow> query_id \<Rightarrow> 'bm"
  bm_remove_by_right :: "'bm \<Rightarrow> query_id \<Rightarrow> 'bm"

text \<open>
  A bidirectional map holds pairs of a peer and a query, which can be looked up from either side;
  inserting a pair drops the pairs that share a side with it.
\<close>

definition bm_pairs :: "'bm bi_map \<Rightarrow> 'bm \<Rightarrow> (peer_id \<times> query_id) set" where
  "bm_pairs bm m = {(p, q). bm_get_by_right bm m q = Some p}"

definition bi_map_laws :: "'bm bi_map \<Rightarrow> bool" where
  "bi_map_laws bm \<longleftrightarrow>
     bm_pairs bm (bm_new bm) = {} \<and>
     (\<forall>m p. bm_contains_left bm m p \<longleftrightarrow> p \<in> fst ` bm_pairs bm m) \<and>
     (\<forall>m p q. bm_pairs bm (bm_insert bm m p q) =
        insert (p, q) {(p', q') \<in> bm_pairs bm m. p' \<noteq> p \<and> q' \<noteq> q}) \<and>
     (\<forall>m q. bm_pairs bm (bm_remove_by_right bm m q) = {(p', q') \<in> bm_pairs bm m. q' \<noteq> q})"

end
