(* ===== verification/Messages.thy ===== *)
theory Messages
  imports Data_Chunk External
begin

text \<open>
  The messages of the network (messages/proto/messages.proto) and the conversions and
  helpers on them (messages/src/lib.rs). The Rust types are generated from the protocol
  description; each message is a record with its fields, each \<open>oneof\<close> a datatype. The
  protobuf encoding itself is generated code and a parameter (\<open>protobuf\<close>).
\<close>

section \<open>Message types\<close>

record dataset_ranges =
  dr_url :: string
  dr_ranges :: "range list"

record ping =
  ping_worker_id :: "string option"
  ping_version :: "string option"
  ping_stored_bytes :: "u64 option"
  ping_stored_ranges :: "dataset_ranges list"
  ping_signature :: bytes

record http_header =
  hh_name :: string
  hh_value :: string

record assigned_chunk =
  ac_path :: string
  ac_filenames :: "u32 list"

record dataset_chunks =
  dc_dataset_id :: string
  dc_download_url :: string
  dc_chunks :: "assigned_chunk list"

record worker_assignment =
  wa_dataset_chunks :: "dataset_chunks list"
  wa_http_headers :: "http_header list"
  wa_known_filenames :: "string list"

datatype pong_status =
    NotRegistered
  | UnsupportedVersion
  | Jailed string
  | Active worker_assignment

record pong =
  pong_ping_hash :: bytes
  pong_status :: "pong_status option"

record query =
  q_query_id :: "string option"
  q_dataset :: "string option"
  q_query :: "string option"
  q_profiling :: "bool option"
  q_client_state_json :: "string option"
  q_signature :: bytes

record ok_result =
  ok_data :: bytes
  ok_exec_plan :: "bytes option"

datatype query_result_kind =
    QR_Ok ok_result
  | QR_BadRequest string
  | QR_ServerError string
  | QR_NoAllocation
  | QR_Timeout

record query_result =
  qr_query_id :: string
  qr_result :: "query_result_kind option"

record size_and_hash =
  sh_size :: "u32 option"
  sh_sha3_256 :: bytes

record query_submitted =
  qs_client_id :: string
  qs_worker_id :: string
  qs_query_id :: string
  qs_dataset :: string
  qs_query :: string
  qs_query_hash :: bytes

datatype query_finished_kind =
    QF_Ok size_and_hash
  | QF_BadRequest string
  | QF_ServerError string
  | QF_Timeout
  | QF_NoAllocation

record query_finished =
  qf_client_id :: string
  qf_worker_id :: string
  qf_query_id :: string
  qf_exec_time_ms :: u32
  qf_result :: "query_finished_kind option"

record input_and_output =
  io_num_read_chunks :: "u32 option"
  io_output :: "size_and_hash option"

datatype query_executed_kind =
    QE_Ok input_and_output
  | QE_BadRequest string
  | QE_ServerError string

record query_executed =
  qe_client_id :: string
  qe_worker_id :: string
  qe_query :: "query option"
  qe_query_hash :: bytes
  qe_exec_time_ms :: "u32 option"
  qe_result :: "query_executed_kind option"
  qe_seq_no :: "u64 option"
  qe_timestamp_ms :: "u64 option"
  qe_signature :: bytes

record query_logs =
  queries_executed :: "query_executed list"

record logs_collected =
  sequence_numbers :: "(string, u64) fmap"

datatype worker_logs_kind =
    WL_QueryLogs query_logs
  | WL_LogsCollected logs_collected

record worker_logs_msg =
  wl_msg :: "worker_logs_kind option"

datatype gateway_log_kind =
    GL_QuerySubmitted query_submitted
  | GL_QueryFinished query_finished

record gateway_log_msg =
  gl_msg :: "gateway_log_kind option"

record worker_state =
  datasets :: "(string, range_set) fmap"

section \<open>Protobuf encoding\<close>

text \<open>The generated \<open>encode_to_vec\<close>, \<open>encoded_len\<close> and \<open>decode\<close> of the messages.\<close>

record protobuf =
  enc_ping :: "ping \<Rightarrow> bytes"
  dec_ping :: "bytes \<Rightarrow> ping option"
  enc_query :: "query \<Rightarrow> bytes"
  enc_query_executed :: "query_executed \<Rightarrow> bytes"
  len_query_executed :: "query_executed \<Rightarrow> nat"
  enc_worker_logs_msg :: "worker_logs_msg \<Rightarrow> bytes"
  dec_worker_logs_msg :: "bytes \<Rightarrow> worker_logs_msg option"
  enc_logs_collected :: "logs_collected \<Rightarrow> bytes"
  dec_logs_collected :: "bytes \<Rightarrow> logs_collected option"

section \<open>Conversions\<close>

definition worker_state_deref :: "worker_state \<Rightarrow> (string, range_set) fmap" where
  "worker_state_deref self = datasets self"

definition worker_state_from :: "(string, range_set) fmap \<Rightarrow> worker_state" where
  "worker_state_from ds = \<lparr>datasets = ds\<rparr>"

text \<open>\<open>SizeAndHash::compute\<close> panics on data whose size does not fit 32 bits.\<close>

definition size_and_hash_compute :: "crypto \<Rightarrow> bytes \<Rightarrow> size_and_hash run" where
  "size_and_hash_compute cr data =
     (if length data < 2 ^ 32
      then Done \<lparr>sh_size = Some (of_nat (length data)), sh_sha3_256 = sha3_256 cr data\<rparr>
      else Panic)"

definition query_finished_from :: "crypto \<Rightarrow> query_result_kind \<Rightarrow> query_finished_kind run" where
  "query_finished_from cr result =
     (case result of
        QR_Ok ok \<Rightarrow> run_bind (size_and_hash_compute cr (ok_data ok)) (\<lambda>sh. Done (QF_Ok sh))
      | QR_BadRequest err \<Rightarrow> Done (QF_BadRequest err)
      | QR_ServerError err \<Rightarrow> Done (QF_ServerError err)
      | QR_NoAllocation \<Rightarrow> Done QF_NoAllocation
      | QR_Timeout \<Rightarrow> Done QF_Timeout)"

text \<open>\<open>semver::Version\<close>: major, minor, patch, pre-release and build parts.\<close>

datatype version = Version u64 u64 u64 string string

definition ping_sem_version :: "(string \<Rightarrow> version option) \<Rightarrow> ping \<Rightarrow> version" where
  "ping_sem_version semver_parse p =
     (case Option.bind (ping_version p) semver_parse of
        Some v \<Rightarrow> v
      | None \<Rightarrow> Version 0 0 1 [] [])"

definition ok_result_debug :: "ok_result \<Rightarrow> string" where
  "ok_result_debug r =
     ''OkResult { data: <'' @ dec (length (ok_data r)) @ '' bytes>, exec_plan: <'' @
     dec (case ok_exec_plan r of Some p \<Rightarrow> length p | None \<Rightarrow> 0) @ '' bytes> }''"

definition worker_logs_msg_from_msg :: "worker_logs_kind \<Rightarrow> worker_logs_msg" where
  "worker_logs_msg_from_msg m = \<lparr>wl_msg = Some m\<rparr>"

definition worker_logs_msg_from_logs_collected :: "logs_collected \<Rightarrow> worker_logs_msg" where
  "worker_logs_msg_from_logs_collected m = worker_logs_msg_from_msg (WL_LogsCollected m)"

definition query_logs_from :: "query_executed list \<Rightarrow> query_logs" where
  "query_logs_from qs = \<lparr>queries_executed = qs\<rparr>"

definition worker_logs_msg_from_queries :: "query_executed list \<Rightarrow> worker_logs_msg" where
  "worker_logs_msg_from_queries qs = worker_logs_msg_from_msg (WL_QueryLogs (query_logs_from qs))"

definition gateway_log_msg_from :: "gateway_log_kind \<Rightarrow> gateway_log_msg" where
  "gateway_log_msg_from m = \<lparr>gl_msg = Some m\<rparr>"

definition query_result_new :: "string \<Rightarrow> query_result_kind \<Rightarrow> query_result" where
  "query_result_new qid result = \<lparr>qr_query_id = qid, qr_result = Some result\<rparr>"

end
