(* ===== verification/Codec.thy ===== *)
theory Codec
  imports Messages
begin

text \<open>
  The request/response codec (transport/src/codec.rs): a message is the protobuf encoding
  sent on its own substream, and a reader takes at most the configured number of bytes
  before it decodes. Streams belong to the \<open>futures\<close> library: \<open>rd n io\<close> stands for
  \<open>io.take(n).read_to_end\<close> and \<open>wr io bytes\<close> for \<open>io.write_all\<close>; \<open>Inl\<close> is an I/O error.
\<close>

section \<open>Definitions\<close>

definition ack_size :: u64 where
  "ack_size = 4"

record proto_codec =
  max_req_size :: u64
  max_res_size :: u64

definition proto_codec_new :: "u64 \<Rightarrow> u64 \<Rightarrow> proto_codec" where
  "proto_codec_new req res = \<lparr>max_req_size = req, max_res_size = res\<rparr>"

datatype io_error = IoError string | DecodeError

definition read_request ::
    "(nat \<Rightarrow> 'io \<Rightarrow> io_error + bytes) \<Rightarrow> (bytes \<Rightarrow> 'req option) \<Rightarrow> proto_codec \<Rightarrow> 'io \<Rightarrow> io_error + 'req" where
  "read_request rd decode self io =
     (case rd (unat (max_req_size self)) io of
        Inl e \<Rightarrow> Inl e
      | Inr buf \<Rightarrow> (case decode buf of Some req \<Rightarrow> Inr req | None \<Rightarrow> Inl DecodeError))"

definition read_response ::
    "(nat \<Rightarrow> 'io \<Rightarrow> io_error + bytes) \<Rightarrow> (bytes \<Rightarrow> 'res option) \<Rightarrow> proto_codec \<Rightarrow> 'io \<Rightarrow> io_error + 'res" where
  "read_response rd decode self io =
     (case rd (unat (max_res_size self)) io of
        Inl e \<Rightarrow> Inl e
      | Inr buf \<Rightarrow> (case decode buf of Some res \<Rightarrow> Inr res | None \<Rightarrow> Inl DecodeError))"

definition write_request ::
    "('io \<Rightarrow> bytes \<Rightarrow> io_error + 'io) \<Rightarrow> ('req \<Rightarrow> bytes) \<Rightarrow> 'io \<Rightarrow> 'req \<Rightarrow> io_error + 'io" where
  "write_request wr encode io req = wr io (encode req)"

definition write_response ::
    "('io \<Rightarrow> bytes \<Rightarrow> io_error + 'io) \<Rightarrow> ('res \<Rightarrow> bytes) \<Rightarrow> 'io \<Rightarrow> 'res \<Rightarrow> io_error + 'io" where
  "write_response wr encode io res = wr io (encode res)"

text \<open>
  A reliable substream: what has been written to it can be read back, and a read that is
  limited to \<open>n\<close> bytes returns the first \<open>n\<close> of them.
\<close>

definition stream_laws :: "(nat \<Rightarrow> 'io \<Rightarrow> io_error + bytes) \<Rightarrow> ('io \<Rightarrow> bytes \<Rightarrow> io_error + 'io) \<Rightarrow> 'io \<Rightarrow> bool" where
  "stream_laws rd wr io0 \<longleftrightarrow> (\<forall>bs io n. wr io0 bs = Inr io \<longrightarrow> rd n io = Inr (take n bs))"

section \<open>Round trips\<close>

text \<open>
  A request that has been written to a substream is read back unchanged if its encoding
  fits the configured maximum; of a longer one the reader decodes the first \<open>max_req_size\<close>
  bytes only. The same holds of responses.
\<close>

lemma request_roundtrip:
  assumes "stream_laws rd wr io0" and "write_request wr encode io0 req = Inr io"
    and "decode (encode req) = Some req" and "length (encode req) \<le> unat (max_req_size self)"
  shows "read_request rd decode self io = Inr req"
  using assms by (auto simp: stream_laws_def write_request_def read_request_def)

lemma response_roundtrip:
  assumes "stream_laws rd wr io0" and "write_response wr encode io0 res = Inr io"
    and "decode (encode res) = Some res" and "length (encode res) \<le> unat (max_res_size self)"
  shows "read_response rd decode self io = Inr res"
  using assms by (auto simp: stream_laws_def write_response_def read_response_def)

lemma request_truncated:
  assumes "stream_laws rd wr io0" and "write_request wr encode io0 req = Inr io"
  shows "read_request rd decode self io =
    (case decode (take (unat (max_req_size self)) (encode req)) of Some m \<Rightarrow> Inr m | None \<Rightarrow> Inl DecodeError)"
  using assms by (auto simp: stream_laws_def write_request_def read_request_def)

end
