(* ===== verification/Wrapped.thy ===== *)
theory Wrapped
  imports External
begin

text \<open>
  Behaviour wrappers (transport/src/behaviour/wrapped.rs). Every behaviour of the network
  wraps an inner behaviour: the trait \<open>BehaviourWrapper\<close> gives the inner behaviour and the
  handlers for swarm events, for events of the inner behaviour, and for polling;
  \<open>Wrapped\<close> adds the queue of pending commands and the polling loop.

  A trait object is a record of its methods over the wrapper's state \<open>'s\<close>, which contains
  the inner behaviour. The methods of the inner behaviour that \<open>Wrapped\<close> calls are fields
  of the same record. The polling loop has no bound of its own, so it is a partial function
  whose value is \<open>None\<close> if it does not return.
\<close>

section \<open>The trait\<close>

type_synonym conn_id = nat

datatype endpoint = Dialer | Listener

text \<open>Notifications of the swarm (\<open>FromSwarm\<close>) that the behaviours of the network look at.\<close>

datatype swarm_event =
    ConnectionEstablished peer_id endpoint
  | ConnectionClosed peer_id endpoint
  | DialFailure "peer_id option"
  | NewExternalAddrOfPeer peer_id multiaddr
  | OtherSwarmEvent

text \<open>The connection callbacks that \<open>Wrapped\<close> forwards to the inner behaviour.\<close>

datatype 'he conn_call =
    PendingInbound conn_id multiaddr multiaddr
  | EstablishedInbound conn_id peer_id multiaddr multiaddr
  | PendingOutbound conn_id "peer_id option" "multiaddr list" endpoint
  | EstablishedOutbound conn_id peer_id multiaddr endpoint
  | HandlerEvent peer_id conn_id 'he

record ('s, 'sw, 'iev, 'ev, 'cmd, 'he, 'r) wrapper =
  w_inner_call :: "'s \<Rightarrow> 'he conn_call \<Rightarrow> 's \<times> 'r"
  w_inner_on_swarm_event :: "'s \<Rightarrow> 'sw \<Rightarrow> 's run"
  w_inner_poll :: "'s \<Rightarrow> ('s \<times> ('iev, 'cmd) to_swarm poll) run"
  w_on_swarm_event :: "'s \<Rightarrow> 'sw \<Rightarrow> ('s \<times> ('ev, 'cmd) to_swarm list) run"
  w_on_inner_event :: "'s \<Rightarrow> 'iev \<Rightarrow> ('s \<times> ('ev, 'cmd) to_swarm list) run"
  w_poll :: "'s \<Rightarrow> ('s \<times> ('ev, 'cmd) to_swarm list poll) run"

text \<open>The default methods of the trait: no events, and nothing to poll.\<close>

definition default_on_swarm_event :: "'s \<Rightarrow> 'sw \<Rightarrow> ('s \<times> ('ev, 'cmd) to_swarm list) run" where
  "default_on_swarm_event s ev = Done (s, [])"

definition default_on_inner_event :: "'s \<Rightarrow> 'iev \<Rightarrow> ('s \<times> ('ev, 'cmd) to_swarm list) run" where
  "default_on_inner_event s ev = Done (s, [])"

definition default_poll :: "'s \<Rightarrow> ('s \<times> ('ev, 'cmd) to_swarm list poll) run" where
  "default_poll s = Done (s, Pending)"

section \<open>The wrapper\<close>

record ('s, 'ev, 'cmd) wrapped =
  wrapper :: 's
  pending_events :: "('ev, 'cmd) to_swarm list"

definition wrapped_from :: "'s \<Rightarrow> ('s, 'ev, 'cmd) wrapped" where
  "wrapped_from s = \<lparr>wrapper = s, pending_events = []\<rparr>"

text \<open>A method of the wrapper called through \<open>Wrapped\<close> (\<open>DerefMut\<close>).\<close>

definition deref_mut :: "('s \<Rightarrow> 's) \<Rightarrow> ('s, 'ev, 'cmd) wrapped \<Rightarrow> ('s, 'ev, 'cmd) wrapped" where
  "deref_mut f self = self\<lparr>wrapper := f (wrapper self)\<rparr>"

lemma deref_mut_simps [simp]:
  "wrapper (deref_mut f w) = f (wrapper w)" "pending_events (deref_mut f w) = pending_events w"
  by (simp_all add: deref_mut_def)

definition wrapped_inner_call ::
    "('s, 'sw, 'iev, 'ev, 'cmd, 'he, 'r) wrapper \<Rightarrow> ('s, 'ev, 'cmd) wrapped \<Rightarrow> 'he conn_call \<Rightarrow>
     ('s, 'ev, 'cmd) wrapped \<times> 'r" where
  "wrapped_inner_call W self c =
     (let (s, r) = w_inner_call W (wrapper self) c in (self\<lparr>wrapper := s\<rparr>, r))"

definition wrapped_on_swarm_event ::
    "('s, 'sw, 'iev, 'ev, 'cmd, 'he, 'r) wrapper \<Rightarrow> ('s, 'ev, 'cmd) wrapped \<Rightarrow> 'sw \<Rightarrow>
     ('s, 'ev, 'cmd) wrapped run" where
  "wrapped_on_swarm_event W self event =
     run_bind (w_inner_on_swarm_event W (wrapper self) event) (\<lambda>s.
     run_bind (w_on_swarm_event W s event) (\<lambda>(s, evs).
       Done (self\<lparr>wrapper := s, pending_events := pending_events self @ evs\<rparr>)))"

text \<open>\<open>ev.map_out(|_| unreachable!())\<close>: a command that is not a \<open>GenerateEvent\<close> passes unchanged.\<close>

fun map_out :: "('iev, 'cmd) to_swarm \<Rightarrow> ('ev, 'cmd) to_swarm run" where
  "map_out (GenerateEvent ev) = Panic"
| "map_out (Dial p c) = Done (Dial p c)"
| "map_out (OtherCmd c) = Done (OtherCmd c)"

partial_function (option) wrapped_poll ::
    "('s, 'sw, 'iev, 'ev, 'cmd, 'he, 'r) wrapper \<Rightarrow> ('s, 'ev, 'cmd) wrapped \<Rightarrow>
     (('s, 'ev, 'cmd) wrapped \<times> ('ev, 'cmd) to_swarm poll) run option" where
  "wrapped_poll W self =
     (case pending_events self of
        ev # rest \<Rightarrow> Some (Done (self\<lparr>pending_events := rest\<rparr>, Ready ev))
      | [] \<Rightarrow>
        (case w_poll W (wrapper self) of
           Panic \<Rightarrow> Some Panic
         | Done (s, Ready evs) \<Rightarrow>
             wrapped_poll W (self\<lparr>wrapper := s, pending_events := pending_events self @ evs\<rparr>)
         | Done (s, Pending) \<Rightarrow>
           (case w_inner_poll W s of
              Panic \<Rightarrow> Some Panic
            | Done (s, Ready (GenerateEvent ev)) \<Rightarrow>
                (case w_on_inner_event W s ev of
                   Panic \<Rightarrow> Some Panic
                 | Done (s, evs) \<Rightarrow>
                     wrapped_poll W (self\<lparr>wrapper := s, pending_events := pending_events self @ evs\<rparr>))
            | Done (s, Ready ev) \<Rightarrow>
                (case map_out ev of
                   Panic \<Rightarrow> Some Panic
                 | Done ev \<Rightarrow>
                     wrapped_poll W (self\<lparr>wrapper := s, pending_events := pending_events self @ [ev]\<rparr>))
            | Done (s, Pending) \<Rightarrow> Some (Done (self\<lparr>wrapper := s\<rparr>, Pending)))))"

section \<open>Production of commands\<close>

text \<open>
  One round of the loop as seen from the wrapper's state: \<open>round W s evs s'\<close> says that
  polling the wrapper or its inner behaviour turns \<open>s\<close> into \<open>s'\<close> and yields the commands
  \<open>evs\<close>; \<open>idle W s s'\<close> that neither has anything to report. The wrapper itself comes first.
\<close>

inductive round ::
    "('s, 'sw, 'iev, 'ev, 'cmd, 'he, 'r) wrapper \<Rightarrow> 's \<Rightarrow> ('ev, 'cmd) to_swarm list \<Rightarrow> 's \<Rightarrow> bool"
  for W where
  own: "w_poll W s = Done (s', Ready evs) \<Longrightarrow> round W s evs s'"
| inner_event: "w_poll W s = Done (s1, Pending) \<Longrightarrow> w_inner_poll W s1 = Done (s2, Ready (GenerateEvent ev)) \<Longrightarrow>
    w_on_inner_event W s2 ev = Done (s', evs) \<Longrightarrow> round W s evs s'"
| inner_cmd: "w_poll W s = Done (s1, Pending) \<Longrightarrow> w_inner_poll W s1 = Done (s', Ready ev) \<Longrightarrow>
    map_out ev = Done ev' \<Longrightarrow> round W s [ev'] s'"

definition idle :: "('s, 'sw, 'iev, 'ev, 'cmd, 'he, 'r) wrapper \<Rightarrow> 's \<Rightarrow> 's \<Rightarrow> bool" where
  "idle W s s' \<longleftrightarrow> (\<exists>s1. w_poll W s = Done (s1, Pending) \<and> w_inner_poll W s1 = Done (s', Pending))"

inductive rounds ::
    "('s, 'sw, 'iev, 'ev, 'cmd, 'he, 'r) wrapper \<Rightarrow> 's \<Rightarrow> ('ev, 'cmd) to_swarm list \<Rightarrow> 's \<Rightarrow> bool"
  for W where
  none: "rounds W s [] s"
| more: "round W s evs s1 \<Longrightarrow> rounds W s1 evs' s' \<Longrightarrow> rounds W s (evs @ evs') s'"

declare wrapped_poll.simps [code]

lemma wrapped_poll_pending:
  "pending_events self = ev # rest \<Longrightarrow>
     wrapped_poll W self = Some (Done (self\<lparr>pending_events := rest\<rparr>, Ready ev))"
  by (simp add: wrapped_poll.simps)

lemma wrapped_nilE:
  assumes "pending_events self = []"
  obtains s where "self = \<lparr>wrapper = s, pending_events = []\<rparr>"
  using assms by (cases self) simp

lemma wrapped_poll_round:
  assumes "pending_events self = []" and "round W (wrapper self) evs s'"
  shows "wrapped_poll W self = wrapped_poll W \<lparr>wrapper = s', pending_events = evs\<rparr>"
proof -
  from assms(1) obtain s where self: "self = \<lparr>wrapper = s, pending_events = []\<rparr>"
    by (rule wrapped_nilE)
  from assms(2) have "round W s evs s'" by (simp add: self)
  then show ?thesis
  proof cases
    case own
    then show ?thesis unfolding self by (subst wrapped_poll.simps) simp
  next
    case inner_event
    then show ?thesis unfolding self by (subst wrapped_poll.simps) simp
  next
    case (inner_cmd s1 ev ev')
    then show ?thesis unfolding self by (cases ev; subst wrapped_poll.simps) simp_all
  qed
qed

lemma wrapped_poll_idle:
  assumes "pending_events self = []" and "idle W (wrapper self) s'"
  shows "wrapped_poll W self = Some (Done (\<lparr>wrapper = s', pending_events = []\<rparr>, Pending))"
proof -
  from assms(1) obtain s where self: "self = \<lparr>wrapper = s, pending_events = []\<rparr>"
    by (rule wrapped_nilE)
  from assms(2) show ?thesis unfolding self
    by (subst wrapped_poll.simps) (auto simp: idle_def)
qed

text \<open>With nothing pending, one pass of the loop panics, is idle, or is a round.\<close>

text \<open>A round that takes a command of the inner behaviour, and the next call, unless the handler panics.\<close>

lemma inner_command_cases:
  assumes "pending_events self = []" and p: "w_poll W (wrapper self) = Done (s1, Pending)" and q: "w_inner_poll W s1 = Done (s2, Ready ev)"
  obtains (panic) "wrapped_poll W self = Some Panic"
    | (round) evs s' where "round W (wrapper self) evs s'"
proof (cases ev)
  case (GenerateEvent e)
  note g = q [unfolded GenerateEvent]
  show thesis
  proof (cases "w_on_inner_event W s2 e")
    case Panic
    then show thesis using panic assms(1) p g by (simp add: wrapped_poll.simps [of W self])
  next
    case (Done c)
    then show thesis using round [OF round.inner_event [OF p g]] by (cases c) auto
  qed
qed (use round [OF round.inner_cmd [OF p q]] in auto)

lemma wrapped_poll_cases:
  assumes "pending_events self = []"
  obtains (panic) "wrapped_poll W self = Some Panic"
    | (idle) s' where "idle W (wrapper self) s'"
    | (round) evs s' where "round W (wrapper self) evs s'"
proof (cases "w_poll W (wrapper self)")
  case Panic
  then show thesis using panic assms by (simp add: wrapped_poll.simps [of W self])
next
  case (Done a)
  obtain s1 r where a: "a = (s1, r)" by fastforce
  show thesis
  proof (cases r)
    case (Ready evs)
    then show thesis using round [OF round.own] Done a by blast
  next
    case Pending
    note p = Done [unfolded a Pending]
    show thesis
    proof (cases "w_inner_poll W s1")
      case Panic
      then show thesis using panic assms p by (simp add: wrapped_poll.simps [of W self])
    next
      case (Done b)
      obtain s2 q where b: "b = (s2, q)" by fastforce
      show thesis
      proof (cases q)
        case Pending
        then show thesis using idle p Done b by (auto simp: idle_def)
      next
        case (Ready ev)
        show thesis using inner_command_cases [OF assms p Done [unfolded b Ready]] panic round by blast
      qed
    qed
  qed
qed

section \<open>The loop delivers every command once and in order\<close>

text \<open>What a call returns, stated over the rounds it performs.\<close>

definition poll_result ::
    "('s, 'sw, 'iev, 'ev, 'cmd, 'he, 'r) wrapper \<Rightarrow> ('s, 'ev, 'cmd) wrapped \<Rightarrow>
     ('s, 'ev, 'cmd) wrapped \<Rightarrow> ('ev, 'cmd) to_swarm poll \<Rightarrow> bool" where
  "poll_result W self self' r \<longleftrightarrow>
     (case r of
        Ready ev \<Rightarrow> \<exists>evs. rounds W (wrapper self) evs (wrapper self') \<and>
                          pending_events self @ evs = ev # pending_events self'
      | Pending \<Rightarrow> pending_events self = [] \<and> pending_events self' = [] \<and>
                   (\<exists>s. rounds W (wrapper self) [] s \<and> idle W s (wrapper self')))"

lemma poll_result_round:
  assumes "pending_events self = []" and "round W (wrapper self) evs s"
    and "poll_result W \<lparr>wrapper = s, pending_events = evs\<rparr> self' r"
  shows "poll_result W self self' r"
proof (cases r)
  case Pending
  with assms(3) have [simp]: "evs = []" and p: "pending_events self' = []"
    and e: "\<exists>t. rounds W s [] t \<and> idle W t (wrapper self')"
    by (auto simp: poll_result_def)
  from e obtain t where "rounds W s [] t" "idle W t (wrapper self')" by blast
  with rounds.more [OF assms(2), of "[]" t] p assms(1) Pending show ?thesis
    by (auto simp: poll_result_def)
next
  case (Ready ev)
  with assms(3) obtain evs' where "rounds W s evs' (wrapper self')" "evs @ evs' = ev # pending_events self'"
    by (auto simp: poll_result_def)
  with rounds.more [OF assms(2)] assms(1) Ready show ?thesis
    by (fastforce simp: poll_result_def)
qed

lemma wrapped_poll_result:
  assumes "wrapped_poll W self = Some res"
  shows "\<forall>self' r. res = Done (self', r) \<longrightarrow> poll_result W self self' r"
proof (rule wrapped_poll.raw_induct [where P = "\<lambda>W self res. \<forall>self' r. res = Done (self', r) \<longrightarrow> poll_result W self self' r", OF _ assms], goal_cases)
  case (1 f W self res)
  show ?case
  proof (cases "pending_events self")
    case (Cons ev rest)
    with 1(2) show ?thesis by (auto simp: poll_result_def intro: rounds.none)
  next
    case Nil
    have IH: "poll_result W self self' r"
      if "f W (self\<lparr>wrapper := s', pending_events := evs\<rparr>) = Some (Done (self', r))"
        and "round W (wrapper self) evs s'" for evs s' self' r
      using 1(1) [OF that(1)] poll_result_round [OF Nil that(2), of self' r]
      by (cases self) auto
    have idleI: "poll_result W self (self\<lparr>wrapper := s'\<rparr>) Pending" if "idle W (wrapper self) s'" for s'
      using that Nil by (auto simp: poll_result_def intro: rounds.none)
    have idleI': "poll_result W self (self\<lparr>wrapper := s'\<rparr>) Pending"
      if "w_poll W (wrapper self) = Done (s1, Pending)" "w_inner_poll W s1 = Done (s', Pending)" for s1 s'
      using that by (auto simp: idle_def intro: idleI)
    show ?thesis
      using 1(2) Nil
      by (auto split: run.splits poll.splits to_swarm.splits)
         (rule idleI', assumption, assumption
          | rule IH, assumption, rule round.own, assumption
          | rule IH, assumption, rule round.inner_event, assumption, assumption, assumption
          | rule IH, assumption, rule round.inner_cmd, assumption, assumption, simp)+
  qed
qed

lemma rounds_append:
  "rounds W s evs s1 \<Longrightarrow> rounds W s1 evs' s' \<Longrightarrow> rounds W s (evs @ evs') s'"
  by (induction rule: rounds.induct) (auto intro: rounds.more)

section \<open>The contract of a wrapper\<close>

text \<open>
  What an implementation of the trait promises: none of its methods panics in a state
  that satisfies its invariant, and all of them keep the invariant. \<open>sw_ok\<close> restricts the
  swarm events (a connection that is closed has been established before), \<open>ev_ok\<close> says
  which events the inner behaviour produces.
\<close>

locale behaviour_wrapper =
  fixes W :: "('s, 'sw, 'iev, 'ev, 'cmd, 'he, 'r) wrapper"
    and inv :: "'s \<Rightarrow> bool"
    and sw_ok :: "'s \<Rightarrow> 'sw \<Rightarrow> bool"
    and ev_ok :: "'s \<Rightarrow> 'iev \<Rightarrow> bool"
  assumes inner_call: "inv s \<Longrightarrow> inv (fst (w_inner_call W s c))"
    and inner_on_swarm_event: "inv s \<Longrightarrow> sw_ok s e \<Longrightarrow>
      \<exists>s'. w_inner_on_swarm_event W s e = Done s' \<and> inv s' \<and> sw_ok s' e"
    and on_swarm_event: "inv s \<Longrightarrow> sw_ok s e \<Longrightarrow>
      \<exists>s' evs. w_on_swarm_event W s e = Done (s', evs) \<and> inv s'"
    and inner_poll: "inv s \<Longrightarrow>
      \<exists>s' r. w_inner_poll W s = Done (s', r) \<and> inv s' \<and>
             (\<forall>ev. r = Ready (GenerateEvent ev) \<longrightarrow> ev_ok s' ev)"
    and on_inner_event: "inv s \<Longrightarrow> ev_ok s ev \<Longrightarrow>
      \<exists>s' evs. w_on_inner_event W s ev = Done (s', evs) \<and> inv s'"
    and own_poll: "inv s \<Longrightarrow> \<exists>s' r. w_poll W s = Done (s', r) \<and> inv s'"
begin

lemma wrapped_inner_call_inv: "inv (wrapper self) \<Longrightarrow> inv (wrapper (fst (wrapped_inner_call W self c)))"
  using inner_call [of "wrapper self" c] by (simp add: wrapped_inner_call_def case_prod_beta)

lemma wrapped_on_swarm_event_inv:
  assumes "inv (wrapper self)" and "sw_ok (wrapper self) e"
  shows "\<exists>self'. wrapped_on_swarm_event W self e = Done self' \<and> inv (wrapper self')"
proof -
  from inner_on_swarm_event [OF assms] obtain s where
    s: "w_inner_on_swarm_event W (wrapper self) e = Done s" "inv s" "sw_ok s e" by blast
  from on_swarm_event [OF s(2,3)] s(1) show ?thesis
    by (auto simp: wrapped_on_swarm_event_def)
qed

lemma round_inv:
  assumes "round W s evs s'" and "inv s"
  shows "inv s'"
  using assms
proof cases
  case own
  with own_poll [OF assms(2)] show ?thesis by auto
next
  case (inner_event s1 s2 ev)
  with own_poll [OF assms(2)] have "inv s1" by auto
  with inner_event inner_poll [of s1] have "inv s2" "ev_ok s2 ev" by auto
  with inner_event on_inner_event [of s2 ev] show ?thesis by auto
next
  case (inner_cmd s1 ev ev')
  with own_poll [OF assms(2)] have "inv s1" by auto
  with inner_cmd inner_poll [of s1] show ?thesis by auto
qed

lemma rounds_inv: "rounds W s evs s' \<Longrightarrow> inv s \<Longrightarrow> inv s'"
  by (induction rule: rounds.induct) (auto dest: round_inv)

lemma idle_inv: "idle W s s' \<Longrightarrow> inv s \<Longrightarrow> inv s'"
  unfolding idle_def using own_poll inner_poll by fastforce

lemma wrapped_poll_inv:
  assumes "wrapped_poll W self = Some (Done (self', r))" and "inv (wrapper self)"
  shows "inv (wrapper self')"
  using wrapped_poll_result [OF assms(1)] assms(2)
  by (cases r) (auto simp: poll_result_def dest: rounds_inv idle_inv)

lemma no_panic_step:
  assumes "inv (wrapper self)" and "pending_events self = []"
  obtains (idle) s' where "idle W (wrapper self) s'"
    | (round) evs s' where "round W (wrapper self) evs s'"
proof -
  from own_poll [OF assms(1)] obtain s1 q where q: "w_poll W (wrapper self) = Done (s1, q)" "inv s1" by blast
  from inner_poll [OF q(2)] obtain s2 r where
    r: "w_inner_poll W s1 = Done (s2, r)" "inv s2" "\<forall>ev. r = Ready (GenerateEvent ev) \<longrightarrow> ev_ok s2 ev" by blast
  show thesis
  proof (cases q)
    case (Ready evs)
    then show thesis using round [OF round.own] q by blast
  next
    case Pending
    note q = q(1) [unfolded Pending]
    show thesis
    proof (cases r)
      case Pending
      then show thesis using idle q r(1) by (auto simp: idle_def)
    next
      case (Ready ev)
      note r = r(1) [unfolded Ready] r(2,3)
      show thesis
      proof (cases ev)
        case (GenerateEvent e)
        with on_inner_event [OF r(2), of e] r(3) Ready obtain s' evs
          where "w_on_inner_event W s2 e = Done (s', evs)" by auto
        with round [OF round.inner_event [OF q]] r(1) GenerateEvent show thesis by blast
      qed (use round [OF round.inner_cmd [OF q r(1)]] in auto)
    qed
  qed
qed

text \<open>A measure that every round decreases makes the loop return, without a panic.\<close>

lemma wrapped_poll_returns:
  fixes measure :: "'s \<Rightarrow> nat"
  assumes dec: "\<And>s evs s'. inv s \<Longrightarrow> round W s evs s' \<Longrightarrow> measure s' < measure s"
    and "inv (wrapper self)"
  shows "\<exists>self' r. wrapped_poll W self = Some (Done (self', r)) \<and> inv (wrapper self')"
  using assms(2)
proof (induction "measure (wrapper self)" arbitrary: self rule: less_induct)
  case less
  have "\<exists>self' r. wrapped_poll W self = Some (Done (self', r))"
  proof (cases "pending_events self")
    case (Cons ev rest)
    then show ?thesis by (simp add: wrapped_poll_pending)
  next
    case Nil
    from less.prems Nil show ?thesis
    proof (cases rule: no_panic_step)
      case (idle s')
      with Nil show ?thesis by (simp add: wrapped_poll_idle)
    next
      case (round evs s')
      with less.hyps [of "\<lparr>wrapper = s', pending_events = evs\<rparr>"] dec [OF less.prems round]
        round_inv [OF round less.prems] wrapped_poll_round [OF Nil round]
      show ?thesis by auto
    qed
  qed
  then show ?case using wrapped_poll_inv less.prems by blast
qed

end

section \<open>Properties\<close>

text \<open>
  C19. Whatever the wrapped behaviour does, \<open>Wrapped::poll\<close> neither loses, repeats nor
  reorders commands: the commands that were pending, followed by the ones that the rounds
  of the call produce, are the command it returns followed by the ones left pending. It
  reports \<open>Pending\<close> only with an empty queue and when, after rounds without output, the
  wrapper and its inner behaviour were both pending.
\<close>

theorem wrapped_poll_delivers:
  assumes "wrapped_poll W self = Some (Done (self', r))"
  shows "case r of
      Ready ev \<Rightarrow> \<exists>evs. rounds W (wrapper self) evs (wrapper self') \<and>
                        pending_events self @ evs = ev # pending_events self'
    | Pending \<Rightarrow> pending_events self = [] \<and> pending_events self' = [] \<and>
                 (\<exists>s. rounds W (wrapper self) [] s \<and> idle W s (wrapper self'))"
  using wrapped_poll_result [OF assms] by (simp add: poll_result_def)

text \<open>A behaviour that counts down and emits the numbers, for the witnesses.\<close>

definition countdown :: "(nat, unit, nat, nat, unit, unit, unit) wrapper" where
  "countdown = \<lparr>w_inner_call = \<lambda>s _. (s, ()), w_inner_on_swarm_event = \<lambda>s _. Done s,
     w_inner_poll = \<lambda>s. Done (s - 1, if s = 0 then Pending else Ready (GenerateEvent s)),
     w_on_swarm_event = default_on_swarm_event,
     w_on_inner_event = \<lambda>s n. Done (s, [GenerateEvent n, GenerateEvent (n + 10)]),
     w_poll = default_poll\<rparr>"

lemma countdown_poll:
  "wrapped_poll countdown \<lparr>wrapper = 1, pending_events = []\<rparr> =
     Some (Done (\<lparr>wrapper = 0, pending_events = [GenerateEvent 11]\<rparr>, Ready (GenerateEvent 1)))"
  by (subst wrapped_poll.simps, simp add: countdown_def default_poll_def)
     (subst wrapped_poll.simps, simp)

theorem wrapped_poll_delivers_witness:
  "\<exists>evs. rounds countdown 1 evs 0 \<and> evs = [GenerateEvent 1, GenerateEvent 11]"
  using wrapped_poll_delivers [OF countdown_poll] by simp



end
