(* ===== verification/Transport_Util.thy ===== *)
theory Transport_Util
  imports Data_Chunk Wrapped
begin

text \<open>
  Small parts of the transport: protocol names and limits (transport/src/protocol.rs), the key
  file and the address filter (transport/src/util.rs), configuration from the environment
  (transport/src/lib.rs), boot nodes (transport/src/cli.rs), and the address cache
  (transport/src/behaviour/addr_cache.rs).
\<close>

section \<open>Protocol constants\<close>

datatype network = Tethys | Mainnet

definition ping_topic :: string where "ping_topic = ''/subsquid/worker_pings/1.0.0''"

definition worker_logs_topic :: string where "worker_logs_topic = ''/subsquid/worker_query_logs/1.1.0''"

definition logs_collected_topic :: string where "logs_collected_topic = ''/subsquid/logs_collected/1.0.0''"

definition id_protocol :: string where "id_protocol = ''/subsquid/1.0.0''"

definition query_protocol :: string where "query_protocol = ''/subsquid/query/1.0.0''"

definition gateway_logs_protocol :: string where "gateway_logs_protocol = ''/subsquid/gateway-logs/1.0.0''"

definition pong_protocol :: string where "pong_protocol = ''/subsquid/pong/1.0.0''"

definition max_query_size :: u64 where "max_query_size = 1024 * 1024"

definition max_query_result_size :: u64 where "max_query_result_size = 100 * 1024 * 1024"

definition max_gateway_log_size :: u64 where "max_gateway_log_size = 1024 * 1024"

definition max_pong_size :: u64 where "max_pong_size = 1024 * 1024"

definition max_pubsub_msg_size :: nat where "max_pubsub_msg_size = 65536"

definition keep_last_worker_logs :: u64 where "keep_last_worker_logs = 100"

definition dht_protocol :: "network \<Rightarrow> string" where
  "dht_protocol n = (case n of Tethys \<Rightarrow> ''/subsquid/dht/tethys/1.0.0'' | Mainnet \<Rightarrow> ''/subsquid/dht/mainnet/1.0.0'')"

lemma topics_distinct [simp]:
  "ping_topic \<noteq> worker_logs_topic" "ping_topic \<noteq> logs_collected_topic" "worker_logs_topic \<noteq> logs_collected_topic"
  "worker_logs_topic \<noteq> ping_topic" "logs_collected_topic \<noteq> ping_topic" "logs_collected_topic \<noteq> worker_logs_topic"
  by (simp_all add: ping_topic_def worker_logs_topic_def logs_collected_topic_def)

section \<open>Configuration from the environment\<close>

text \<open>
  \<open>parse_var\<close>: the value of a variable if it is set and parses, the default otherwise. The
  environment is a function from names to values.
\<close>

definition parse_var :: "(string \<Rightarrow> string option) \<Rightarrow> (string \<Rightarrow> 'a option) \<Rightarrow> string \<Rightarrow> 'a \<Rightarrow> 'a" where
  "parse_var env parse var dflt =
     (case Option.bind (env var) parse of Some v \<Rightarrow> v | None \<Rightarrow> dflt)"

text \<open>\<open>u16::from_str\<close>, after \<open>parse_u32\<close>.\<close>

definition parse_u16 :: "string \<Rightarrow> u16 option" where
  "parse_u16 s = (case parse_u32 s of Some n \<Rightarrow> if unat n < 2 ^ 16 then Some (ucast n) else None | None \<Rightarrow> None)"

record quic_config =
  mtu_discovery_max :: u16
  keep_alive_interval_ms :: u32
  max_idle_timeout_ms :: u32

definition quic_config_from_env :: "(string \<Rightarrow> string option) \<Rightarrow> quic_config" where
  "quic_config_from_env env =
     \<lparr>mtu_discovery_max = parse_var env parse_u16 ''MTU_DISCOVERY_MAX'' 1452,
      keep_alive_interval_ms = parse_var env parse_u32 ''KEEP_ALIVE_INTERVAL_MS'' 5000,
      max_idle_timeout_ms = parse_var env parse_u32 ''MAX_IDLE_TIMEOUT_MS'' 60000\<rparr>"

section \<open>The key file\<close>

text \<open>
  The file system: what is at a path, if anything. Reading and writing may fail (\<open>can_read\<close>,
  \<open>can_write\<close>); the Ed25519 operations and the source of fresh keys are parameters.
\<close>

datatype node = File bytes | Directory

type_synonym path = string

datatype key_error = ReadFailed | WriteFailed | DecodingFailed | NotAFile

record ed25519 =
  ed_to_bytes :: "keypair \<Rightarrow> bytes"
  ed_try_from_bytes :: "bytes \<Rightarrow> keypair option"

definition get_keypair ::
    "ed25519 \<Rightarrow> (path \<Rightarrow> bool) \<Rightarrow> (path \<Rightarrow> bool) \<Rightarrow> keypair \<Rightarrow> (path, node) fmap \<Rightarrow> path option \<Rightarrow>
     (path, node) fmap \<times> (key_error + keypair)" where
  "get_keypair ed can_read can_write fresh fs p =
     (case p of
        None \<Rightarrow> (fs, Inr fresh)
      | Some p \<Rightarrow>
          (case fmlookup fs p of
             Some (File content) \<Rightarrow>
               (fs, if \<not> can_read p then Inl ReadFailed
                    else case ed_try_from_bytes ed content of Some k \<Rightarrow> Inr k | None \<Rightarrow> Inl DecodingFailed)
           | Some Directory \<Rightarrow> (fs, Inl NotAFile)
           | None \<Rightarrow>
               if \<not> can_write p then (fs, Inl WriteFailed)
               else (fmupd p (File (ed_to_bytes ed fresh)) fs, Inr fresh)))"

section \<open>The address filter\<close>

text \<open>The address predicates of the standard library, on the number an IPv4 address denotes.\<close>

definition octet0 :: "u32 \<Rightarrow> nat" where "octet0 a = unat a div 2 ^ 24"

definition octet1 :: "u32 \<Rightarrow> nat" where "octet1 a = unat a div 2 ^ 16 mod 256"

definition ip4_is_loopback :: "u32 \<Rightarrow> bool" where "ip4_is_loopback a \<longleftrightarrow> octet0 a = 127"

definition ip4_is_link_local :: "u32 \<Rightarrow> bool" where
  "ip4_is_link_local a \<longleftrightarrow> octet0 a = 169 \<and> octet1 a = 254"

definition ip4_is_private :: "u32 \<Rightarrow> bool" where
  "ip4_is_private a \<longleftrightarrow> octet0 a = 10 \<or> octet0 a = 172 \<and> 16 \<le> octet1 a \<and> octet1 a \<le> 31 \<or>
     octet0 a = 192 \<and> octet1 a = 168"

definition ip6_is_loopback :: "u128 \<Rightarrow> bool" where "ip6_is_loopback a \<longleftrightarrow> a = 1"

definition addr_is_reachable :: "(string \<Rightarrow> string option) \<Rightarrow> multiaddr \<Rightarrow> bool" where
  "addr_is_reachable env addr =
     (case addr of
        Ip4 a # _ \<Rightarrow> \<not> (ip4_is_loopback a \<or> ip4_is_link_local a) \<and>
                     (\<not> ip4_is_private a \<or> env ''PRIVATE_NETWORK'' \<noteq> None)
      | Ip6 a # _ \<Rightarrow> \<not> ip6_is_loopback a
      | Dns _ # _ \<Rightarrow> True
      | Dns4 _ # _ \<Rightarrow> True
      | Dns6 _ # _ \<Rightarrow> True
      | Dnsaddr _ # _ \<Rightarrow> True
      | _ \<Rightarrow> False)"

section \<open>Boot nodes\<close>

record boot_node =
  bn_peer_id :: peer_id
  bn_address :: multiaddr

text \<open>\<open>str::split_whitespace\<close>, for strings whose white space is ASCII.\<close>

definition is_ws :: "char \<Rightarrow> bool" where
  "is_ws c \<longleftrightarrow> c = CHR '' '' \<or> (9 \<le> (of_char c :: nat) \<and> (of_char c :: nat) \<le> 13)"

fun split_ws :: "string \<Rightarrow> string \<Rightarrow> string list" where
  "split_ws acc [] = (if acc = [] then [] else [acc])"
| "split_ws acc (c # cs) =
     (if is_ws c then (if acc = [] then split_ws [] cs else acc # split_ws [] cs)
      else split_ws (acc @ [c]) cs)"

definition boot_node_from_str ::
    "crypto \<Rightarrow> (string \<Rightarrow> multiaddr option) \<Rightarrow> string \<Rightarrow> string + boot_node" where
  "boot_node_from_str cr parse_addr s =
     (case split_ws [] s of
        [] \<Rightarrow> Inl ''Boot node peer ID missing''
      | p # rest \<Rightarrow>
          (case peer_from_str cr p of
             None \<Rightarrow> Inl ''Invalid peer ID''
           | Some peer_id \<Rightarrow>
               (case rest of
                  [] \<Rightarrow> Inl ''Boot node address missing''
                | a # _ \<Rightarrow>
                    (case parse_addr a of
                       None \<Rightarrow> Inl ''Invalid address''
                     | Some address \<Rightarrow> Inr \<lparr>bn_peer_id = peer_id, bn_address = address\<rparr>))))"

section \<open>The address cache\<close>

record 'lru address_cache =
  ac_cache :: 'lru

definition address_cache_new :: "'lru lru_cache \<Rightarrow> nat \<Rightarrow> 'lru address_cache" where
  "address_cache_new lru n = \<lparr>ac_cache = lru_new lru n\<rparr>"

definition address_cache_put :: "'lru lru_cache \<Rightarrow> 'lru address_cache \<Rightarrow> peer_id \<Rightarrow> multiaddr list \<Rightarrow> 'lru address_cache" where
  "address_cache_put lru self p addrs =
     self\<lparr>ac_cache := lru_get_or_insert_mut lru (ac_cache self) p {} (\<lambda>s. s \<union> set addrs)\<rparr>"

text \<open>The connection callbacks: what they return is the list of addresses to dial, if any.\<close>

definition address_cache_conn ::
    "'lru lru_cache \<Rightarrow> 'lru address_cache \<Rightarrow> 'he conn_call \<Rightarrow> 'lru address_cache \<times> multiaddr set option" where
  "address_cache_conn lru self c =
     (case c of
        PendingOutbound _ None _ _ \<Rightarrow> (self, Some {})
      | PendingOutbound _ (Some p) _ _ \<Rightarrow>
          let (l, a) = lru_get lru (ac_cache self) p in
          (self\<lparr>ac_cache := l\<rparr>, Some (case a of Some addrs \<Rightarrow> addrs | None \<Rightarrow> {}))
      | EstablishedOutbound _ p addr _ \<Rightarrow> (address_cache_put lru self p [addr], None)
      | _ \<Rightarrow> (self, None))"

definition address_cache_on_swarm_event :: "'lru lru_cache \<Rightarrow> 'lru address_cache \<Rightarrow> swarm_event \<Rightarrow> 'lru address_cache" where
  "address_cache_on_swarm_event lru self event =
     (case event of NewExternalAddrOfPeer p addr \<Rightarrow> address_cache_put lru self p [addr] | _ \<Rightarrow> self)"

definition address_cache_poll :: "'lru address_cache \<Rightarrow> 'lru address_cache \<times> (unit, 'cmd) to_swarm poll" where
  "address_cache_poll self = (self, Pending)"

text \<open>
  What the cache relies on: the entry just written is there, and looking it up does not
  change what is stored. (The capacity of the cache is not zero.)
\<close>

definition lru_laws :: "'lru lru_cache \<Rightarrow> bool" where
  "lru_laws lru \<longleftrightarrow>
     (\<forall>l p d f. snd (lru_get lru (lru_get_or_insert_mut lru l p d f) p) =
        Some (f (case snd (lru_get lru l p) of Some v \<Rightarrow> v | None \<Rightarrow> d))) \<and>
     (\<forall>l p q. snd (lru_get lru (fst (lru_get lru l p)) q) = snd (lru_get lru l q))"

text \<open>The addresses stored for a peer.\<close>

definition cached :: "'lru lru_cache \<Rightarrow> 'lru address_cache \<Rightarrow> peer_id \<Rightarrow> multiaddr set" where
  "cached lru c p = (case snd (lru_get lru (ac_cache c) p) of Some a \<Rightarrow> a | None \<Rightarrow> {})"

lemma cached_put:
  "lru_laws lru \<Longrightarrow> cached lru (address_cache_put lru c p addrs) p = cached lru c p \<union> set addrs"
  by (simp add: cached_def address_cache_put_def lru_laws_def)

lemma address_cache_dial:
  "snd (address_cache_conn lru c (PendingOutbound i (Some p) as e)) = Some (cached lru c p)"
  by (simp add: address_cache_conn_def cached_def case_prod_beta)

section \<open>Properties\<close>

lemma octets_split:
  obtains low where "unat a = octet0 a * 16777216 + octet1 a * 65536 + low" "octet1 a < 256" "low < 65536"
proof -
  let ?d = "unat a div 65536"
  have o: "octet0 a = ?d div 256" "octet1 a = ?d mod 256"
    by (simp_all add: octet0_def octet1_def div_mult2_eq [symmetric])
  have "?d = ?d div 256 * 256 + ?d mod 256" "unat a = ?d * 65536 + unat a mod 65536" by (simp_all only: div_mult_mod_eq)
  then have "unat a = octet0 a * 16777216 + octet1 a * 65536 + unat a mod 65536" unfolding o by linarith
  then show thesis by (rule that) (simp_all add: o)
qed

lemma octets_range:
  assumes "m \<le> m'" and "m' < 256"
  shows "octet0 a = n \<and> m \<le> octet1 a \<and> octet1 a \<le> m' \<longleftrightarrow>
    unat a \<in> {n * 16777216 + m * 65536 .. n * 16777216 + m' * 65536 + 65535}"
proof (rule octets_split [of a])
  fix low assume a: "unat a = octet0 a * 16777216 + octet1 a * 65536 + low" "octet1 a < 256" "low < 65536"
  show ?thesis
  proof
    assume r: "unat a \<in> {n * 16777216 + m * 65536 .. n * 16777216 + m' * 65536 + 65535}"
    then have "n * 16777216 + m * 65536 \<le> unat a" "unat a \<le> n * 16777216 + m' * 65536 + 65535" by auto
    with a assms have "octet0 a = n" by linarith
    with r a show "octet0 a = n \<and> m \<le> octet1 a \<and> octet1 a \<le> m'" by auto
  qed (use a in auto)
qed

lemma octet0_range: "octet0 a = n \<longleftrightarrow> unat a \<in> {n * 16777216 .. n * 16777216 + 16777215}"
  using octets_range [of 0 255 a n] by (rule_tac octets_split [of a]) auto

lemma ip4_ranges:
  "ip4_is_loopback a \<longleftrightarrow> unat a \<in> {2130706432..2147483647}"
  "ip4_is_link_local a \<longleftrightarrow> unat a \<in> {2851995648..2852061183}"
  "ip4_is_private a \<longleftrightarrow> unat a \<in> {167772160..184549375} \<union> {2886729728..2887778303} \<union> {3232235520..3232301055}"
proof -
  have eq: "octet1 a = m \<longleftrightarrow> m \<le> octet1 a \<and> octet1 a \<le> m" for m by auto
  show "ip4_is_loopback a \<longleftrightarrow> unat a \<in> {2130706432..2147483647}"
    unfolding ip4_is_loopback_def octet0_range by simp
  show "ip4_is_link_local a \<longleftrightarrow> unat a \<in> {2851995648..2852061183}"
    using octets_range [of 254 254 a 169] by (simp add: ip4_is_link_local_def eq)
  show "ip4_is_private a \<longleftrightarrow> unat a \<in> {167772160..184549375} \<union> {2886729728..2887778303} \<union> {3232235520..3232301055}"
    using octets_range [of 16 31 a 172] octets_range [of 168 168 a 192] octet0_range [of a 10]
    by (simp add: ip4_is_private_def eq)
qed

text \<open>
  The address filter on numbers: an IPv4 address is taken to be reachable unless it is
  in 127.0.0.0/8 or 169.254.0.0/16, or, outside of a private network, in 10.0.0.0/8, 172.16.0.0/12 or
  192.168.0.0/16; an IPv6 address unless it is \<open>::1\<close>; DNS names always are; and
  addresses that start with anything else, and the empty address, never.
\<close>

lemma addr_is_reachable_ranges:
  "(addr_is_reachable env (Ip4 a # rest) \<longleftrightarrow>
      unat a \<notin> {2130706432..2147483647} \<and> unat a \<notin> {2851995648..2852061183} \<and>
      (env ''PRIVATE_NETWORK'' = None \<longrightarrow> unat a \<notin> {167772160..184549375} \<union> {2886729728..2887778303} \<union> {3232235520..3232301055})) \<and>
   (addr_is_reachable env (Ip6 b # rest) \<longleftrightarrow> b \<noteq> 1) \<and>
   (\<forall>d. addr_is_reachable env (Dns d # rest) \<and> addr_is_reachable env (Dns4 d # rest) \<and>
        addr_is_reachable env (Dns6 d # rest) \<and> addr_is_reachable env (Dnsaddr d # rest)) \<and>
   (\<forall>p x. \<not> addr_is_reachable env (P2p p # rest) \<and> \<not> addr_is_reachable env (P2pCircuit # rest) \<and>
        \<not> addr_is_reachable env (OtherProtocol x # rest)) \<and> \<not> addr_is_reachable env []"
proof -
  have "addr_is_reachable env (Ip4 a # rest) \<longleftrightarrow>
      unat a \<notin> {2130706432..2147483647} \<and> unat a \<notin> {2851995648..2852061183} \<and>
      (env ''PRIVATE_NETWORK'' = None \<longrightarrow> unat a \<notin> {167772160..184549375} \<union> {2886729728..2887778303} \<union> {3232235520..3232301055})"
    by (simp only: addr_is_reachable_def list.case protocol.case ip4_ranges) blast
  then show ?thesis by (simp add: addr_is_reachable_def ip6_is_loopback_def)
qed

text \<open>
  The key is stable: once \<open>get_keypair\<close> has returned a key for a path, a later call with
  this path returns the same key, whatever fresh key it could generate, and leaves the file alone.
\<close>

lemma get_keypair_stable:
  assumes "\<forall>k. ed_try_from_bytes ed (ed_to_bytes ed k) = Some k"
    and "get_keypair ed can_read can_write fresh fs (Some p) = (fs', Inr k)" and "can_read p"
  shows "get_keypair ed can_read can_write fresh' fs' (Some p) = (fs', Inr k)"
  using assms by (auto simp: get_keypair_def split: option.splits node.splits if_splits)

end
