(* ===== verification/Signatures.thy ===== *)
theory Signatures
  imports Messages
begin

text \<open>
  Message signatures (messages/src/signatures.rs). The trait \<open>SignedMessage\<close> is a record of
  its methods (taking the signature out of a message, putting one in, and the encoding);
  signing and verifying are written once over this record, as the trait's default methods
  are. The locale \<open>signed_message\<close> states the laws an implementation has to satisfy and
  proves what follows from them; it is interpreted for the three signed message types.
\<close>

section \<open>The trait and its implementations\<close>

record 'm signed =
  detach_signature :: "'m \<Rightarrow> bytes \<times> 'm"
  attach_signature :: "'m \<Rightarrow> bytes \<Rightarrow> 'm"
  encode_to_vec :: "'m \<Rightarrow> bytes"

definition msg_hash :: "crypto \<Rightarrow> ('m \<Rightarrow> bytes) \<Rightarrow> 'm \<Rightarrow> bytes" where
  "msg_hash cr enc msg = sha3_256 cr (enc msg)"

text \<open>The free function \<open>verify_signature\<close>: the slice \<open>[2..]\<close> panics on a shorter peer ID.\<close>

definition verify_signature :: "crypto \<Rightarrow> 'm signed \<Rightarrow> peer_id \<Rightarrow> 'm \<Rightarrow> (bool \<times> 'm) run" where
  "verify_signature cr T peer msg =
     (let (sig, msg) = detach_signature T msg;
          encoded = encode_to_vec T msg in
      if length (to_bytes peer) < 2 then Panic
      else let result = (case pubkey_decode cr (drop 2 (to_bytes peer)) of
                           Some pubkey \<Rightarrow> pubkey_verify cr pubkey encoded sig
                         | None \<Rightarrow> False)
           in Done (result, attach_signature T msg sig))"

definition sign :: "crypto \<Rightarrow> 'm signed \<Rightarrow> keypair \<Rightarrow> 'm \<Rightarrow> 'm run" where
  "sign cr T kp msg =
     (let (_, msg) = detach_signature T msg; encoded = encode_to_vec T msg in
      run_bind (expect_run (keypair_sign cr kp encoded)) (\<lambda>sig.
        Done (attach_signature T msg sig)))"

definition ping_signed :: "protobuf \<Rightarrow> ping signed" where
  "ping_signed pb = \<lparr>detach_signature = \<lambda>m. (ping_signature m, m\<lparr>ping_signature := []\<rparr>),
     attach_signature = \<lambda>m s. m\<lparr>ping_signature := s\<rparr>, encode_to_vec = enc_ping pb\<rparr>"

definition query_signed :: "protobuf \<Rightarrow> query signed" where
  "query_signed pb = \<lparr>detach_signature = \<lambda>m. (q_signature m, m\<lparr>q_signature := []\<rparr>),
     attach_signature = \<lambda>m s. m\<lparr>q_signature := s\<rparr>, encode_to_vec = enc_query pb\<rparr>"

definition query_executed_signed :: "protobuf \<Rightarrow> query_executed signed" where
  "query_executed_signed pb =
    \<lparr>detach_signature = \<lambda>m. (qe_signature m, m\<lparr>qe_signature := []\<rparr>),
     attach_signature = \<lambda>m s. m\<lparr>qe_signature := s\<rparr>, encode_to_vec = enc_query_executed pb\<rparr>"

text \<open>
  \<open>QueryExecuted\<close> overrides \<open>verify_signature\<close>: the worker's signature over the log and
  the client's signature over the query inside it must both be valid.
\<close>

definition query_executed_verify_signature ::
    "crypto \<Rightarrow> protobuf \<Rightarrow> peer_id \<Rightarrow> query_executed \<Rightarrow> (bool \<times> query_executed) run" where
  "query_executed_verify_signature cr pb peer msg =
     run_bind (verify_signature cr (query_executed_signed pb) peer msg) (\<lambda>(ok, msg).
       if \<not> ok then Done (False, msg)
       else case peer_from_str cr (qe_client_id msg) of
              None \<Rightarrow> Done (False, msg)
            | Some client_id \<Rightarrow>
                (case qe_query msg of
                   None \<Rightarrow> Done (False, msg)
                 | Some q \<Rightarrow>
                     run_bind (verify_signature cr (query_signed pb) client_id q) (\<lambda>(ok, q).
                       Done (ok, msg\<lparr>qe_query := Some q\<rparr>))))"

section \<open>The contract of the trait\<close>

locale signed_message =
  fixes T :: "'m signed"
  assumes attach_detach:
      "attach_signature T (snd (detach_signature T m)) (fst (detach_signature T m)) = m"
    and detach_attach:
      "detach_signature T (attach_signature T m s) = (s, snd (detach_signature T m))"
    and detach_detach:
      "snd (detach_signature T (snd (detach_signature T m))) = snd (detach_signature T m)"
begin

text \<open>What is signed: the message without its signature.\<close>

definition payload :: "'m \<Rightarrow> bytes" where
  "payload m = encode_to_vec T (snd (detach_signature T m))"

lemma verify_signature_eq:
  "verify_signature cr T peer m =
     (if length (to_bytes peer) < 2 then Panic
      else Done (case pubkey_decode cr (drop 2 (to_bytes peer)) of
                   Some pk \<Rightarrow> pubkey_verify cr pk (payload m) (fst (detach_signature T m))
                 | None \<Rightarrow> False, m))"
  by (simp add: verify_signature_def payload_def case_prod_beta Let_def attach_detach
      split: option.split)

lemma verify_keeps_message: "verify_signature cr T peer m = Done (ok, m') \<Longrightarrow> m' = m"
  by (simp add: verify_signature_eq split: if_splits)

lemma sign_eq:
  "sign cr T kp m =
     run_bind (expect_run (keypair_sign cr kp (payload m))) (\<lambda>s.
       Done (attach_signature T (snd (detach_signature T m)) s))"
  by (simp add: sign_def payload_def case_prod_beta Let_def)

lemma payload_sign: "sign cr T kp m = Done m' \<Longrightarrow> payload m' = payload m"
  by (auto simp: sign_eq payload_def detach_attach detach_detach)

lemma sign_idempotent: "sign cr T kp m = Done m' \<Longrightarrow> sign cr T kp m' = Done m'"
  by (auto simp: sign_eq payload_def detach_attach detach_detach)

lemma verify_sign:
  assumes "key_of_peer cr kp peer"
  shows "\<exists>m'. sign cr T kp m = Done m' \<and> payload m' = payload m \<and>
              verify_signature cr T peer m' = Done (True, m')"
proof -
  from assms obtain pk where pk: "pubkey_decode cr (drop 2 (to_bytes peer)) = Some pk"
    and v: "\<And>b. \<exists>s. keypair_sign cr kp b = Some s \<and> pubkey_verify cr pk b s"
    and len: "\<not> length (to_bytes peer) < 2"
    by (auto simp: key_of_peer_def)
  from v obtain s where s: "keypair_sign cr kp (payload m) = Some s" "pubkey_verify cr pk (payload m) s"
    by blast
  let ?m = "attach_signature T (snd (detach_signature T m)) s"
  have "sign cr T kp m = Done ?m" using s(1) by (simp add: sign_eq)
  with s(2) pk len payload_sign [OF this] show ?thesis
    by (simp add: verify_signature_eq detach_attach)
qed

end

interpretation ping_sig: signed_message "ping_signed pb" for pb
  by unfold_locales (simp_all add: ping_signed_def)

interpretation query_sig: signed_message "query_signed pb" for pb
  by unfold_locales (simp_all add: query_signed_def)

interpretation query_executed_sig: signed_message "query_executed_signed pb" for pb
  by unfold_locales (simp_all add: query_executed_signed_def)

lemmas signed_defs = ping_signed_def query_signed_def query_executed_signed_def

text \<open>A concrete instance of the cryptographic interface, for the witnesses: every peer's
  key is the tail of its identifier and a signature repeats key and message.\<close>

definition demo_crypto :: crypto where
  "demo_crypto = \<lparr>sha3_256 = \<lambda>b. b, keypair_sign = \<lambda>k m. Some (key_bytes k @ m),
     keypair_public = \<lambda>k. PublicKey (key_bytes k), pubkey_decode = \<lambda>b. Some (PublicKey b),
     pubkey_verify = \<lambda>k m s. s = pubkey_bytes k @ m, pubkey_peer_id = \<lambda>k. PeerId (0 # 1 # pubkey_bytes k),
     peer_from_str = \<lambda>s. Some (PeerId (map (of_nat \<circ> of_char) s)),
     peer_to_base58 = \<lambda>p. map (char_of \<circ> unat) (to_bytes p), peer_from_bytes = \<lambda>b. Some (PeerId b)\<rparr>"

lemma demo_key_of_peer: "key_of_peer demo_crypto (Keypair k) (PeerId (a # b # k))"
  by (simp add: key_of_peer_def demo_crypto_def)

section \<open>Properties\<close>

text \<open>
  A ping that a worker signs with the key of its peer ID is accepted by
  \<open>verify_signature\<close> for that peer; signing changes the signature only, and signing the
  result again changes nothing.
\<close>

theorem ping_sign_verify:
  assumes "key_of_peer cr kp peer"
  shows "\<exists>p'. sign cr (ping_signed pb) kp p = Done p' \<and>
              p'\<lparr>ping_signature := []\<rparr> = p\<lparr>ping_signature := []\<rparr> \<and>
              verify_signature cr (ping_signed pb) peer p' = Done (True, p') \<and>
              sign cr (ping_signed pb) kp p' = Done p'"
proof -
  from ping_sig.verify_sign [OF assms, of pb p] obtain p' where
    p': "sign cr (ping_signed pb) kp p = Done p'" "verify_signature cr (ping_signed pb) peer p' = Done (True, p')"
    by blast
  from p'(1) have "p'\<lparr>ping_signature := []\<rparr> = p\<lparr>ping_signature := []\<rparr>"
    by (auto simp: sign_def signed_defs)
  with p' ping_sig.sign_idempotent [OF p'(1)] show ?thesis by blast
qed

definition demo_protobuf :: protobuf where
  "demo_protobuf = \<lparr>enc_ping = \<lambda>p. map (of_nat \<circ> of_char) (case ping_worker_id p of Some w \<Rightarrow> w | None \<Rightarrow> []),
     dec_ping = \<lambda>_. None,
     enc_query = \<lambda>q. map (of_nat \<circ> of_char) (case q_query_id q of Some w \<Rightarrow> w | None \<Rightarrow> []),
     enc_query_executed = \<lambda>e. map (of_nat \<circ> of_char) (qe_client_id e @ qe_worker_id e),
     len_query_executed = \<lambda>e. length (qe_client_id e @ qe_worker_id e),
     enc_worker_logs_msg = \<lambda>_. [], dec_worker_logs_msg = \<lambda>_. None,
     enc_logs_collected = \<lambda>_. [], dec_logs_collected = \<lambda>_. None\<rparr>"

abbreviation demo_ping :: ping where
  "demo_ping \<equiv> \<lparr>ping_worker_id = Some ''w'', ping_version = None, ping_stored_bytes = None,
     ping_stored_ranges = [], ping_signature = []\<rparr>"

abbreviation demo_query :: query where
  "demo_query \<equiv> \<lparr>q_query_id = Some ''id'', q_dataset = None, q_query = None, q_profiling = None,
     q_client_state_json = None, q_signature = [7, 105, 100]\<rparr>"

abbreviation demo_log :: query_executed where
  "demo_log \<equiv> \<lparr>qe_client_id = [CHR 0x00, CHR 0x01, CHR 0x07], qe_worker_id = ''w'',
     qe_query = Some demo_query, qe_query_hash = [], qe_exec_time_ms = None, qe_result = None,
     qe_seq_no = None, qe_timestamp_ms = None, qe_signature = []\<rparr>"

theorem ping_sign_verify_witness:
  "\<exists>p'. sign demo_crypto (ping_signed demo_protobuf) (Keypair [7]) demo_ping = Done p' \<and>
        p'\<lparr>ping_signature := []\<rparr> = demo_ping \<and>
        verify_signature demo_crypto (ping_signed demo_protobuf) (PeerId [0, 1, 7]) p' = Done (True, p')"
  using ping_sign_verify [OF demo_key_of_peer [of "[7]" 0 1], of demo_protobuf demo_ping] by auto

text \<open>
  The signature check of a query log never changes the log, and it succeeds exactly if
  the worker's signature over the log is valid for the sending peer, the client ID parses,
  and the query in the log is present and validly signed by that client.
\<close>

lemma query_executed_verify_iff:
  assumes "query_executed_verify_signature cr pb peer m = Done (ok, m')"
  shows "m' = m \<and>
    (ok \<longleftrightarrow> verify_signature cr (query_executed_signed pb) peer m = Done (True, m) \<and>
      (\<exists>client q. peer_from_str cr (qe_client_id m) = Some client \<and> qe_query m = Some q \<and>
                  verify_signature cr (query_signed pb) client q = Done (True, q)))"
proof -
  from assms obtain w where w: "verify_signature cr (query_executed_signed pb) peer m = Done (w, m)"
    by (auto simp: query_executed_verify_signature_def dest: query_executed_sig.verify_keeps_message)
  show ?thesis
    using assms
    by (auto simp: query_executed_verify_signature_def w split: if_splits option.splits
        dest: query_sig.verify_keeps_message)
qed

end
