(* ===== verification/Contract_Client.thy ===== *)
theory Contract_Client
  imports Transport_Util Signatures "HOL-Library.Sublist"
begin

text \<open>
  The client of the on-chain contracts (the crate contract-client: cli.rs, error.rs,
  transport.rs, contracts.rs and client.rs): the addresses of the contracts, the choice of
  the RPC transport, and the queries that the network layer makes, with the paging over the
  registered gateways, the grouping of gateways by operator, and the conversions that panic.

  The contracts and the RPC nodes are not part of the program. What a node answers is given
  by the parameter record \<open>chain\<close>, one field for each contract method that the client calls
  (the bindings are generated from the ABI files); a failing call carries the text of its error.
\<close>

section \<open>Errors and results\<close>

datatype client_error =
    InvalidRpcUrl string
  | WsClient string
  | InvalidPeerId
  | Contract string
  | Provider string
  | InvalidProtocol
  | TxReceiptMissing
  | BlockNotFound

text \<open>The conversions of \<open>ContractError\<close>, \<open>MulticallError\<close> and \<open>AbiError\<close>, which keep the text only.\<close>

definition client_error_from_contract :: "string \<Rightarrow> client_error" where
  "client_error_from_contract text = Contract text"

definition client_error_from_provider :: "string \<Rightarrow> client_error" where
  "client_error_from_provider text = Provider text"

type_synonym 'a client_result = "(client_error + 'a) run"

text \<open>The question mark operator on a failing call with a conversion of its error.\<close>

definition try_call :: "('e \<Rightarrow> client_error) \<Rightarrow> 'e + 'a \<Rightarrow> ('a \<Rightarrow> 'b client_result) \<Rightarrow> 'b client_result" where
  "try_call conv r k = (case r of Inl e \<Rightarrow> Done (Inl (conv e)) | Inr x \<Rightarrow> k x)"

definition try_run :: "'a client_result \<Rightarrow> ('a \<Rightarrow> 'b client_result) \<Rightarrow> 'b client_result" where
  "try_run m k = run_bind m (\<lambda>r. case r of Inl e \<Rightarrow> Done (Inl e) | Inr x \<Rightarrow> k x)"

abbreviation call :: "string + 'a \<Rightarrow> ('a \<Rightarrow> 'b client_result) \<Rightarrow> 'b client_result" where
  "call \<equiv> try_call client_error_from_contract"

lemma try_call_simps [simp, run_simps]:
  "try_call conv (Inl e) k = Done (Inl (conv e))" "try_call conv (Inr x) k = k x"
  by (simp_all add: try_call_def)

lemma try_run_simps [simp, run_simps]:
  "try_run Panic k = Panic" "try_run (Done (Inl e)) k = Done (Inl e)" "try_run (Done (Inr x)) k = k x"
  by (simp_all add: try_run_def)

section \<open>Addresses\<close>

type_synonym address = "160 word"

record contract_addrs =
  gateway_registry_contract_addr :: "address option"
  worker_registration_contract_addr :: "address option"
  network_controller_contract_addr :: "address option"
  allocations_viewer_contract_addr :: "address option"
  multicall_contract_addr :: "address option"

record rpc_args =
  rpc_url :: string
  l1_rpc_url :: "string option"
  ra_contract_addrs :: contract_addrs
  ra_network :: network

definition gateway_registry_default_addr :: "network \<Rightarrow> address" where
  "gateway_registry_default_addr n = (case n of
     Tethys \<Rightarrow> 0xAB46F688AbA4FcD1920F21E9BD16B229316D8b0a
   | Mainnet \<Rightarrow> 0x8A90A1cE5fa8Cf71De9e6f76B7d3c0B72feB8c4b)"

definition worker_registration_default_addr :: "network \<Rightarrow> address" where
  "worker_registration_default_addr n = (case n of
     Tethys \<Rightarrow> 0xCD8e983F8c4202B0085825Cf21833927D1e2b6Dc
   | Mainnet \<Rightarrow> 0x36E2B147Db67E76aB67a4d07C293670EbeFcAE4E)"

definition network_controller_default_addr :: "network \<Rightarrow> address" where
  "network_controller_default_addr n = (case n of
     Tethys \<Rightarrow> 0x68Fc7E375945d8C8dFb0050c337Ff09E962D976D
   | Mainnet \<Rightarrow> 0x4cf58097D790B193D22ed633bF8b15c9bc4F0da7)"

definition allocations_viewer_default_addr :: "network \<Rightarrow> address" where
  "allocations_viewer_default_addr n = (case n of
     Tethys \<Rightarrow> 0xC0Af6432947db51e0C179050dAF801F19d40D2B7
   | Mainnet \<Rightarrow> 0x88CE6D8D70df9Fe049315fd9D6c3d59108C15c4C)"

definition multicall_default_addr :: "network \<Rightarrow> address" where
  "multicall_default_addr n = 0xcA11bde05977b3631167028862bE2a173976CA11"

definition unwrap_or_else :: "'a option \<Rightarrow> 'a \<Rightarrow> 'a" where
  "unwrap_or_else x d = (case x of Some y \<Rightarrow> y | None \<Rightarrow> d)"

definition gateway_registry_addr :: "rpc_args \<Rightarrow> address" where
  "gateway_registry_addr self = unwrap_or_else (gateway_registry_contract_addr (ra_contract_addrs self))
     (gateway_registry_default_addr (ra_network self))"

definition worker_registration_addr :: "rpc_args \<Rightarrow> address" where
  "worker_registration_addr self = unwrap_or_else (worker_registration_contract_addr (ra_contract_addrs self))
     (worker_registration_default_addr (ra_network self))"

definition network_controller_addr :: "rpc_args \<Rightarrow> address" where
  "network_controller_addr self = unwrap_or_else (network_controller_contract_addr (ra_contract_addrs self))
     (network_controller_default_addr (ra_network self))"

definition allocations_viewer_addr :: "rpc_args \<Rightarrow> address" where
  "allocations_viewer_addr self = unwrap_or_else (allocations_viewer_contract_addr (ra_contract_addrs self))
     (allocations_viewer_default_addr (ra_network self))"

definition multicall_addr :: "rpc_args \<Rightarrow> address" where
  "multicall_addr self = unwrap_or_else (multicall_contract_addr (ra_contract_addrs self))
     (multicall_default_addr (ra_network self))"

section \<open>The RPC transport\<close>

datatype ('http, 'ws) transport = Http 'http | Ws 'ws

datatype ('he, 'we) transport_error = HttpError 'he | WsError 'we

text \<open>The libraries' connection functions; errors of the URL parser and of the websocket carry their text.\<close>

record ('http, 'ws) rpc_libs =
  url_parse :: "string \<Rightarrow> string + string"
  http_new :: "string \<Rightarrow> 'http"
  ws_connect :: "string \<Rightarrow> string + 'ws"

definition transport_connect :: "('http, 'ws) rpc_libs \<Rightarrow> string \<Rightarrow> client_error + ('http, 'ws) transport" where
  "transport_connect R url =
     (if prefix ''http'' url
      then (case url_parse R url of Inl e \<Rightarrow> Inl (InvalidRpcUrl e) | Inr u \<Rightarrow> Inr (Http (http_new R u)))
      else if prefix ''ws'' url
      then (case ws_connect R url of Inl e \<Rightarrow> Inl (WsClient e) | Inr w \<Rightarrow> Inr (Ws w))
      else Inl InvalidProtocol)"

text \<open>Requests, and what is asked of an error, are passed on to the transport in use.\<close>

definition transport_request ::
    "('http \<Rightarrow> 'm \<Rightarrow> 'he + 'r) \<Rightarrow> ('ws \<Rightarrow> 'm \<Rightarrow> 'we + 'r) \<Rightarrow> ('http, 'ws) transport \<Rightarrow> 'm \<Rightarrow>
     ('he, 'we) transport_error + 'r" where
  "transport_request http_request ws_request self m =
     (case self of
        Http provider \<Rightarrow> map_sum HttpError id (http_request provider m)
      | Ws provider \<Rightarrow> map_sum WsError id (ws_request provider m))"

definition transport_error_case :: "('he \<Rightarrow> 'x) \<Rightarrow> ('we \<Rightarrow> 'x) \<Rightarrow> ('he, 'we) transport_error \<Rightarrow> 'x" where
  "transport_error_case http ws self = (case self of HttpError e \<Rightarrow> http e | WsError e \<Rightarrow> ws e)"

section \<open>The contracts\<close>

record contract_worker =
  cw_creator :: address
  cw_peer_id :: bytes
  cw_bond :: u256
  cw_registered_at :: u128
  cw_deregistered_at :: u128

record contract_allocation =
  ca_gateway_id :: bytes
  ca_allocated :: u256
  ca_operator :: address

text \<open>
  What the node behind a provider answers. The calls on a contract take its address;
  those that the client makes at a given block take the block number. \<open>multicall\<close> calls are
  one call with several results.
\<close>

record chain =
  epoch_number :: "address \<Rightarrow> string + u256"
  next_epoch :: "address \<Rightarrow> string + u256"
  epoch_length :: "address \<Rightarrow> string + u256"
  get_block_number :: "string + u64"
  get_block :: "u64 \<Rightarrow> string + u256 option" \<comment> \<open>the timestamp of the block, if there is one\<close>
  worker_ids :: "address \<Rightarrow> bytes \<Rightarrow> string + u256"
  get_worker :: "address \<Rightarrow> u256 \<Rightarrow> string + contract_worker"
  contract_method :: "address \<Rightarrow> string \<Rightarrow> string + unit" \<comment> \<open>lookup of a method in the ABI\<close>
  multicall_new :: "address option \<Rightarrow> string + unit"
  multicall_active_workers :: "address \<Rightarrow> string + (contract_worker list \<times> u256 list)"
  get_gateway_operator :: "address \<Rightarrow> bytes \<Rightarrow> string + address"
  get_active_gateways :: "address \<Rightarrow> u64 \<Rightarrow> nat \<Rightarrow> nat \<Rightarrow> string + bytes list" \<comment> \<open>block, page, page size\<close>
  default_strategy :: "address \<Rightarrow> string + address"
  get_used_strategy :: "address \<Rightarrow> bytes \<Rightarrow> string + address"
  computation_units_per_epoch :: "address \<Rightarrow> bytes \<Rightarrow> u256 \<Rightarrow> string + u256"
  multicall_computation_units :: "address \<Rightarrow> bytes \<Rightarrow> u256 list \<Rightarrow> string + u256 list"
  get_allocations :: "address \<Rightarrow> u64 \<Rightarrow> u256 \<Rightarrow> nat \<Rightarrow> nat \<Rightarrow> string + contract_allocation list" \<comment> \<open>block, worker, page, page size\<close>

section \<open>The client\<close>

record allocation =
  al_worker_peer_id :: peer_id
  al_worker_onchain_id :: u256
  al_computation_units :: u256

record gateway_cluster =
  gc_operator_addr :: address
  gc_gateway_ids :: "peer_id list"
  gc_allocated_computation_units :: u256

record worker =
  wk_peer_id :: peer_id
  wk_onchain_id :: u256
  wk_address :: address
  wk_bond :: u256
  wk_registered_at :: u128
  wk_deregistered_at :: "u128 option"

definition gateways_page_size :: nat where
  "gateways_page_size = 10000"

definition worker_new :: "crypto \<Rightarrow> contract_worker \<Rightarrow> u256 \<Rightarrow> client_error + worker" where
  "worker_new cr w onchain_id =
     (case peer_from_bytes cr (cw_peer_id w) of
        None \<Rightarrow> Inl InvalidPeerId
      | Some p \<Rightarrow> Inr \<lparr>wk_peer_id = p, wk_onchain_id = onchain_id, wk_address = cw_creator w, wk_bond = cw_bond w,
          wk_registered_at = cw_registered_at w,
          wk_deregistered_at = (if 0 < cw_deregistered_at w then Some (cw_deregistered_at w) else None)\<rparr>)"

text \<open>A provider is identified with the node it talks to.\<close>

record ethers_client =
  ec_l1_client :: chain
  ec_l2_client :: chain
  ec_gateway_registry :: address
  ec_network_controller :: address
  ec_worker_registration :: address
  ec_allocations_viewer :: address
  ec_default_strategy_addr :: address
  ec_multicall_contract_addr :: "address option"

definition ethers_client_new :: "chain \<Rightarrow> chain \<Rightarrow> rpc_args \<Rightarrow> ethers_client client_result" where
  "ethers_client_new l1_client l2_client args =
     call (default_strategy l2_client (gateway_registry_addr args)) (\<lambda>strategy_addr.
       Done (Inr \<lparr>ec_l1_client = l1_client, ec_l2_client = l2_client,
         ec_gateway_registry = gateway_registry_addr args, ec_network_controller = network_controller_addr args,
         ec_worker_registration = worker_registration_addr args, ec_allocations_viewer = allocations_viewer_addr args,
         ec_default_strategy_addr = strategy_addr, ec_multicall_contract_addr = Some (multicall_addr args)\<rparr>))"

definition get_client ::
    "('http, 'ws) rpc_libs \<Rightarrow> (('http, 'ws) transport \<Rightarrow> chain) \<Rightarrow> rpc_args \<Rightarrow> ethers_client client_result" where
  "get_client R node args =
     try_run (Done (transport_connect R (rpc_url args))) (\<lambda>l2_client.
     try_run (case l1_rpc_url args of
                Some url \<Rightarrow> Done (transport_connect R url)
              | None \<Rightarrow> Done (Inr l2_client)) (\<lambda>l1_client.
       ethers_client_new (node l1_client) (node l2_client) args))"

definition ethers_multicall :: "ethers_client \<Rightarrow> string + unit" where
  "ethers_multicall self = multicall_new (ec_l2_client self) (ec_multicall_contract_addr self)"

definition current_epoch :: "ethers_client \<Rightarrow> u32 client_result" where
  "current_epoch self =
     call (epoch_number (ec_l2_client self) (ec_network_controller self)) (\<lambda>epoch.
       if unat epoch < 2 ^ 32 then Done (Inr (ucast epoch)) else Panic)"

text \<open>
  \<open>UNIX_EPOCH + Duration::from_secs(t.as_u64())\<close>: the conversion panics above 64 bits, and the sum
  if it exceeds the signed 64-bit seconds of a \<open>SystemTime\<close>. Times are seconds since the epoch.
\<close>

definition system_time :: "u256 \<Rightarrow> nat run" where
  "system_time t = (if unat t < 2 ^ 63 then Done (unat t) else Panic)"

text \<open>The subtraction on \<open>U256\<close> panics on underflow in every build.\<close>

definition current_epoch_start :: "ethers_client \<Rightarrow> nat client_result" where
  "current_epoch_start self =
     call (next_epoch (ec_l2_client self) (ec_network_controller self)) (\<lambda>next_epoch_start_block.
     call (epoch_length (ec_l2_client self) (ec_network_controller self)) (\<lambda>epoch_length_blocks.
       if next_epoch_start_block < epoch_length_blocks then Panic
       else let d = next_epoch_start_block - epoch_length_blocks in
         if 2 ^ 64 \<le> unat d then Panic
         else try_call client_error_from_provider (get_block (ec_l1_client self) (ucast d)) (\<lambda>block.
           case block of
             None \<Rightarrow> Done (Inl BlockNotFound)
           | Some timestamp \<Rightarrow> run_bind (system_time timestamp) (\<lambda>t. Done (Inr t)))))"

definition client_worker_id :: "ethers_client \<Rightarrow> peer_id \<Rightarrow> u256 client_result" where
  "client_worker_id self p = call (worker_ids (ec_l2_client self) (ec_worker_registration self) (to_bytes p)) (\<lambda>i. Done (Inr i))"

definition active_workers :: "crypto \<Rightarrow> ethers_client \<Rightarrow> worker list client_result" where
  "active_workers cr self =
     (let l2 = ec_l2_client self; wr = ec_worker_registration self in
      call (contract_method l2 wr ''getActiveWorkers'') (\<lambda>_.
      call (contract_method l2 wr ''getActiveWorkerIds'') (\<lambda>_.
      call (ethers_multicall self) (\<lambda>_.
      call (multicall_active_workers l2 wr) (\<lambda>(workers, onchain_ids).
        Done (Inr (List.map_filter (\<lambda>(w, onchain_id).
            case worker_new cr w onchain_id of Inr w \<Rightarrow> Some w | Inl e \<Rightarrow> None) (zip workers onchain_ids))))))))"

definition is_gateway_registered :: "ethers_client \<Rightarrow> peer_id \<Rightarrow> bool client_result" where
  "is_gateway_registered self p =
     call (get_gateway_operator (ec_l2_client self) (ec_gateway_registry self) (to_bytes p)) (\<lambda>operator.
       Done (Inr (operator \<noteq> 0)))"

definition worker_registration_time :: "ethers_client \<Rightarrow> peer_id \<Rightarrow> nat option client_result" where
  "worker_registration_time self p =
     (let l2 = ec_l2_client self; wr = ec_worker_registration self in
      call (worker_ids l2 wr (to_bytes p)) (\<lambda>i.
        if i = 0 then Done (Inr None)
        else call (get_worker l2 wr i) (\<lambda>w.
          if 2 ^ 64 \<le> unat (cw_registered_at w) then Panic
          else try_call client_error_from_provider (get_block (ec_l1_client self) (ucast (cw_registered_at w))) (\<lambda>block.
            case block of
              None \<Rightarrow> Done (Inr None)
            | Some timestamp \<Rightarrow> run_bind (system_time timestamp) (\<lambda>t. Done (Inr (Some t)))))))"

section \<open>Paging\<close>

text \<open>
  The page numbers of \<open>for page in 0..\<close> are 32-bit signed numbers (the type that the literal
  falls back to). Computing the number after the last one overflows: with overflow checks this
  panics when the last number is produced; without, the number after it is negative and its
  conversion to \<open>U256\<close> panics. So the loop ends in any case.
\<close>

definition page_overflow :: "bool \<Rightarrow> nat \<Rightarrow> bool" where
  "page_overflow chk page \<longleftrightarrow> (if chk then 2 ^ 31 - 1 \<le> page else 2 ^ 31 \<le> page)"

lemma page_overflow_less: "\<not> page_overflow chk page \<Longrightarrow> page < 2 ^ 31"
  by (simp add: page_overflow_def split: if_splits)

function active_gateways_loop ::
    "bool \<Rightarrow> crypto \<Rightarrow> (nat \<Rightarrow> string + bytes list) \<Rightarrow> nat \<Rightarrow> peer_id list \<Rightarrow> peer_id list client_result" where
  "active_gateways_loop chk cr get_page page acc =
     (if page_overflow chk page then Panic
      else call (get_page page) (\<lambda>gateway_ids.
        let page_size = length gateway_ids;
            acc = acc @ List.map_filter (peer_from_bytes cr) gateway_ids in
        if page_size < gateways_page_size then Done (Inr acc)
        else active_gateways_loop chk cr get_page (page + 1) acc))"
  by auto
termination by (relation "measure (\<lambda>(_, _, _, page, _). 2 ^ 31 - page)") (auto dest: page_overflow_less)

declare active_gateways_loop.simps [simp del]

definition active_gateways :: "bool \<Rightarrow> crypto \<Rightarrow> ethers_client \<Rightarrow> peer_id list client_result" where
  "active_gateways chk cr self =
     try_call client_error_from_provider (get_block_number (ec_l2_client self)) (\<lambda>latest_block.
       active_gateways_loop chk cr
         (\<lambda>page. get_active_gateways (ec_l2_client self) (ec_gateway_registry self) latest_block page gateways_page_size) 0 [])"

text \<open>The body of the loop over a page of allocations: the cluster of the operator is created with the first one.\<close>

definition add_allocation :: "crypto \<Rightarrow> contract_allocation \<Rightarrow> (address, gateway_cluster) fmap \<Rightarrow> (address, gateway_cluster) fmap" where
  "add_allocation cr a clusters =
     (case peer_from_bytes cr (ca_gateway_id a) of
        None \<Rightarrow> clusters
      | Some p \<Rightarrow>
          let c = unwrap_or_else (fmlookup clusters (ca_operator a))
                    \<lparr>gc_operator_addr = ca_operator a, gc_gateway_ids = [], gc_allocated_computation_units = ca_allocated a\<rparr> in
          fmupd (ca_operator a) (c\<lparr>gc_gateway_ids := gc_gateway_ids c @ [p]\<rparr>) clusters)"

function gateway_clusters_loop ::
    "bool \<Rightarrow> crypto \<Rightarrow> (nat \<Rightarrow> string + contract_allocation list) \<Rightarrow> nat \<Rightarrow> (address, gateway_cluster) fmap \<Rightarrow>
     (address, gateway_cluster) fmap client_result" where
  "gateway_clusters_loop chk cr get_page page clusters =
     (if page_overflow chk page then Panic
      else call (get_page page) (\<lambda>allocations.
        let page_size = length allocations;
            clusters = fold (add_allocation cr) allocations clusters in
        if page_size < gateways_page_size then Done (Inr clusters)
        else gateway_clusters_loop chk cr get_page (page + 1) clusters))"
  by auto
termination by (relation "measure (\<lambda>(_, _, _, page, _). 2 ^ 31 - page)") (auto dest: page_overflow_less)

declare gateway_clusters_loop.simps [simp del]

text \<open>\<open>values\<close> is the order in which \<open>HashMap::into_values\<close> visits the map.\<close>

definition gateway_clusters ::
    "bool \<Rightarrow> crypto \<Rightarrow> ((address, gateway_cluster) fmap \<Rightarrow> gateway_cluster list) \<Rightarrow> ethers_client \<Rightarrow> u256 \<Rightarrow>
     gateway_cluster list client_result" where
  "gateway_clusters chk cr values self worker_id =
     try_call client_error_from_provider (get_block_number (ec_l2_client self)) (\<lambda>latest_block.
       try_run (gateway_clusters_loop chk cr
           (\<lambda>page. get_allocations (ec_l2_client self) (ec_allocations_viewer self) latest_block worker_id page gateways_page_size)
           0 fmempty) (\<lambda>clusters.
         Done (Inr (values clusters))))"

section \<open>Allocations and the list of nodes\<close>

definition allocation_of :: "worker \<Rightarrow> u256 \<Rightarrow> allocation" where
  "allocation_of w cus = \<lparr>al_worker_peer_id = wk_peer_id w, al_worker_onchain_id = wk_onchain_id w, al_computation_units = cus\<rparr>"

text \<open>
  \<open>expect("non empty")\<close> cannot fail after the check for an empty list. Each of the calls that
  are collected for the multicall looks the method up first.
\<close>

definition current_allocations ::
    "crypto \<Rightarrow> ethers_client \<Rightarrow> peer_id \<Rightarrow> worker list option \<Rightarrow> allocation list client_result" where
  "current_allocations cr self client_id workers =
     try_run (case workers of Some workers \<Rightarrow> Done (Inr workers) | None \<Rightarrow> active_workers cr self) (\<lambda>workers.
       case workers of
         [] \<Rightarrow> Done (Inr [])
       | first # _ \<Rightarrow>
           let l2 = ec_l2_client self; gateway_id = to_bytes client_id in
           call (get_used_strategy l2 (ec_gateway_registry self) gateway_id) (\<lambda>strategy_addr.
             if strategy_addr = ec_default_strategy_addr self
             then call (computation_units_per_epoch l2 strategy_addr gateway_id (wk_onchain_id first)) (\<lambda>cus_per_epoch.
                    Done (Inr (map (\<lambda>w. allocation_of w cus_per_epoch) workers)))
             else call (ethers_multicall self) (\<lambda>_.
                  call (contract_method l2 strategy_addr ''computationUnitsPerEpoch'') (\<lambda>_.
                  call (multicall_computation_units l2 strategy_addr gateway_id (map wk_onchain_id workers)) (\<lambda>compute_units.
                    Done (Inr (map2 allocation_of workers compute_units)))))))"

text \<open>One item of \<open>network_nodes_stream\<close>, computed at every tick of its interval.\<close>

definition network_nodes :: "bool \<Rightarrow> crypto \<Rightarrow> ethers_client \<Rightarrow> peer_id fset client_result" where
  "network_nodes chk cr self =
     try_run (active_gateways chk cr self) (\<lambda>gateways.
     try_run (active_workers cr self) (\<lambda>workers.
       Done (Inr (fset_of_list gateways |\<union>| fset_of_list (map wk_peer_id workers)))))"

section \<open>Paged lists\<close>

text \<open>
  A paged list, as the contracts promise it: page \<open>i\<close> of size \<open>n\<close> are the elements from
  \<open>i * n\<close> on, at most \<open>n\<close> of them.
\<close>

definition page_of :: "'a list \<Rightarrow> nat \<Rightarrow> nat \<Rightarrow> 'a list" where
  "page_of xs n i = take n (drop (i * n) xs)"

text \<open>
  A loop over pages with an accumulator, as the two loops of the client have it: it is given
  by its one-step equation, and it ends with what the pages up to the first incomplete
  one contribute, without a panic if the list is not astronomically long.
\<close>

locale paging_loop =
  fixes chk :: bool
    and add :: "'a list \<Rightarrow> 'acc \<Rightarrow> 'acc"
    and loop :: "(nat \<Rightarrow> string + 'a list) \<Rightarrow> nat \<Rightarrow> 'acc \<Rightarrow> 'acc client_result"
  assumes loop_step: "loop get_page page acc =
      (if page_overflow chk page then Panic
       else call (get_page page) (\<lambda>xs.
         if length xs < gateways_page_size then Done (Inr (add xs acc))
         else loop get_page (page + 1) (add xs acc)))"
    and add_nil: "add [] acc = acc"
    and add_append: "add (xs @ ys) acc = add ys (add xs acc)"
begin

lemma loop_pages:
  assumes pages: "\<And>i. get_page i = Inr (page_of xs gateways_page_size i)"
    and len: "length xs < (2 ^ 31 - 1) * gateways_page_size"
    and "page * gateways_page_size \<le> length xs"
  shows "loop get_page page acc = Done (Inr (add (drop (page * gateways_page_size) xs) acc))"
  using assms(3)
proof (induction "length xs - page * gateways_page_size" arbitrary: page acc rule: less_induct)
  case less
  let ?n = gateways_page_size
  have n: "0 < ?n" by (simp add: gateways_page_size_def)
  from less.prems len have "page * ?n < (2 ^ 31 - 1) * ?n" by (rule le_less_trans)
  then have "page < 2 ^ 31 - 1" by (simp only: mult_less_cancel2)
  then have ok: "\<not> page_overflow chk page" by (simp add: page_overflow_def)
  let ?p = "page_of xs ?n page"
  show ?case
  proof (cases "length ?p < ?n")
    case True
    then have "?p = drop (page * ?n) xs" by (simp add: page_of_def min_def split: if_splits)
    with True ok show ?thesis by (subst loop_step) (simp add: pages)
  next
    case False
    then have "?n \<le> length xs - page * ?n" by (simp add: page_of_def not_less)
    with n have more: "Suc page * ?n \<le> length xs" by simp
    have split: "drop (page * ?n) xs = ?p @ drop (Suc page * ?n) xs"
      by (simp add: page_of_def add.commute flip: drop_drop)
    have "length xs - Suc page * ?n < length xs - page * ?n" using more n by simp
    from less.hyps [OF this more] have "loop get_page (Suc page) (add ?p acc) =
        Done (Inr (add (drop (page * ?n) xs) acc))"
      by (simp only: split add_append)
    with False ok show ?thesis by (subst loop_step) (simp add: pages)
  qed
qed

lemma loop_complete:
  assumes "\<And>i. get_page i = Inr (page_of xs gateways_page_size i)"
    and "length xs < (2 ^ 31 - 1) * gateways_page_size"
  shows "loop get_page 0 acc = Done (Inr (add xs acc))"
  using loop_pages [OF assms, of 0 acc] by simp

text \<open>An error of a page is the result of the loop.\<close>

lemma loop_error:
  assumes "\<And>j. j < i \<Longrightarrow> \<exists>xs. get_page j = Inr xs \<and> gateways_page_size \<le> length xs"
    and "get_page i = Inl e" and "i < 2 ^ 31 - 1" and "page \<le> i"
  shows "loop get_page page acc = Done (Inl (Contract e))"
  using assms(4)
proof (induction "i - page" arbitrary: page acc)
  case 0
  then have "page = i" by simp
  with assms(2,3) show ?case by (subst loop_step) (simp add: page_overflow_def client_error_from_contract_def)
next
  case (Suc d)
  then have lt: "page < i" by simp
  from assms(1) [OF this] obtain xs where xs: "get_page page = Inr xs" "gateways_page_size \<le> length xs" by blast
  from Suc.hyps(1) [of "Suc page" "add xs acc"] Suc.hyps(2) lt
  have "loop get_page (Suc page) (add xs acc) = Done (Inl (Contract e))" by simp
  moreover have "\<not> page_overflow chk page" using lt assms(3) by (simp add: page_overflow_def)
  ultimately show ?case using xs by (subst loop_step) simp
qed

end

interpretation gateways_paging: paging_loop chk "\<lambda>ids acc. acc @ List.map_filter (peer_from_bytes cr) ids"
    "active_gateways_loop chk cr" for chk cr
  by unfold_locales
     (simp add: active_gateways_loop.simps [of chk cr] Let_def, simp_all add: List.map_filter_def)

interpretation clusters_paging: paging_loop chk "fold (add_allocation cr)" "gateway_clusters_loop chk cr" for chk cr
  by unfold_locales (simp_all add: gateway_clusters_loop.simps [of chk cr] Let_def)


section \<open>Properties\<close>

text \<open>
  C36. Listing the gateways is complete: if the registry pages a list of gateways at the latest
  block, the client returns, after finitely many calls and without a panic, exactly the
  identifiers in this list that are valid peer IDs, in their order, also if the number of
  gateways is a multiple of the page size.
\<close>

theorem active_gateways_complete:
  assumes "get_block_number (ec_l2_client self) = Inr block"
    and "\<forall>i. get_active_gateways (ec_l2_client self) (ec_gateway_registry self) block i gateways_page_size =
      Inr (page_of ids gateways_page_size i)"
    and "length ids < (2 ^ 31 - 1) * gateways_page_size"
  shows "active_gateways chk cr self = Done (Inr (List.map_filter (peer_from_bytes cr) ids))"
  using assms gateways_paging.loop_complete [OF _ assms(3), of _ chk cr "[]"]
  by (simp add: active_gateways_def)

text \<open>
  A node for the witnesses, with one registered gateway more than fits a page: the last one has
  an invalid identifier. The clusters and the units are those of one operator.
\<close>

definition demo_ids :: "bytes list" where
  "demo_ids = replicate gateways_page_size [0, 1] @ [[]]"

definition demo_allocation :: contract_allocation where
  "demo_allocation = \<lparr>ca_gateway_id = [0, 1], ca_allocated = 5, ca_operator = 7\<rparr>"

definition demo_peers :: crypto where
  "demo_peers = demo_crypto\<lparr>peer_from_bytes := \<lambda>b. if b = [] then None else Some (PeerId b)\<rparr>"

definition demo_worker :: contract_worker where
  "demo_worker = \<lparr>cw_creator = 9, cw_peer_id = [0, 2], cw_bond = 1, cw_registered_at = 10, cw_deregistered_at = 0\<rparr>"

definition demo_chain :: chain where
  "demo_chain = \<lparr>epoch_number = \<lambda>_. Inr 3, next_epoch = \<lambda>_. Inr 100, epoch_length = \<lambda>_. Inr 20,
     get_block_number = Inr 50, get_block = \<lambda>n. Inr (Some (ucast n * 12)),
     worker_ids = \<lambda>_ _. Inr 1, get_worker = \<lambda>_ _. Inr demo_worker, contract_method = \<lambda>_ _. Inr (), multicall_new = \<lambda>_. Inr (),
     multicall_active_workers = \<lambda>_. Inr ([demo_worker], [1]), get_gateway_operator = \<lambda>_ _. Inr 7,
     get_active_gateways = \<lambda>_ _ page n. Inr (page_of demo_ids n page),
     default_strategy = \<lambda>_. Inr 8, get_used_strategy = \<lambda>_ _. Inr 8,
     computation_units_per_epoch = \<lambda>_ _ _. Inr 5, multicall_computation_units = \<lambda>_ _ ids. Inr (map (\<lambda>_. 5) ids),
     get_allocations = \<lambda>_ _ _ page n. Inr (page_of [demo_allocation, demo_allocation\<lparr>ca_allocated := 6\<rparr>] n page)\<rparr>"

definition demo_ethers :: ethers_client where
  "demo_ethers = \<lparr>ec_l1_client = demo_chain, ec_l2_client = demo_chain, ec_gateway_registry = 1, ec_network_controller = 2,
     ec_worker_registration = 3, ec_allocations_viewer = 4, ec_default_strategy_addr = 8, ec_multicall_contract_addr = None\<rparr>"

lemma demo_ids_valid: "List.map_filter (peer_from_bytes demo_peers) demo_ids = replicate gateways_page_size (PeerId [0, 1])"
  by (simp add: List.map_filter_def demo_ids_def demo_peers_def)

theorem active_gateways_complete_witness:
  "active_gateways True demo_peers demo_ethers = Done (Inr (replicate 10000 (PeerId [0, 1])))"
proof -
  have "length demo_ids < (2 ^ 31 - 1) * gateways_page_size" by (simp add: demo_ids_def gateways_page_size_def)
  with active_gateways_complete [of demo_ethers 50 demo_ids True demo_peers]
  show ?thesis by (simp add: demo_ids_valid) (simp add: demo_ethers_def demo_chain_def gateways_page_size_def)
qed

text \<open>
  The clusters as the documentation of \<open>gateway_clusters\<close> has them: the gateways of an operator, in
  their order, with the units allocated to the first one.
\<close>

definition allocations_of :: "crypto \<Rightarrow> contract_allocation list \<Rightarrow> address \<Rightarrow> contract_allocation list" where
  "allocations_of cr as op = filter (\<lambda>a. ca_operator a = op \<and> peer_from_bytes cr (ca_gateway_id a) \<noteq> None) as"

fun cluster_from :: "crypto \<Rightarrow> address \<Rightarrow> contract_allocation list \<Rightarrow> gateway_cluster option" where
  "cluster_from cr op [] = None"
| "cluster_from cr op (a # as) = Some \<lparr>gc_operator_addr = op,
     gc_gateway_ids = List.map_filter (\<lambda>a. peer_from_bytes cr (ca_gateway_id a)) (a # as),
     gc_allocated_computation_units = ca_allocated a\<rparr>"

definition cluster_of :: "crypto \<Rightarrow> contract_allocation list \<Rightarrow> address \<Rightarrow> gateway_cluster option" where
  "cluster_of cr as op = cluster_from cr op (allocations_of cr as op)"

lemma cluster_from_snoc:
  "peer_from_bytes cr (ca_gateway_id a) = Some p \<Longrightarrow>
     cluster_from cr op (as @ [a]) =
       (let c = unwrap_or_else (cluster_from cr op as)
          \<lparr>gc_operator_addr = op, gc_gateway_ids = [], gc_allocated_computation_units = ca_allocated a\<rparr> in
        Some (c\<lparr>gc_gateway_ids := gc_gateway_ids c @ [p]\<rparr>))"
  by (cases as) (simp_all add: unwrap_or_else_def List.map_filter_def)

lemma fold_add_allocation: "fmlookup (fold (add_allocation cr) as fmempty) op = cluster_of cr as op"
proof (induction as rule: rev_induct)
  case (snoc a as)
  have app: "allocations_of cr (as @ [a]) op = allocations_of cr as op @
      (if ca_operator a = op \<and> peer_from_bytes cr (ca_gateway_id a) \<noteq> None then [a] else [])"
    by (simp add: allocations_of_def)
  show ?case
  proof (cases "peer_from_bytes cr (ca_gateway_id a)")
    case None
    then have "add_allocation cr a m = m" for m by (simp add: add_allocation_def)
    with snoc app None show ?thesis by (simp add: cluster_of_def)
  next
    case (Some p)
    with snoc app show ?thesis
      by (cases "ca_operator a = op") (simp_all add: cluster_of_def cluster_from_snoc add_allocation_def [of cr a] Let_def)
  qed
qed (simp add: cluster_of_def allocations_of_def)

text \<open>\<open>into_values\<close> visits every entry of the map once.\<close>

definition values_laws :: "(('k, 'v) fmap \<Rightarrow> 'v list) \<Rightarrow> bool" where
  "values_laws values \<longleftrightarrow>
     (\<forall>m. \<exists>ks. distinct ks \<and> set ks = fmdom' m \<and> values m = List.map_filter (fmlookup m) ks)"

text \<open>
  C37. Clusters: if the viewer pages a list of allocations at the latest block, the result has
  exactly one cluster for each operator of a valid gateway; it contains the valid
  gateways of this operator, in order, and the units of the first one.
\<close>

theorem gateway_clusters_grouping:
  assumes "get_block_number (ec_l2_client self) = Inr block"
    and "\<forall>i. get_allocations (ec_l2_client self) (ec_allocations_viewer self) block worker_id i gateways_page_size =
      Inr (page_of as gateways_page_size i)"
    and "length as < (2 ^ 31 - 1) * gateways_page_size" and "values_laws values"
  shows "\<exists>ops. gateway_clusters chk cr values self worker_id = Done (Inr (List.map_filter (cluster_of cr as) ops)) \<and>
    distinct ops \<and> set ops = {op. allocations_of cr as op \<noteq> []}"
proof -
  let ?m = "fold (add_allocation cr) as fmempty"
  from assms(4) obtain ks where ks: "distinct ks" "set ks = fmdom' ?m" "values ?m = List.map_filter (fmlookup ?m) ks"
    unfolding values_laws_def by blast
  have "gateway_clusters chk cr values self worker_id = Done (Inr (values ?m))"
    using assms clusters_paging.loop_complete [OF _ assms(3), of _ chk cr fmempty] by (simp add: gateway_clusters_def)
  moreover have "fmlookup ?m = cluster_of cr as" by (rule ext) (rule fold_add_allocation)
  moreover have "set ks = {op. allocations_of cr as op \<noteq> []}"
    unfolding ks(2) fmdom'_alt_def [symmetric]
    by (auto simp: fmlookup_dom'_iff fold_add_allocation cluster_of_def neq_Nil_conv elim!: cluster_from.elims)
  ultimately show ?thesis using ks by auto
qed

definition demo_values :: "('k::linorder, 'v) fmap \<Rightarrow> 'v list" where
  "demo_values m = List.map_filter (fmlookup m) (sorted_list_of_fset (fmdom m))"

lemma demo_values_laws: "values_laws demo_values"
  unfolding values_laws_def demo_values_def
  by (intro allI exI [of _ "sorted_list_of_fset (fmdom _)"])
     (simp add: sorted_list_of_fset.rep_eq fmdom'_alt_def)

theorem gateway_clusters_grouping_witness:
  "\<exists>ops. gateway_clusters False demo_peers demo_values demo_ethers 1 =
     Done (Inr (List.map_filter (cluster_of demo_peers [demo_allocation, demo_allocation\<lparr>ca_allocated := 6\<rparr>]) ops)) \<and> set ops = {7}"
proof -
  let ?as = "[demo_allocation, demo_allocation\<lparr>ca_allocated := 6\<rparr>]"
  have "{op. allocations_of demo_peers ?as op \<noteq> []} = {7}"
    by (auto simp: allocations_of_def demo_allocation_def demo_peers_def)
  moreover have "\<exists>ops. gateway_clusters False demo_peers demo_values demo_ethers 1 =
      Done (Inr (List.map_filter (cluster_of demo_peers ?as) ops)) \<and> distinct ops \<and> set ops = {op. allocations_of demo_peers ?as op \<noteq> []}"
    by (rule gateway_clusters_grouping [of demo_ethers 50 1 ?as demo_values])
       (simp_all add: demo_values_laws demo_ethers_def demo_chain_def gateways_page_size_def)
  ultimately show ?thesis by auto
qed



end
