(* ===== verification/Metrics.thy ===== *)
theory Metrics
  imports Prelude
begin

text \<open>
  The metrics of the transport (transport/src/metrics.rs): global gauges and counters.
  Gauges are atomic 32-bit numbers, whose increment and decrement wrap around in every build;
  families are indexed by the name of a queue. The model is of the build with metrics enabled.
\<close>

record metrics =
  active_connections :: u32
  ongoing_probes :: u32
  ongoing_queries :: u32
  queue_size :: "string \<Rightarrow> u32"
  dropped :: "string \<Rightarrow> u64"

definition metrics_init :: metrics where
  "metrics_init = \<lparr>active_connections = 0, ongoing_probes = 0, ongoing_queries = 0,
     queue_size = \<lambda>_. 0, dropped = \<lambda>_. 0\<rparr>"

definition inc_active_connections :: "metrics \<Rightarrow> metrics" where
  "inc_active_connections m = m\<lparr>active_connections := active_connections m + 1\<rparr>"

definition dec_active_connections :: "metrics \<Rightarrow> metrics" where
  "dec_active_connections m = m\<lparr>active_connections := active_connections m - 1\<rparr>"

definition inc_ongoing_probes :: "metrics \<Rightarrow> metrics" where
  "inc_ongoing_probes m = m\<lparr>ongoing_probes := ongoing_probes m + 1\<rparr>"

definition dec_ongoing_probes :: "metrics \<Rightarrow> metrics" where
  "dec_ongoing_probes m = m\<lparr>ongoing_probes := ongoing_probes m - 1\<rparr>"

definition inc_ongoing_queries :: "metrics \<Rightarrow> metrics" where
  "inc_ongoing_queries m = m\<lparr>ongoing_queries := ongoing_queries m + 1\<rparr>"

definition dec_ongoing_queries :: "metrics \<Rightarrow> metrics" where
  "dec_ongoing_queries m = m\<lparr>ongoing_queries := ongoing_queries m - 1\<rparr>"

definition inc_queue_size :: "string \<Rightarrow> metrics \<Rightarrow> metrics" where
  "inc_queue_size n m = m\<lparr>queue_size := (queue_size m)(n := queue_size m n + 1)\<rparr>"

definition dec_queue_size :: "string \<Rightarrow> metrics \<Rightarrow> metrics" where
  "dec_queue_size n m = m\<lparr>queue_size := (queue_size m)(n := queue_size m n - 1)\<rparr>"

definition inc_dropped :: "string \<Rightarrow> metrics \<Rightarrow> metrics" where
  "inc_dropped n m = m\<lparr>dropped := (dropped m)(n := dropped m n + 1)\<rparr>"

text \<open>
  Registration: the cell with the libp2p metrics can be set only once; the five metrics of the
  transport are registered with their descriptions. \<open>initialized\<close> is the state of the cell.
\<close>

definition register_metrics :: "bool \<Rightarrow> (string \<times> string) list \<Rightarrow> (bool \<times> (string \<times> string) list) run" where
  "register_metrics initialized registry =
     (if initialized then Panic
      else Done (True, registry @
        [(''active_connections'', ''The number of active p2p connections (both incoming and outgoing)''),
         (''ongoing_probes'', ''The number of ongoing peer reachability probes''),
         (''ongoing_queries'', ''The number of ongoing kademlia DHT queries''),
         (''queue_size'', ''The number of messages/events waiting to be processed''),
         (''dropped'', ''The number of dropped messages/events'')]))"

lemma register_metrics_once:
  "register_metrics b r = Done (b', r') \<Longrightarrow> b' \<and> register_metrics b' r'' = Panic"
  by (auto simp: register_metrics_def split: if_splits)

end
