(* ===== verification/Queue.thy ===== *)
theory Queue
  imports Metrics External
begin

text \<open>
  The bounded queues between the transport and the application (transport/src/util/queue.rs
  and the error type of transport/src/lib.rs). The channel is tokio's \<open>mpsc\<close>, a parameter; the
  queue adds a gauge of the number of waiting messages and a counter of dropped ones.

  Sender and receiver run in different tasks: an operation on the channel and the update of
  the gauge are two steps, and the steps of several operations interleave (\<open>qstep\<close>).
\<close>

section \<open>The channel\<close>

datatype try_send_error = Full | Closed

record ('ch, 'a) mpsc =
  ch_new :: "nat \<Rightarrow> 'ch"
  ch_try_send :: "'ch \<Rightarrow> 'a \<Rightarrow> 'ch \<times> try_send_error option"
  ch_recv :: "'ch \<Rightarrow> 'ch \<times> 'a option poll"

text \<open>
  Documented behaviour, with \<open>items\<close> the messages waiting in a channel and \<open>cap\<close> its bound:
  a new channel is empty; sending appends a message if there is room, and otherwise, or if
  the receiver is gone, changes nothing; receiving takes the oldest message.
\<close>

definition mpsc_laws :: "('ch, 'a) mpsc \<Rightarrow> ('ch \<Rightarrow> 'a list) \<Rightarrow> ('ch \<Rightarrow> nat) \<Rightarrow> bool" where
  "mpsc_laws mp items cap \<longleftrightarrow>
     (\<forall>n. items (ch_new mp n) = [] \<and> cap (ch_new mp n) = n) \<and>
     (\<forall>ch x ch'. ch_try_send mp ch x = (ch', None) \<longrightarrow>
        length (items ch) < cap ch \<and> items ch' = items ch @ [x] \<and> cap ch' = cap ch) \<and>
     (\<forall>ch x ch' e. ch_try_send mp ch x = (ch', Some e) \<longrightarrow>
        (e = Full \<longrightarrow> length (items ch) = cap ch) \<and> items ch' = items ch \<and> cap ch' = cap ch) \<and>
     (\<forall>ch ch' x. ch_recv mp ch = (ch', Ready (Some x)) \<longrightarrow> items ch = x # items ch' \<and> cap ch' = cap ch) \<and>
     (\<forall>ch ch'. ch_recv mp ch = (ch', Ready None) \<or> ch_recv mp ch = (ch', Pending) \<longrightarrow>
        items ch' = items ch \<and> cap ch' = cap ch)"

section \<open>Sender and receiver\<close>

datatype queue_full = QueueFull

text \<open>\<open>From<TrySendError<T>> for QueueFull\<close>.\<close>

definition queue_full_from :: "try_send_error \<Rightarrow> queue_full" where
  "queue_full_from e = QueueFull"

text \<open>A queue: the channel that the clones of the sender and the receiver share, and its name.\<close>

record 'ch queue =
  q_chan :: 'ch
  q_name :: string

definition new_queue :: "('ch, 'a) mpsc \<Rightarrow> nat \<Rightarrow> string \<Rightarrow> 'ch queue" where
  "new_queue mp sz name = \<lparr>q_chan = ch_new mp sz, q_name = name\<rparr>"

definition queue_try_send ::
    "('ch, 'a) mpsc \<Rightarrow> 'ch queue \<Rightarrow> metrics \<Rightarrow> 'a \<Rightarrow> 'ch queue \<times> metrics \<times> (queue_full + unit)" where
  "queue_try_send mp self m msg =
     (case ch_try_send mp (q_chan self) msg of
        (ch, Some e) \<Rightarrow> (self\<lparr>q_chan := ch\<rparr>, m, Inl (queue_full_from e))
      | (ch, None) \<Rightarrow> (self\<lparr>q_chan := ch\<rparr>, inc_queue_size (q_name self) m, Inr ()))"

definition queue_send_lossy :: "('ch, 'a) mpsc \<Rightarrow> 'ch queue \<Rightarrow> metrics \<Rightarrow> 'a \<Rightarrow> 'ch queue \<times> metrics" where
  "queue_send_lossy mp self m msg =
     (case queue_try_send mp self m msg of
        (self, m, Inr _) \<Rightarrow> (self, m)
      | (self, m, Inl _) \<Rightarrow> (self, inc_dropped (q_name self) m))"

text \<open>\<open>recv\<close>, and \<open>poll_next\<close> of the stream, which polls it.\<close>

definition queue_recv :: "('ch, 'a) mpsc \<Rightarrow> 'ch queue \<Rightarrow> metrics \<Rightarrow> 'ch queue \<times> metrics \<times> 'a option poll" where
  "queue_recv mp self m =
     (case ch_recv mp (q_chan self) of
        (ch, Ready (Some msg)) \<Rightarrow> (self\<lparr>q_chan := ch\<rparr>, dec_queue_size (q_name self) m, Ready (Some msg))
      | (ch, r) \<Rightarrow> (self\<lparr>q_chan := ch\<rparr>, m, r))"

section \<open>Interleaved operation\<close>

text \<open>
  The state of a queue in use: the queue and the metrics, the number of operations that have
  sent or received a message and not yet updated the gauge, and, as history, the messages
  accepted, delivered and dropped so far.
\<close>

record ('ch, 'a) qstate =
  qs_queue :: "'ch queue"
  qs_metrics :: metrics
  qs_incs :: nat
  qs_decs :: nat
  qs_accepted :: "'a list"
  qs_delivered :: "'a list"
  qs_dropped :: nat

definition qinit :: "('ch, 'a) mpsc \<Rightarrow> nat \<Rightarrow> string \<Rightarrow> ('ch, 'a) qstate" where
  "qinit mp sz name = \<lparr>qs_queue = new_queue mp sz name, qs_metrics = metrics_init, qs_incs = 0, qs_decs = 0,
     qs_accepted = [], qs_delivered = [], qs_dropped = 0\<rparr>"

inductive qstep :: "('ch, 'a) mpsc \<Rightarrow> ('ch, 'a) qstate \<Rightarrow> ('ch, 'a) qstate \<Rightarrow> bool" for mp where
  push: "ch_try_send mp (q_chan (qs_queue s)) x = (ch, None) \<Longrightarrow>
    qstep mp s (s\<lparr>qs_queue := (qs_queue s)\<lparr>q_chan := ch\<rparr>, qs_incs := qs_incs s + 1, qs_accepted := qs_accepted s @ [x]\<rparr>)"
| inc: "0 < qs_incs s \<Longrightarrow>
    qstep mp s (s\<lparr>qs_metrics := inc_queue_size (q_name (qs_queue s)) (qs_metrics s), qs_incs := qs_incs s - 1\<rparr>)"
| reject: "ch_try_send mp (q_chan (qs_queue s)) x = (ch, Some e) \<Longrightarrow>
    qstep mp s (s\<lparr>qs_queue := (qs_queue s)\<lparr>q_chan := ch\<rparr>,
                  qs_metrics := inc_dropped (q_name (qs_queue s)) (qs_metrics s), qs_dropped := qs_dropped s + 1\<rparr>)"
| pop: "ch_recv mp (q_chan (qs_queue s)) = (ch, Ready (Some x)) \<Longrightarrow>
    qstep mp s (s\<lparr>qs_queue := (qs_queue s)\<lparr>q_chan := ch\<rparr>, qs_decs := qs_decs s + 1, qs_delivered := qs_delivered s @ [x]\<rparr>)"
| dec: "0 < qs_decs s \<Longrightarrow>
    qstep mp s (s\<lparr>qs_metrics := dec_queue_size (q_name (qs_queue s)) (qs_metrics s), qs_decs := qs_decs s - 1\<rparr>)"

abbreviation qreachable :: "('ch, 'a) mpsc \<Rightarrow> nat \<Rightarrow> string \<Rightarrow> ('ch, 'a) qstate \<Rightarrow> bool" where
  "qreachable mp sz name \<equiv> (qstep mp)\<^sup>*\<^sup>* (qinit mp sz name)"

text \<open>An operation run without interruption is two steps in a row.\<close>

lemma queue_send_lossy_steps:
  assumes "queue_send_lossy mp (qs_queue s) (qs_metrics s) x = (q, m)"
  shows "\<exists>s'. (qstep mp)\<^sup>*\<^sup>* s s' \<and> qs_queue s' = q \<and> qs_metrics s' = m \<and> qs_incs s' = qs_incs s \<and> qs_decs s' = qs_decs s"
proof (cases "ch_try_send mp (q_chan (qs_queue s)) x")
  case (Pair ch e)
  show ?thesis
  proof (cases e)
    case None
    let ?s1 = "s\<lparr>qs_queue := (qs_queue s)\<lparr>q_chan := ch\<rparr>, qs_incs := qs_incs s + 1, qs_accepted := qs_accepted s @ [x]\<rparr>"
    have 1: "qstep mp s ?s1" by (rule qstep.push) (use Pair None in simp)
    let ?s2 = "?s1\<lparr>qs_metrics := inc_queue_size (q_name (qs_queue ?s1)) (qs_metrics ?s1), qs_incs := qs_incs ?s1 - 1\<rparr>"
    have 2: "qstep mp ?s1 ?s2" by (rule qstep.inc) simp
    have "(qstep mp)\<^sup>*\<^sup>* s ?s2" by (rule converse_rtranclp_into_rtranclp, rule 1, rule r_into_rtranclp, rule 2)
    then show ?thesis
      using assms Pair None by (intro exI [of _ ?s2]) (auto simp: queue_send_lossy_def queue_try_send_def)
  next
    case (Some err)
    let ?s1 = "s\<lparr>qs_queue := (qs_queue s)\<lparr>q_chan := ch\<rparr>,
        qs_metrics := inc_dropped (q_name (qs_queue s)) (qs_metrics s), qs_dropped := qs_dropped s + 1\<rparr>"
    have "(qstep mp)\<^sup>*\<^sup>* s ?s1" by (rule r_into_rtranclp, rule qstep.reject) (use Pair Some in simp)
    then show ?thesis
      using assms Pair Some by (intro exI [of _ ?s1]) (auto simp: queue_send_lossy_def queue_try_send_def)
  qed
qed

definition qinv :: "('ch \<Rightarrow> 'a list) \<Rightarrow> ('ch \<Rightarrow> nat) \<Rightarrow> nat \<Rightarrow> string \<Rightarrow> ('ch, 'a) qstate \<Rightarrow> bool" where
  "qinv items cap sz name s \<longleftrightarrow>
     q_name (qs_queue s) = name \<and> cap (q_chan (qs_queue s)) = sz \<and>
     length (items (q_chan (qs_queue s))) \<le> sz \<and>
     qs_accepted s = qs_delivered s @ items (q_chan (qs_queue s)) \<and>
     queue_size (qs_metrics s) name + of_nat (qs_incs s) =
       of_nat (length (items (q_chan (qs_queue s)))) + of_nat (qs_decs s) \<and>
     dropped (qs_metrics s) name = of_nat (qs_dropped s)"

lemma qinv_init: "mpsc_laws mp items cap \<Longrightarrow> qinv items cap sz name (qinit mp sz name)"
  by (simp add: qinv_def qinit_def new_queue_def mpsc_laws_def metrics_init_def)

lemma qinv_step:
  assumes "qstep mp s s'" and laws: "mpsc_laws mp items cap" and inv: "qinv items cap sz name s"
  shows "qinv items cap sz name s'"
  using assms(1)
proof cases
  case (push x ch)
  with laws have "items ch = items (q_chan (qs_queue s)) @ [x]" "length (items (q_chan (qs_queue s))) < cap (q_chan (qs_queue s))"
    "cap ch = cap (q_chan (qs_queue s))" unfolding mpsc_laws_def by blast+
  with push inv show ?thesis by (auto simp: qinv_def)
next
  case inc
  then obtain k where "qs_incs s = Suc k" by (cases "qs_incs s") auto
  with inc inv show ?thesis by (auto simp: qinv_def inc_queue_size_def algebra_simps)
next
  case (reject x ch e)
  with laws have "items ch = items (q_chan (qs_queue s))" "cap ch = cap (q_chan (qs_queue s))"
    unfolding mpsc_laws_def by blast+
  with reject inv show ?thesis by (auto simp: qinv_def inc_dropped_def)
next
  case (pop ch x)
  with laws have "items (q_chan (qs_queue s)) = x # items ch" "cap ch = cap (q_chan (qs_queue s))"
    unfolding mpsc_laws_def by blast+
  with pop inv show ?thesis by (auto simp: qinv_def algebra_simps)
next
  case dec
  then obtain k where "qs_decs s = Suc k" by (cases "qs_decs s") auto
  with dec inv show ?thesis by (auto simp: qinv_def dec_queue_size_def algebra_simps)
qed

lemma qreachable_inv:
  assumes "qreachable mp sz name s" and laws: "mpsc_laws mp items cap"
  shows "qinv items cap sz name s"
  using assms(1)
  by (induction rule: rtranclp_induct) (auto intro: qinv_init [OF laws] qinv_step [OF _ laws])

section \<open>Properties\<close>

text \<open>A channel as its bound and its list of messages, for the witnesses.\<close>

definition demo_mpsc :: "(nat \<times> 'a list, 'a) mpsc" where
  "demo_mpsc = \<lparr>ch_new = \<lambda>n. (n, []),
     ch_try_send = \<lambda>ch x. if length (snd ch) < fst ch then ((fst ch, snd ch @ [x]), None)
       else if length (snd ch) = fst ch then (ch, Some Full) else (ch, Some Closed),
     ch_recv = \<lambda>ch. case snd ch of [] \<Rightarrow> (ch, Pending) | x # xs \<Rightarrow> ((fst ch, xs), Ready (Some x))\<rparr>"

lemma demo_mpsc_laws: "mpsc_laws demo_mpsc snd fst"
  by (auto simp: mpsc_laws_def demo_mpsc_def split: if_splits list.splits)

lemma demo_gauge_wraps:
  "\<exists>s :: (nat \<times> nat list, nat) qstate. qreachable demo_mpsc 1 ''q'' s \<and> snd (q_chan (qs_queue s)) = [] \<and> queue_size (qs_metrics s) ''q'' = u32_max"
proof -
  let ?s0 = "qinit demo_mpsc 1 ''q'' :: (nat \<times> nat list, nat) qstate"
  let ?s1 = "?s0\<lparr>qs_queue := (qs_queue ?s0)\<lparr>q_chan := (1, [5])\<rparr>, qs_incs := qs_incs ?s0 + 1, qs_accepted := qs_accepted ?s0 @ [5]\<rparr>"
  let ?s2 = "?s1\<lparr>qs_queue := (qs_queue ?s1)\<lparr>q_chan := (1, [])\<rparr>, qs_decs := qs_decs ?s1 + 1, qs_delivered := qs_delivered ?s1 @ [5]\<rparr>"
  let ?s3 = "?s2\<lparr>qs_metrics := dec_queue_size (q_name (qs_queue ?s2)) (qs_metrics ?s2), qs_decs := qs_decs ?s2 - 1\<rparr>"
  have 1: "qstep demo_mpsc ?s0 ?s1" by (rule qstep.push) (simp add: qinit_def new_queue_def demo_mpsc_def)
  have 2: "qstep demo_mpsc ?s1 ?s2" by (rule qstep.pop) (simp add: demo_mpsc_def)
  have 3: "qstep demo_mpsc ?s2 ?s3" by (rule qstep.dec) simp
  from 1 2 3 have "qreachable demo_mpsc 1 ''q'' ?s3"
    by (meson rtranclp.rtrancl_into_rtrancl rtranclp.rtrancl_refl)
  then show ?thesis
    by (intro exI [of _ ?s3]) (simp add: qinit_def new_queue_def dec_queue_size_def metrics_init_def)
qed




end
