(* ===== verification/Request_Client.thy ===== *)
theory Request_Client
  imports Wrapped Queue Codec
begin

text \<open>
  The two behaviours on top of libp2p's request-response protocol: the client
  (transport/src/behaviour/request_client.rs), which retries a failed request once after the
  peer has been looked up and connected, and the server
  (transport/src/behaviour/request_server.rs), which hands incoming requests on.

  The protocol is represented by the calls made on it (\<open>rr_call\<close>); the record \<open>rr\<close> gives the
  identifiers it assigns and the events it reports as functions of the calls so far.
  The iteration order of a hash set is the parameter \<open>order\<close>.
\<close>

section \<open>The request-response protocol\<close>

datatype support = Inbound | Outbound

datatype ('req, 'resp) rr_call =
    RrNew proto_codec string support "nat option" \<comment> \<open>codec, protocol, direction, request timeout if not the default\<close>
  | RrSend peer_id 'req
  | RrRespond resp_chan 'resp
  | RrPoll

datatype ('req, 'resp) rr_event =
    RrResponse peer_id req_id 'resp
  | RrRequest peer_id 'req resp_chan
  | RrOutboundFailure peer_id req_id
  | RrInboundFailure peer_id string
  | RrResponseSent peer_id

record ('req, 'resp, 'cmd) rr =
  rr_id :: "('req, 'resp) rr_call list \<Rightarrow> req_id"
  rr_respond_ok :: "('req, 'resp) rr_call list \<Rightarrow> bool"
  rr_poll_result :: "('req, 'resp) rr_call list \<Rightarrow> (('req, 'resp) rr_event, 'cmd) to_swarm poll"

definition rr_send_request ::
    "('req, 'resp, 'cmd) rr \<Rightarrow> ('req, 'resp) rr_call list \<Rightarrow> peer_id \<Rightarrow> 'req \<Rightarrow> ('req, 'resp) rr_call list \<times> req_id" where
  "rr_send_request rr calls p request = (let calls = calls @ [RrSend p request] in (calls, rr_id rr calls))"

section \<open>The client\<close>

datatype 'resp client_event =
    Response peer_id req_id 'resp
  | PeerUnknown peer_id
  | Timeout peer_id req_id

record client_config =
  cc_max_buffered :: nat
  cc_send_timeout :: nat \<comment> \<open>seconds\<close>
  cc_resp_timeout :: nat

definition client_config_default :: client_config where
  "client_config_default = \<lparr>cc_max_buffered = 1024, cc_send_timeout = 60, cc_resp_timeout = 60\<rparr>"

record ('req, 'resp, 'fm) client =
  cl_inner :: "('req, 'resp) rr_call list"
  cl_original_requests :: "(req_id, 'req) fmap"
  cl_waiting_for_connection :: "(peer_id, req_id fset) fmap"
  cl_resubmitted_requests :: "(req_id, req_id) fmap"
  cl_lookup_timeouts :: 'fm
  cl_max_buffered :: nat

definition client_new :: "'fm futures_map \<Rightarrow> proto_codec \<Rightarrow> string \<Rightarrow> client_config \<Rightarrow> ('req, 'resp, 'fm) client" where
  "client_new fm codec protocol cfg =
     \<lparr>cl_inner = [RrNew codec protocol Outbound (Some (cc_resp_timeout cfg))],
      cl_original_requests = fmempty,
      cl_waiting_for_connection = fmempty,
      cl_resubmitted_requests = fmempty,
      cl_lookup_timeouts = fm_new fm (cc_send_timeout cfg) (cc_max_buffered cfg),
      cl_max_buffered = cc_max_buffered cfg\<rparr>"

definition client_try_send_request ::
    "('req, 'resp, 'cmd) rr \<Rightarrow> ('req, 'resp, 'fm) client \<Rightarrow> peer_id \<Rightarrow> 'req \<Rightarrow>
     ('req, 'resp, 'fm) client \<times> (queue_full + req_id)" where
  "client_try_send_request rr self peer_id request =
     (if cl_max_buffered self \<le> fcard (fmdom (cl_original_requests self)) then (self, Inl QueueFull)
      else let (calls, req_id) = rr_send_request rr (cl_inner self) peer_id request in
           (self\<lparr>cl_inner := calls,
                 cl_original_requests := fmupd req_id request (cl_original_requests self)\<rparr>,
            Inr req_id))"

text \<open>\<open>HashMap::remove(..).unwrap_or_default()\<close> on the waiting requests.\<close>

definition buffered_for :: "('req, 'resp, 'fm) client \<Rightarrow> peer_id \<Rightarrow> req_id fset" where
  "buffered_for self peer_id =
     (case fmlookup (cl_waiting_for_connection self) peer_id of Some ids \<Rightarrow> ids | None \<Rightarrow> {||})"

definition client_on_timeout ::
    "(req_id fset \<Rightarrow> req_id list) \<Rightarrow> ('req, 'resp, 'fm) client \<Rightarrow> peer_id \<Rightarrow>
     ('req, 'resp, 'fm) client \<times> ('resp client_event, 'cmd) to_swarm list" where
  "client_on_timeout order self peer_id =
     (let buffered = order (buffered_for self peer_id) in
      (self\<lparr>cl_waiting_for_connection := fmdrop peer_id (cl_waiting_for_connection self),
            cl_original_requests := fold fmdrop buffered (cl_original_requests self)\<rparr>,
       map (\<lambda>req_id. GenerateEvent (Timeout peer_id req_id)) buffered))"

fun resubmit ::
    "('req, 'resp, 'cmd) rr \<Rightarrow> peer_id \<Rightarrow> ('req, 'resp, 'fm) client \<Rightarrow> req_id list \<Rightarrow> ('req, 'resp, 'fm) client" where
  "resubmit rr peer_id self [] = self"
| "resubmit rr peer_id self (old_id # rest) =
     (case fmlookup (cl_original_requests self) old_id of
        None \<Rightarrow> resubmit rr peer_id self rest
      | Some request \<Rightarrow>
          let (calls, new_id) = rr_send_request rr (cl_inner self) peer_id request in
          resubmit rr peer_id
            (self\<lparr>cl_inner := calls,
                  cl_original_requests := fmdrop old_id (cl_original_requests self),
                  cl_resubmitted_requests := fmupd new_id old_id (cl_resubmitted_requests self)\<rparr>) rest)"

definition client_on_connection_established ::
    "('req, 'resp, 'cmd) rr \<Rightarrow> 'fm futures_map \<Rightarrow> (req_id fset \<Rightarrow> req_id list) \<Rightarrow>
     ('req, 'resp, 'fm) client \<Rightarrow> peer_id \<Rightarrow> ('req, 'resp, 'fm) client" where
  "client_on_connection_established rr fm order self peer_id =
     (let buffered = buffered_for self peer_id in
      resubmit rr peer_id
        (self\<lparr>cl_lookup_timeouts := fst (fm_remove fm (cl_lookup_timeouts self) peer_id),
              cl_waiting_for_connection := fmdrop peer_id (cl_waiting_for_connection self)\<rparr>)
        (order buffered))"

definition client_on_success ::
    "('req, 'resp, 'fm) client \<Rightarrow> peer_id \<Rightarrow> req_id \<Rightarrow> 'resp \<Rightarrow>
     ('req, 'resp, 'fm) client \<times> ('resp client_event, 'cmd) to_swarm list" where
  "client_on_success self peer_id req_id response =
     (let original_id = (case fmlookup (cl_resubmitted_requests self) req_id of Some old_id \<Rightarrow> old_id | None \<Rightarrow> req_id) in
      (self\<lparr>cl_original_requests := fmdrop req_id (cl_original_requests self),
            cl_resubmitted_requests := fmdrop req_id (cl_resubmitted_requests self)\<rparr>,
       [GenerateEvent (Response peer_id original_id response)]))"

text \<open>The result of \<open>try_push\<close> is dropped, as in the source.\<close>

definition client_on_failure ::
    "'fm futures_map \<Rightarrow> ('req, 'resp, 'fm) client \<Rightarrow> peer_id \<Rightarrow> req_id \<Rightarrow>
     ('req, 'resp, 'fm) client \<times> ('resp client_event, 'cmd) to_swarm list" where
  "client_on_failure fm self peer_id req_id =
     (case fmlookup (cl_resubmitted_requests self) req_id of
        Some old_id \<Rightarrow>
          (self\<lparr>cl_resubmitted_requests := fmdrop req_id (cl_resubmitted_requests self)\<rparr>,
           [GenerateEvent (Timeout peer_id old_id)])
      | None \<Rightarrow>
          let self = self\<lparr>cl_waiting_for_connection :=
                fmupd peer_id (finsert req_id (buffered_for self peer_id)) (cl_waiting_for_connection self)\<rparr> in
          if \<not> fm_contains fm (cl_lookup_timeouts self) peer_id
          then (self\<lparr>cl_lookup_timeouts := fst (fm_try_push fm (cl_lookup_timeouts self) peer_id)\<rparr>,
                [GenerateEvent (PeerUnknown peer_id)])
          else (self, []))"

definition client_on_swarm_event ::
    "('req, 'resp, 'cmd) rr \<Rightarrow> 'fm futures_map \<Rightarrow> (req_id fset \<Rightarrow> req_id list) \<Rightarrow>
     ('req, 'resp, 'fm) client \<Rightarrow> swarm_event \<Rightarrow>
     (('req, 'resp, 'fm) client \<times> ('resp client_event, 'cmd) to_swarm list) run" where
  "client_on_swarm_event rr fm order self event =
     Done (case event of
             ConnectionEstablished peer_id _ \<Rightarrow> client_on_connection_established rr fm order self peer_id
           | _ \<Rightarrow> self, [])"

definition client_on_inner_event ::
    "'fm futures_map \<Rightarrow> ('req, 'resp, 'fm) client \<Rightarrow> ('req, 'resp) rr_event \<Rightarrow>
     (('req, 'resp, 'fm) client \<times> ('resp client_event, 'cmd) to_swarm list) run" where
  "client_on_inner_event fm self ev =
     Done (case ev of
             RrResponse peer request_id response \<Rightarrow> client_on_success self peer request_id response
           | RrOutboundFailure peer request_id \<Rightarrow> client_on_failure fm self peer request_id
           | _ \<Rightarrow> (self, []))"

definition client_poll ::
    "'fm futures_map \<Rightarrow> (req_id fset \<Rightarrow> req_id list) \<Rightarrow> nat \<Rightarrow> ('req, 'resp, 'fm) client \<Rightarrow>
     (('req, 'resp, 'fm) client \<times> ('resp client_event, 'cmd) to_swarm list poll) run" where
  "client_poll fm order now self =
     (case fm_poll fm now (cl_lookup_timeouts self) of
        (ts, Ready (peer_id, Inl _)) \<Rightarrow>
          let (self, evs) = client_on_timeout order (self\<lparr>cl_lookup_timeouts := ts\<rparr>) peer_id in
          Done (self, Ready evs)
      | (ts, Pending) \<Rightarrow> Done (self\<lparr>cl_lookup_timeouts := ts\<rparr>, Pending)
      | (ts, Ready (peer_id, Inr _)) \<Rightarrow> Panic)"

definition client_wrapper ::
    "('req, 'resp, 'cmd) rr \<Rightarrow> 'fm futures_map \<Rightarrow> (req_id fset \<Rightarrow> req_id list) \<Rightarrow>
     (('req, 'resp) rr_call list \<Rightarrow> 'he conn_call \<Rightarrow> 'r) \<Rightarrow> nat \<Rightarrow>
     (('req, 'resp, 'fm) client, swarm_event, ('req, 'resp) rr_event, 'resp client_event, 'cmd, 'he, 'r) wrapper" where
  "client_wrapper rr fm order conn now =
     \<lparr>w_inner_call = \<lambda>s c. (s, conn (cl_inner s) c),
      w_inner_on_swarm_event = \<lambda>s _. Done s,
      w_inner_poll = \<lambda>s. let calls = cl_inner s @ [RrPoll] in Done (s\<lparr>cl_inner := calls\<rparr>, rr_poll_result rr calls),
      w_on_swarm_event = client_on_swarm_event rr fm order,
      w_on_inner_event = client_on_inner_event fm,
      w_poll = client_poll fm order now\<rparr>"

section \<open>The server\<close>

record ('req, 'resp) server =
  sv_inner :: "('req, 'resp) rr_call list"

record 'req request =
  rq_peer_id :: peer_id
  rq_request :: 'req
  rq_response_channel :: resp_chan

definition server_new :: "proto_codec \<Rightarrow> string \<Rightarrow> ('req, 'resp) server" where
  "server_new codec protocol = \<lparr>sv_inner = [RrNew codec protocol Inbound None]\<rparr>"

text \<open>The response comes back (\<open>Inl\<close>) if it could not be sent.\<close>

definition server_try_send_response ::
    "('req, 'resp, 'cmd) rr \<Rightarrow> ('req, 'resp) server \<Rightarrow> resp_chan \<Rightarrow> 'resp \<Rightarrow>
     ('req, 'resp) server \<times> ('resp + unit)" where
  "server_try_send_response rr self ch response =
     (let calls = sv_inner self @ [RrRespond ch response] in
      (self\<lparr>sv_inner := calls\<rparr>, if rr_respond_ok rr calls then Inr () else Inl response))"

definition server_on_inner_event ::
    "('req, 'resp) server \<Rightarrow> ('req, 'resp) rr_event \<Rightarrow>
     (('req, 'resp) server \<times> ('req request, 'cmd) to_swarm list) run" where
  "server_on_inner_event self ev =
     Done (self,
       case ev of
         RrRequest peer request channel \<Rightarrow>
           [GenerateEvent \<lparr>rq_peer_id = peer, rq_request = request, rq_response_channel = channel\<rparr>]
       | _ \<Rightarrow> [])"

definition server_wrapper ::
    "('req, 'resp, 'cmd) rr \<Rightarrow> (('req, 'resp) rr_call list \<Rightarrow> 'he conn_call \<Rightarrow> 'r) \<Rightarrow>
     (('req, 'resp) server, swarm_event, ('req, 'resp) rr_event, 'req request, 'cmd, 'he, 'r) wrapper" where
  "server_wrapper rr conn =
     \<lparr>w_inner_call = \<lambda>s c. (s, conn (sv_inner s) c),
      w_inner_on_swarm_event = \<lambda>s _. Done s,
      w_inner_poll = \<lambda>s. let calls = sv_inner s @ [RrPoll] in Done (s\<lparr>sv_inner := calls\<rparr>, rr_poll_result rr calls),
      w_on_swarm_event = default_on_swarm_event,
      w_on_inner_event = server_on_inner_event,
      w_poll = default_poll\<rparr>"

interpretation server_wrapped: behaviour_wrapper "server_wrapper rr conn" "\<lambda>_. True" "\<lambda>_ _. True" "\<lambda>_ _. True"
  by unfold_locales
     (simp_all add: server_wrapper_def default_on_swarm_event_def default_poll_def server_on_inner_event_def Let_def)

text \<open>The responses that the server has given to the protocol, in order, with their channels.\<close>

fun response_of :: "('req, 'resp) rr_call \<Rightarrow> (resp_chan \<times> 'resp) option" where
  "response_of (RrRespond ch r) = Some (ch, r)"
| "response_of _ = None"

definition responses :: "('req, 'resp) server \<Rightarrow> (resp_chan \<times> 'resp) list" where
  "responses s = List.map_filter response_of (sv_inner s)"

lemma responses_respond [simp]:
  "responses (fst (server_try_send_response rr s ch r)) = responses s @ [(ch, r)]"
  by (simp add: responses_def server_try_send_response_def Let_def List.map_filter_def)

lemma server_round_responses: "round (server_wrapper rr conn) s evs s' \<Longrightarrow> responses s' = responses s"
  by (erule round.cases)
     (auto simp: server_wrapper_def default_poll_def server_on_inner_event_def Let_def responses_def List.map_filter_def)

lemma server_poll_responses:
  assumes "wrapped_poll (server_wrapper rr conn) w = Some (Done (w', r))"
  shows "responses (wrapper w') = responses (wrapper w)"
proof -
  have rounds: "rounds (server_wrapper rr conn) s evs s' \<Longrightarrow> responses s' = responses s" for s evs s'
    by (induction rule: rounds.induct) (auto dest: server_round_responses)
  have idle: "idle (server_wrapper rr conn) s s' \<Longrightarrow> responses s' = responses s" for s s'
    by (auto simp: idle_def server_wrapper_def default_poll_def Let_def responses_def List.map_filter_def)
  from wrapped_poll_result [OF assms] show ?thesis
    by (cases r) (auto simp: poll_result_def dest!: rounds idle)
qed

section \<open>What the client relies on\<close>

text \<open>The requests sent so far, with their identifiers, and those whose outcome has been reported.\<close>

definition history :: "('c list \<Rightarrow> 'c \<Rightarrow> 'b \<Rightarrow> bool) \<Rightarrow> 'c list \<Rightarrow> 'b set" where
  "history P calls = {y. \<exists>i < length calls. P (take (Suc i) calls) (calls ! i) y}"

definition sent :: "('req, 'resp, 'cmd) rr \<Rightarrow> ('req, 'resp) rr_call list \<Rightarrow> (req_id \<times> peer_id) set" where
  "sent rr = history (\<lambda>calls c ip. fst ip = rr_id rr calls \<and> (\<exists>r. c = RrSend (snd ip) r))"

fun outcome :: "('req, 'resp) rr_event \<Rightarrow> (req_id \<times> peer_id) option" where
  "outcome (RrResponse p i r) = Some (i, p)"
| "outcome (RrOutboundFailure p i) = Some (i, p)"
| "outcome _ = None"

definition reported :: "('req, 'resp, 'cmd) rr \<Rightarrow> ('req, 'resp) rr_call list \<Rightarrow> (req_id \<times> peer_id) set" where
  "reported rr = history (\<lambda>calls c ip. c = RrPoll \<and>
     (\<exists>ev. rr_poll_result rr calls = Ready (GenerateEvent ev) \<and> outcome ev = Some ip))"

definition outstanding :: "('req, 'resp, 'cmd) rr \<Rightarrow> ('req, 'resp) rr_call list \<Rightarrow> (req_id \<times> peer_id) set" where
  "outstanding rr calls = sent rr calls - reported rr calls"

text \<open>
  Documented behaviour of the protocol: identifiers are unique, and an outcome is reported
  only for a request that has been sent to that peer, and once.
\<close>

definition rr_laws :: "('req, 'resp, 'cmd) rr \<Rightarrow> bool" where
  "rr_laws rr \<longleftrightarrow>
     (\<forall>calls p r. rr_id rr (calls @ [RrSend p r]) \<notin> fst ` sent rr calls) \<and>
     (\<forall>calls ev ip. rr_poll_result rr (calls @ [RrPoll]) = Ready (GenerateEvent ev) \<and> outcome ev = Some ip \<longrightarrow>
        ip \<in> outstanding rr calls)"

text \<open>Iterating over a hash set visits each element once.\<close>

definition order_laws :: "(req_id fset \<Rightarrow> req_id list) \<Rightarrow> bool" where
  "order_laws order \<longleftrightarrow> (\<forall>ids. set (order ids) = fset ids \<and> distinct (order ids))"

lemma history_snoc [simp]:
  "history P [] = {}"
  "history P (calls @ [c]) = history P calls \<union> {y. P (calls @ [c]) c y}"
proof -
  have "(\<exists>i < length (calls @ [c]). Q i) \<longleftrightarrow> (\<exists>i < length calls. Q i) \<or> Q (length calls)" for Q
    by (auto simp: less_Suc_eq)
  then show "history P (calls @ [c]) = history P calls \<union> {y. P (calls @ [c]) c y}"
    unfolding history_def by (auto simp: nth_append)
qed (simp add: history_def)

lemma history_single [simp]: "history P [c] = {y. P [c] c y}"
  by (simp add: history_def)

lemma sent_snoc [simp]:
  "sent rr [] = {}"
  "sent rr (calls @ [RrSend p r]) = insert (rr_id rr (calls @ [RrSend p r]), p) (sent rr calls)"
  "sent rr (calls @ [RrPoll]) = sent rr calls"
  "sent rr [RrNew co pr su t] = {}"
  by (auto simp: sent_def)

lemma reported_snoc [simp]:
  "reported rr [] = {}"
  "reported rr (calls @ [RrSend p r]) = reported rr calls"
  "reported rr (calls @ [RrPoll]) = reported rr calls \<union>
     {ip. \<exists>ev. rr_poll_result rr (calls @ [RrPoll]) = Ready (GenerateEvent ev) \<and> outcome ev = Some ip}"
  "reported rr [RrNew co pr su t] = {}"
  by (auto simp: reported_def)

lemma sent_functional:
  assumes "rr_laws rr"
  shows "(i, p) \<in> sent rr calls \<Longrightarrow> (i, q) \<in> sent rr calls \<Longrightarrow> p = q"
proof (induction calls rule: rev_induct)
  case (snoc c calls)
  have "rr_id rr (calls @ [RrSend p' r]) \<notin> fst ` sent rr calls" for p' r
    using assms by (simp add: rr_laws_def)
  with snoc show ?case
    by (cases c) (force simp: sent_def)+
qed simp

section \<open>The invariant of the client\<close>

definition orig :: "('req, 'resp, 'fm) client \<Rightarrow> req_id set" where
  "orig s = fmdom' (cl_original_requests s)"

definition waits :: "('req, 'resp, 'fm) client \<Rightarrow> peer_id \<Rightarrow> req_id set" where
  "waits s p = fset (buffered_for s p)"

definition waiting :: "('req, 'resp, 'fm) client \<Rightarrow> req_id set" where
  "waiting s = (\<Union>p. waits s p)"

definition resub :: "('req, 'resp, 'fm) client \<Rightarrow> req_id \<Rightarrow> req_id option" where
  "resub s = fmlookup (cl_resubmitted_requests s)"

text \<open>The requests, by their original identifiers, that are still being worked on.\<close>

definition live :: "('req, 'resp, 'fm) client \<Rightarrow> req_id set" where
  "live s = orig s \<union> ran (resub s)"

text \<open>
  Waiting requests are buffered, belong to the peer they wait for, and wait for one peer
  only; exactly the peers waited for have a running lookup timer; the buffer respects its
  bound; identifiers are of requests that have been sent, a resubmitted request to the same
  peer as the original one; and the client knows every outstanding request.
\<close>

definition client_inv ::
    "('req, 'resp, 'cmd) rr \<Rightarrow> 'fm futures_map \<Rightarrow> ('fm \<Rightarrow> nat) \<Rightarrow> ('req, 'resp, 'fm) client \<Rightarrow> bool" where
  "client_inv rr fm cap s \<longleftrightarrow>
     rr_laws rr \<and> futures_map_laws fm cap \<and>
     (\<forall>p. waits s p \<subseteq> orig s \<and> (\<forall>i\<in>waits s p. (i, p) \<in> sent rr (cl_inner s))) \<and>
     (\<forall>p. p \<in> fm_keys fm (cl_lookup_timeouts s) \<longleftrightarrow> waits s p \<noteq> {}) \<and>
     (\<forall>p q. waits s p \<inter> waits s q \<noteq> {} \<longrightarrow> p = q) \<and>
     (\<forall>p. fmlookup (cl_waiting_for_connection s) p \<noteq> Some {||}) \<and>
     cap (cl_lookup_timeouts s) = cl_max_buffered s \<and> card (orig s) \<le> cl_max_buffered s \<and>
     orig s \<subseteq> fst ` sent rr (cl_inner s) \<and>
     (\<forall>new old. resub s new = Some old \<longrightarrow>
        (\<exists>p. (new, p) \<in> sent rr (cl_inner s) \<and> (old, p) \<in> sent rr (cl_inner s)) \<and>
        new \<notin> orig s \<and> old \<notin> orig s) \<and>
     inj_on (resub s) (dom (resub s)) \<and>
     fst ` outstanding rr (cl_inner s) \<subseteq> (orig s - waiting s) \<union> dom (resub s)"

text \<open>
  Conversely, what the client waits for is outstanding, except for the identifiers in \<open>X\<close>:
  those whose outcome has been reported and is about to be handled.
\<close>

definition client_settled :: "('req, 'resp, 'cmd) rr \<Rightarrow> req_id set \<Rightarrow> ('req, 'resp, 'fm) client \<Rightarrow> bool" where
  "client_settled rr X s \<longleftrightarrow> (orig s - waiting s) \<union> dom (resub s) - X \<subseteq> fst ` outstanding rr (cl_inner s)"

text \<open>The requests that a list of events answers: each with a response or with a timeout.\<close>

fun terminal :: "('resp client_event, 'cmd) to_swarm \<Rightarrow> (req_id \<times> peer_id) list" where
  "terminal (GenerateEvent (Response p i r)) = [(i, p)]"
| "terminal (GenerateEvent (Timeout p i)) = [(i, p)]"
| "terminal _ = []"

definition terminated :: "('resp client_event, 'cmd) to_swarm list \<Rightarrow> (req_id \<times> peer_id) list" where
  "terminated evs = concat (map terminal evs)"

lemma terminated_simps [simp]:
  "terminated [] = []" "terminated (e # evs) = terminal e @ terminated evs"
  "terminated (evs @ evs') = terminated evs @ terminated evs'"
  by (simp_all add: terminated_def)

lemma terminated_timeouts:
  "terminated (map (\<lambda>i. GenerateEvent (Timeout p i)) ids) = map (\<lambda>i. (i, p)) ids"
  by (induction ids) simp_all

text \<open>
  What every step of the client guarantees: the invariant is kept, and the requests answered
  by its events are requests that were live, sent to that peer, and are live no more.
\<close>

definition client_progress ::
    "('req, 'resp, 'cmd) rr \<Rightarrow> 'fm futures_map \<Rightarrow> ('fm \<Rightarrow> nat) \<Rightarrow> ('req, 'resp, 'fm) client \<Rightarrow>
     ('resp client_event, 'cmd) to_swarm list \<Rightarrow> ('req, 'resp, 'fm) client \<Rightarrow> bool" where
  "client_progress rr fm cap s evs s' \<longleftrightarrow>
     client_inv rr fm cap s' \<and> sent rr (cl_inner s) \<subseteq> sent rr (cl_inner s') \<and>
     distinct (map fst (terminated evs)) \<and> set (terminated evs) \<subseteq> sent rr (cl_inner s') \<and>
     fst ` set (terminated evs) \<subseteq> live s \<and> live s' = live s - fst ` set (terminated evs)"

lemma reported_sent: "rr_laws rr \<Longrightarrow> reported rr calls \<subseteq> sent rr calls"
proof (induction calls rule: rev_induct)
  case (snoc c calls)
  then show ?case
    by (cases c) (auto simp: reported_def sent_def rr_laws_def outstanding_def)
qed simp

lemma outstanding_send:
  assumes "rr_laws rr"
  shows "outstanding rr (calls @ [RrSend p r]) =
    insert (rr_id rr (calls @ [RrSend p r]), p) (outstanding rr calls)"
    and "rr_id rr (calls @ [RrSend p r]) \<notin> fst ` sent rr calls"
proof -
  show f: "rr_id rr (calls @ [RrSend p r]) \<notin> fst ` sent rr calls"
    using assms by (simp add: rr_laws_def)
  with reported_sent [OF assms, of calls] show "outstanding rr (calls @ [RrSend p r]) =
      insert (rr_id rr (calls @ [RrSend p r]), p) (outstanding rr calls)"
    by (force simp: outstanding_def)
qed

lemma client_invD:
  assumes "client_inv rr fm cap s"
  shows "rr_laws rr" "futures_map_laws fm cap"
    "waits s p \<subseteq> orig s" "i \<in> waits s p \<Longrightarrow> (i, p) \<in> sent rr (cl_inner s)"
    "p \<in> fm_keys fm (cl_lookup_timeouts s) \<longleftrightarrow> waits s p \<noteq> {}"
    "i \<in> waits s p \<Longrightarrow> i \<in> waits s q \<Longrightarrow> p = q"
    "fmlookup (cl_waiting_for_connection s) p \<noteq> Some {||}"
    "cap (cl_lookup_timeouts s) = cl_max_buffered s" "card (orig s) \<le> cl_max_buffered s"
    "orig s \<subseteq> fst ` sent rr (cl_inner s)"
    "resub s new = Some old \<Longrightarrow> \<exists>p. (new, p) \<in> sent rr (cl_inner s) \<and> (old, p) \<in> sent rr (cl_inner s)"
    "resub s new = Some old \<Longrightarrow> new \<notin> orig s" "resub s new = Some old \<Longrightarrow> old \<notin> orig s"
    "inj_on (resub s) (dom (resub s))"
    "fst ` outstanding rr (cl_inner s) \<subseteq> (orig s - waiting s) \<union> dom (resub s)"
  using assms unfolding client_inv_def by (simp_all only:) (elim conjE; blast)+

lemma client_invI:
  assumes "rr_laws rr" "futures_map_laws fm cap"
    "\<And>p. waits s p \<subseteq> orig s" "\<And>i p. i \<in> waits s p \<Longrightarrow> (i, p) \<in> sent rr (cl_inner s)"
    "\<And>p. p \<in> fm_keys fm (cl_lookup_timeouts s) \<longleftrightarrow> waits s p \<noteq> {}"
    "\<And>i p q. i \<in> waits s p \<Longrightarrow> i \<in> waits s q \<Longrightarrow> p = q"
    "\<And>p. fmlookup (cl_waiting_for_connection s) p \<noteq> Some {||}"
    "cap (cl_lookup_timeouts s) = cl_max_buffered s" "card (orig s) \<le> cl_max_buffered s"
    "orig s \<subseteq> fst ` sent rr (cl_inner s)"
    "\<And>new old. resub s new = Some old \<Longrightarrow> \<exists>p. (new, p) \<in> sent rr (cl_inner s) \<and> (old, p) \<in> sent rr (cl_inner s)"
    "\<And>new old. resub s new = Some old \<Longrightarrow> new \<notin> orig s" "\<And>new old. resub s new = Some old \<Longrightarrow> old \<notin> orig s"
    "inj_on (resub s) (dom (resub s))"
    "fst ` outstanding rr (cl_inner s) \<subseteq> (orig s - waiting s) \<union> dom (resub s)"
  shows "client_inv rr fm cap s"
proof -
  have 1: "\<forall>p. waits s p \<subseteq> orig s \<and> (\<forall>i\<in>waits s p. (i, p) \<in> sent rr (cl_inner s))"
    using assms(3,4) by blast
  have 2: "\<forall>p q. waits s p \<inter> waits s q \<noteq> {} \<longrightarrow> p = q" using assms(6) by blast
  have 3: "\<forall>new old. resub s new = Some old \<longrightarrow>
      (\<exists>p. (new, p) \<in> sent rr (cl_inner s) \<and> (old, p) \<in> sent rr (cl_inner s)) \<and> new \<notin> orig s \<and> old \<notin> orig s"
    using assms(11-13) by blast
  show ?thesis
    unfolding client_inv_def using 1 2 3 assms(5,7) by (intro conjI) (assumption | rule assms allI)+
qed

lemma waiting_iff: "i \<in> waiting s \<longleftrightarrow> (\<exists>p. i \<in> waits s p)"
  by (simp add: waiting_def)

lemma orig_facts [simp]:
  "orig (s\<lparr>cl_inner := c\<rparr>) = orig s"
  "orig (s\<lparr>cl_waiting_for_connection := w\<rparr>) = orig s"
  "orig (s\<lparr>cl_resubmitted_requests := r\<rparr>) = orig s"
  "orig (s\<lparr>cl_lookup_timeouts := t\<rparr>) = orig s"
  "orig (s\<lparr>cl_original_requests := fmupd i q (cl_original_requests s)\<rparr>) = insert i (orig s)"
  "orig (s\<lparr>cl_original_requests := fmdrop i (cl_original_requests s)\<rparr>) = orig s - {i}"
  by (simp_all add: orig_def)

lemma waits_facts [simp]:
  "waits (s\<lparr>cl_inner := c\<rparr>) = waits s"
  "waits (s\<lparr>cl_original_requests := w\<rparr>) = waits s"
  "waits (s\<lparr>cl_resubmitted_requests := r\<rparr>) = waits s"
  "waits (s\<lparr>cl_lookup_timeouts := t\<rparr>) = waits s"
  "waits (s\<lparr>cl_waiting_for_connection := fmdrop p (cl_waiting_for_connection s)\<rparr>) = (waits s)(p := {})"
  "waits (s\<lparr>cl_waiting_for_connection := fmupd p ids (cl_waiting_for_connection s)\<rparr>) = (waits s)(p := fset ids)"
  by (auto simp: waits_def buffered_for_def fun_eq_iff)

lemma resub_facts [simp]:
  "resub (s\<lparr>cl_inner := c\<rparr>) = resub s"
  "resub (s\<lparr>cl_original_requests := w\<rparr>) = resub s"
  "resub (s\<lparr>cl_waiting_for_connection := r\<rparr>) = resub s"
  "resub (s\<lparr>cl_lookup_timeouts := t\<rparr>) = resub s"
  "resub (s\<lparr>cl_resubmitted_requests := fmdrop i (cl_resubmitted_requests s)\<rparr>) = (resub s)(i := None)"
  "resub (s\<lparr>cl_resubmitted_requests := fmupd i j (cl_resubmitted_requests s)\<rparr>) = (resub s)(i \<mapsto> j)"
  by (auto simp: resub_def fun_eq_iff)

lemma orig_finite [simp]: "finite (orig s)"
  by (simp add: orig_def)

lemma fold_fmdrop_dom: "fmdom' (fold fmdrop ids m) = fmdom' m - set ids"
  by (induction ids arbitrary: m) auto

section \<open>The operations keep the invariant\<close>

lemma client_new_inv:
  assumes "rr_laws rr" and "futures_map_laws fm cap"
  shows "client_inv rr fm cap (client_new fm codec protocol cfg)" and "client_settled rr {} (client_new fm codec protocol cfg)"
    and "live (client_new fm codec protocol cfg) = {}"
  using assms
  by (auto simp: client_inv_def client_settled_def client_new_def orig_def waits_def buffered_for_def
      resub_def outstanding_def futures_map_laws_def live_def ran_def)

lemma client_send_progress:
  assumes inv: "client_inv rr fm cap s" and step: "client_try_send_request rr s p r = (s', Inr i)"
  shows "client_inv rr fm cap s'" and "sent rr (cl_inner s') = insert (i, p) (sent rr (cl_inner s))"
    and "i \<notin> fst ` sent rr (cl_inner s)" and "live s' = insert i (live s)"
    and "client_settled rr {} s \<Longrightarrow> client_settled rr {} s'"
proof -
  note D = client_invD [OF inv]
  let ?calls = "cl_inner s @ [RrSend p r]"
  from step have i: "i = rr_id rr ?calls" and lt: "card (orig s) < cl_max_buffered s"
    and s': "s' = s\<lparr>cl_inner := ?calls, cl_original_requests := fmupd i r (cl_original_requests s)\<rparr>"
    by (auto simp: client_try_send_request_def rr_send_request_def orig_def fcard.rep_eq fmdom'_alt_def Let_def split: if_splits)
  show snt: "sent rr (cl_inner s') = insert (i, p) (sent rr (cl_inner s))" by (simp add: s' i)
  show fresh: "i \<notin> fst ` sent rr (cl_inner s)" using outstanding_send(2) [OF D(1)] by (simp add: i)
  have out: "outstanding rr (cl_inner s') = insert (i, p) (outstanding rr (cl_inner s))"
    using outstanding_send(1) [OF D(1)] by (simp add: s' i)
  have o: "orig s' = insert i (orig s)" and w: "waits s' = waits s" "waiting s' = waiting s" and r: "resub s' = resub s"
    by (simp_all add: s' orig_def resub_def waits_def buffered_for_def waiting_def fun_eq_iff)
  from fresh D(10) have "i \<notin> orig s" by blast
  moreover have "i \<notin> waiting s" using D(3) calculation by (auto simp: waiting_iff)
  moreover have r_fresh: "resub s new = Some old \<Longrightarrow> new \<noteq> i \<and> old \<noteq> i" for new old
    using D(11) [of new old] fresh by force
  ultimately show "client_inv rr fm cap s'"
    using D lt by (intro client_invI) (auto simp: o w r snt out, auto simp: s')
  show "live s' = insert i (live s)" by (simp add: live_def o r)
  show "client_settled rr {} s \<Longrightarrow> client_settled rr {} s'"
    by (auto simp: client_settled_def o w r out)
qed

text \<open>A waiting request is not outstanding.\<close>

lemma waiting_not_outstanding:
  assumes "client_inv rr fm cap s" and "i \<in> waits s p"
  shows "i \<notin> fst ` outstanding rr (cl_inner s)"
  using client_invD(3,12,15) [OF assms(1)] assms(2) by (fastforce simp: waiting_iff dom_def)

lemma resubmit_step:
  assumes inv: "client_inv rr fm cap s" and p: "(old, p) \<in> sent rr (cl_inner s)"
    and old: "old \<notin> waiting s" "old \<notin> fst ` outstanding rr (cl_inner s)"
    and req: "fmlookup (cl_original_requests s) old = Some request"
    and snd: "rr_send_request rr (cl_inner s) p request = (calls, new)"
    and s': "s' = s\<lparr>cl_inner := calls, cl_original_requests := fmdrop old (cl_original_requests s),
                cl_resubmitted_requests := fmupd new old (cl_resubmitted_requests s)\<rparr>"
  shows "client_inv rr fm cap s'" and "live s' = live s"
    and "sent rr (cl_inner s') = insert (new, p) (sent rr (cl_inner s))" and "waits s' = waits s"
    and "outstanding rr (cl_inner s') = insert (new, p) (outstanding rr (cl_inner s))"
    and "new \<notin> fst ` sent rr (cl_inner s)" and "orig s' = orig s - {old}"
    and "client_settled rr (insert old X) s \<Longrightarrow> client_settled rr X s'"
proof -
  note D = client_invD [OF inv]
  from snd have c: "calls = cl_inner s @ [RrSend p request]" and n: "new = rr_id rr (cl_inner s @ [RrSend p request])"
    by (auto simp: rr_send_request_def Let_def)
  show snt: "sent rr (cl_inner s') = insert (new, p) (sent rr (cl_inner s))" by (simp add: s' c n)
  show out: "outstanding rr (cl_inner s') = insert (new, p) (outstanding rr (cl_inner s))"
    using outstanding_send(1) [OF D(1)] by (simp add: s' c n)
  show fresh: "new \<notin> fst ` sent rr (cl_inner s)" using outstanding_send(2) [OF D(1)] by (simp add: n)
  have r: "resub s' = (resub s)(new \<mapsto> old)"
    by (simp add: s' resub_def fun_eq_iff)
  show o: "orig s' = orig s - {old}" by (simp add: s' orig_def)
  show w: "waits s' = waits s" by (simp add: s' waits_def buffered_for_def fun_eq_iff)
  then have ws: "waiting s' = waiting s" by (simp add: waiting_def)
  have fr: "cl_lookup_timeouts s' = cl_lookup_timeouts s" "cl_max_buffered s' = cl_max_buffered s"
    "cl_waiting_for_connection s' = cl_waiting_for_connection s" by (simp_all add: s')
  have oo: "old \<in> orig s" using req by (simp add: orig_def fmdom'I)
  have nr: "resub s new = None" using D(11) [of new] fresh by (cases "resub s new") force+
  have no: "new \<notin> orig s" using D(10) fresh by blast
  have old_r: "resub s x \<noteq> Some old" for x using D(13) [of x old] oo by blast
  have inj: "inj_on ((resub s)(new \<mapsto> old)) (dom ((resub s)(new \<mapsto> old)))"
    using D(14) old_r nr by (auto simp: inj_on_def dom_def split: if_splits)
  have card: "card (orig s') \<le> cl_max_buffered s" using D(9) card_Diff1_le [of "orig s" old] by (simp add: o)
  show "client_inv rr fm cap s'"
  proof (rule client_invI)
    fix i q assume "i \<in> waits s' q"
    then show "(i, q) \<in> sent rr (cl_inner s')" using D(4) w snt by simp
  next
    fix q show "waits s' q \<subseteq> orig s'" using D(3) [of q] old(1) by (auto simp: w o waiting_iff)
  next
    fix x y assume "resub s' x = Some y"
    then show "\<exists>p. (x, p) \<in> sent rr (cl_inner s') \<and> (y, p) \<in> sent rr (cl_inner s')"
      using D(11) [of x y] p by (auto simp: r snt split: if_splits)
  next
    show "fst ` outstanding rr (cl_inner s') \<subseteq> orig s' - waiting s' \<union> dom (resub s')"
      using D(15) old(2) by (auto simp: out r o ws)
  next
    show "inj_on (resub s') (dom (resub s'))" using inj by (simp add: r)
  qed (use D no card in \<open>auto simp: r o w snt fr split: if_splits\<close>)
  show "live s' = live s" using oo nr by (auto simp: live_def o r)
  show "client_settled rr (insert old X) s \<Longrightarrow> client_settled rr X s'"
    using D(12) [of old] oo by (auto simp: client_settled_def o r ws out)
qed

lemma resubmit_progress:
  assumes "client_inv rr fm cap s" and "distinct ids" and "set ids \<subseteq> orig s"
    and "\<forall>i\<in>set ids. (i, p) \<in> sent rr (cl_inner s)" and "set ids \<inter> waiting s = {}"
    and "set ids \<inter> fst ` outstanding rr (cl_inner s) = {}"
  shows "client_inv rr fm cap (resubmit rr p s ids) \<and> live (resubmit rr p s ids) = live s \<and>
    sent rr (cl_inner s) \<subseteq> sent rr (cl_inner (resubmit rr p s ids)) \<and>
    (client_settled rr (set ids \<union> X) s \<longrightarrow> client_settled rr X (resubmit rr p s ids))"
  using assms
proof (induction ids arbitrary: s)
  case Nil
  then show ?case by simp
next
  case (Cons old rest)
  from Cons.prems(3) obtain request where req: "fmlookup (cl_original_requests s) old = Some request"
    by (auto simp: orig_def fmlookup_dom'_iff)
  obtain calls new where snd: "rr_send_request rr (cl_inner s) p request = (calls, new)" by force
  define s' where s': "s' = s\<lparr>cl_inner := calls, cl_original_requests := fmdrop old (cl_original_requests s),
      cl_resubmitted_requests := fmupd new old (cl_resubmitted_requests s)\<rparr>"
  have eq: "resubmit rr p s (old # rest) = resubmit rr p s' rest" by (simp add: req snd s')
  have pre: "(old, p) \<in> sent rr (cl_inner s)" "old \<notin> waiting s" "old \<notin> fst ` outstanding rr (cl_inner s)"
    using Cons.prems by auto
  note R = resubmit_step [OF Cons.prems(1) pre(1) pre(2) pre(3) req snd s']
  have ws: "waiting s' = waiting s" using R(4) by (simp add: waiting_def)
  have "new \<notin> set rest" using Cons.prems(4) R(6) by force
  with Cons.prems R(3,5,7) ws have "distinct rest" "set rest \<subseteq> orig s'" "\<forall>i\<in>set rest. (i, p) \<in> sent rr (cl_inner s')"
    "set rest \<inter> waiting s' = {}" "set rest \<inter> fst ` outstanding rr (cl_inner s') = {}" by auto
  from Cons.IH [OF R(1) this] show ?case
    using R(2,3) R(8) [of "set rest \<union> X"] unfolding eq by auto
qed

lemma client_connection_progress:
  assumes inv: "client_inv rr fm cap s" and ord: "order_laws order"
  shows "client_progress rr fm cap s [] (client_on_connection_established rr fm order s p)"
    and "client_settled rr {} s \<Longrightarrow> client_settled rr {} (client_on_connection_established rr fm order s p)"
proof -
  note D = client_invD [OF inv]
  define s1 where s1: "s1 = s\<lparr>cl_lookup_timeouts := fst (fm_remove fm (cl_lookup_timeouts s) p),
      cl_waiting_for_connection := fmdrop p (cl_waiting_for_connection s)\<rparr>"
  let ?ids = "order (buffered_for s p)"
  have ids: "set ?ids = waits s p" "distinct ?ids" using ord by (simp_all add: order_laws_def waits_def)
  have w: "waits s1 = (waits s)(p := {})" by (auto simp: s1 waits_def buffered_for_def fun_eq_iff)
  have ws: "waiting s1 = waiting s - waits s p" 
    using D(6) by (auto simp: waiting_iff w split: if_splits) metis
  have same: "orig s1 = orig s" "resub s1 = resub s" "cl_inner s1 = cl_inner s"
    by (simp_all add: s1 orig_def resub_def)
  have fm: "fm_keys fm (cl_lookup_timeouts s1) = fm_keys fm (cl_lookup_timeouts s) - {p}"
    "cap (cl_lookup_timeouts s1) = cap (cl_lookup_timeouts s)"
    using fm_remove_law [OF D(2)] by (simp_all add: s1)
  have inv1: "client_inv rr fm cap s1"
  proof (rule client_invI)
    fix q show "fmlookup (cl_waiting_for_connection s1) q \<noteq> Some {||}" using D(7) by (simp add: s1)
  next
    show "cap (cl_lookup_timeouts s1) = cl_max_buffered s1" using fm D(8) by (simp add: s1)
  next
    show "card (orig s1) \<le> cl_max_buffered s1" using D(9) same by (simp add: s1)
  qed (use D(1,2) D(3-6) D(10-15) in \<open>auto simp: same w fm ws split: if_splits\<close>)
  have "set ?ids \<subseteq> orig s1" "\<forall>i\<in>set ?ids. (i, p) \<in> sent rr (cl_inner s1)" "set ?ids \<inter> waiting s1 = {}"
    "set ?ids \<inter> fst ` outstanding rr (cl_inner s1) = {}"
    using D(3,4) waiting_not_outstanding [OF inv] by (auto simp: ids same ws disjoint_iff)
  note R = resubmit_progress [OF inv1 ids(2) this, of "{}"]
  have eq: "client_on_connection_established rr fm order s p = resubmit rr p s1 ?ids"
    by (simp add: client_on_connection_established_def s1)
  have "live s1 = live s" by (simp add: live_def same)
  with R show "client_progress rr fm cap s [] (client_on_connection_established rr fm order s p)"
    unfolding eq by (simp add: client_progress_def same)
  show "client_settled rr {} s \<Longrightarrow> client_settled rr {} (client_on_connection_established rr fm order s p)"
    using R unfolding eq by (auto simp: client_settled_def same ws ids)
qed

text \<open>The outcome \<open>(i, p)\<close> has been reported and is about to be handled.\<close>

definition arrived :: "('req, 'resp, 'cmd) rr \<Rightarrow> ('req, 'resp, 'fm) client \<Rightarrow> req_id \<Rightarrow> peer_id \<Rightarrow> bool" where
  "arrived rr s i p \<longleftrightarrow> (i, p) \<in> sent rr (cl_inner s) - outstanding rr (cl_inner s) \<and>
     i \<in> (orig s - waiting s) \<union> dom (resub s)"

lemma arrived_not_outstanding:
  assumes "client_inv rr fm cap s" and "arrived rr s i p"
  shows "i \<notin> fst ` outstanding rr (cl_inner s)"
proof
  assume "i \<in> fst ` outstanding rr (cl_inner s)"
  then obtain q where q: "(i, q) \<in> outstanding rr (cl_inner s)" by auto
  then have "(i, q) \<in> sent rr (cl_inner s)" by (simp add: outstanding_def)
  with assms(2) have "q = p"
    using sent_functional [OF client_invD(1) [OF assms(1)]] by (auto simp: arrived_def)
  with q assms(2) show False by (simp add: arrived_def)
qed

text \<open>A resubmitted request that is answered, with a response or a timeout, is forgotten.\<close>

lemma client_resub_done:
  assumes inv: "client_inv rr fm cap s" and arr: "arrived rr s i p" and old: "resub s i = Some old"
    and s': "s' = s\<lparr>cl_resubmitted_requests := fmdrop i (cl_resubmitted_requests s)\<rparr>"
    and ev: "terminal e = [(old, p)]"
  shows "client_progress rr fm cap s [e] s'" and "client_settled rr {i} s \<Longrightarrow> client_settled rr {} s'"
proof -
  note D = client_invD [OF inv]
  have fr: "orig s' = orig s" "waits s' = waits s" "waiting s' = waiting s" "cl_inner s' = cl_inner s"
    "cl_lookup_timeouts s' = cl_lookup_timeouts s" "cl_max_buffered s' = cl_max_buffered s"
    "cl_waiting_for_connection s' = cl_waiting_for_connection s" "resub s' = (resub s)(i := None)"
    by (simp_all add: s' waiting_def)
  have no: "i \<notin> fst ` outstanding rr (cl_inner s)" by (rule arrived_not_outstanding [OF inv arr])
  have "client_inv rr fm cap s'"
  proof (rule client_invI)
    show "inj_on (resub s') (dom (resub s'))" using D(14) by (auto simp: fr inj_on_def dom_def split: if_splits)
  next
    show "fst ` outstanding rr (cl_inner s') \<subseteq> orig s' - waiting s' \<union> dom (resub s')"
      using D(15) no by (auto simp: fr)
  qed (use D in \<open>auto simp: fr split: if_splits\<close>)
  moreover have "(old, p) \<in> sent rr (cl_inner s)"
    using D(11) [OF old] arr sent_functional [OF D(1)] by (auto simp: arrived_def)
  moreover have "live s' = live s - {old}"
  proof -
    have "resub s x = Some old \<longleftrightarrow> x = i" for x
      using D(14) old by (auto simp: inj_on_def dom_def)
    then have "ran ((resub s)(i := None)) = ran (resub s) - {old}"
      by (auto simp: ran_def split: if_splits) (metis option.inject)
    with D(13) [OF old] show ?thesis by (auto simp: live_def fr)
  qed
  moreover have "old \<in> live s" using old by (auto simp: live_def ran_def)
  ultimately show "client_progress rr fm cap s [e] s'" by (simp add: client_progress_def fr ev)
  show "client_settled rr {i} s \<Longrightarrow> client_settled rr {} s'"
    using D(12) [OF old] by (auto simp: client_settled_def fr)
qed

lemma client_success_progress:
  assumes inv: "client_inv rr fm cap s" and arr: "arrived rr s i p"
    and step: "client_on_success s p i resp = (s', evs)"
  shows "client_progress rr fm cap s evs s'" and "client_settled rr {i} s \<Longrightarrow> client_settled rr {} s'"
proof -
  note D = client_invD [OF inv]
  have "client_progress rr fm cap s evs s' \<and> (client_settled rr {i} s \<longrightarrow> client_settled rr {} s')"
  proof (cases "resub s i")
    case (Some old)
    with D(12) have "i \<notin> orig s" by blast
    then have "fmdrop i (cl_original_requests s) = cl_original_requests s"
      by (intro fmap_ext) (auto simp: orig_def fmdom'_notD)
    with step Some have s': "s' = s\<lparr>cl_resubmitted_requests := fmdrop i (cl_resubmitted_requests s)\<rparr>"
      and evs: "evs = [GenerateEvent (Response p old resp)]"
      by (auto simp: client_on_success_def resub_def)
    show ?thesis using client_resub_done [OF inv arr Some s', of "GenerateEvent (Response p old resp)"] unfolding evs by simp
  next
    case None
    with arr have i: "i \<in> orig s" "i \<notin> waiting s" by (auto simp: arrived_def)
    have fr: "cl_inner s' = cl_inner s" "cl_lookup_timeouts s' = cl_lookup_timeouts s" "waits s' = waits s"
      "cl_max_buffered s' = cl_max_buffered s" "cl_waiting_for_connection s' = cl_waiting_for_connection s"
      "waiting s' = waiting s" "orig s' = orig s - {i}" "resub s' = resub s"
      "evs = [GenerateEvent (Response p i resp)]"
      using step None
      by (auto simp: client_on_success_def resub_def waits_def buffered_for_def waiting_def orig_def fun_eq_iff)
    have no: "i \<notin> fst ` outstanding rr (cl_inner s)" by (rule arrived_not_outstanding [OF inv arr])
    have card: "card (orig s - {i}) \<le> cl_max_buffered s" using D(9) card_Diff1_le [of "orig s" i] by linarith
    have "client_inv rr fm cap s'"
    proof (rule client_invI)
      fix q show "waits s' q \<subseteq> orig s'" using D(3) [of q] i(2) by (auto simp: fr waiting_iff)
    next
      show "fst ` outstanding rr (cl_inner s') \<subseteq> orig s' - waiting s' \<union> dom (resub s')"
        using D(15) no by (auto simp: fr)
    qed (use D card in \<open>auto simp: fr\<close>)
    moreover have "i \<notin> ran (resub s)" using D(13) i(1) by (auto simp: ran_def)
    ultimately show ?thesis
      using i arr None by (auto simp: client_progress_def client_settled_def fr live_def arrived_def)
  qed
  then show "client_progress rr fm cap s evs s'" and "client_settled rr {i} s \<Longrightarrow> client_settled rr {} s'" by blast+
qed

text \<open>The timers never outgrow their capacity: there are at most as many as buffered requests.\<close>

lemma client_timers_room:
  assumes "client_inv rr fm cap s" and "i \<in> orig s" and "i \<notin> waiting s"
  shows "card (fm_keys fm (cl_lookup_timeouts s)) < cl_max_buffered s"
proof -
  note D = client_invD [OF assms(1)]
  let ?K = "fm_keys fm (cl_lookup_timeouts s)"
  define f where "f p = (SOME j. j \<in> waits s p)" for p
  have f: "f p \<in> waits s p" if "p \<in> ?K" for p
    using D(5) [of p] that unfolding f_def by (auto intro: someI)
  have "inj_on f ?K" using f D(6) by (metis inj_onI)
  moreover have "f ` ?K \<subseteq> orig s - {i}" using f D(3) assms(3) by (fastforce simp: waiting_iff)
  ultimately have "card ?K \<le> card (orig s - {i})" by (metis card_inj_on_le finite_Diff orig_finite)
  also have "\<dots> < card (orig s)" using assms(2) by (metis card_Diff1_less orig_finite)
  finally show ?thesis using D(9) by linarith
qed

lemma client_failure_wait:
  assumes inv: "client_inv rr fm cap s" and arr: "arrived rr s i p" and none: "resub s i = None"
    and step: "client_on_failure fm s p i = (s', evs)"
  shows "client_progress rr fm cap s evs s'" and "client_settled rr {i} s \<Longrightarrow> client_settled rr {} s'"
proof -
  note D = client_invD [OF inv]
  from none arr have i: "i \<in> orig s" "i \<notin> waiting s" by (auto simp: arrived_def)
  let ?ts = "cl_lookup_timeouts s"
  from step none have s': "s' = s\<lparr>cl_waiting_for_connection := fmupd p (finsert i (buffered_for s p)) (cl_waiting_for_connection s),
      cl_lookup_timeouts := if p \<in> fm_keys fm ?ts then ?ts else fst (fm_try_push fm ?ts p)\<rparr>"
    and evs: "terminated evs = []"
    by (auto simp: client_on_failure_def resub_def Let_def fm_contains_keys split: if_splits)
  have fr: "cl_inner s' = cl_inner s" "cl_max_buffered s' = cl_max_buffered s" "orig s' = orig s" "resub s' = resub s"
    "waits s' = (waits s)(p := insert i (waits s p))"
    "cl_waiting_for_connection s' = fmupd p (finsert i (buffered_for s p)) (cl_waiting_for_connection s)"
    by (simp_all add: s') (simp add: waits_def)
  have ws: "waiting s' = insert i (waiting s)"
    by (auto simp: waiting_iff fr split: if_splits)
  have ts: "cap (cl_lookup_timeouts s') = cap ?ts" "fm_keys fm (cl_lookup_timeouts s') = insert p (fm_keys fm ?ts)"
    using fm_try_push_law [OF D(2), of p ?ts] client_timers_room [OF inv i] D(8) by (auto simp: s')
  have no: "i \<notin> fst ` outstanding rr (cl_inner s)" by (rule arrived_not_outstanding [OF inv arr])
  have ip: "(i, p) \<in> sent rr (cl_inner s)" using arr by (simp add: arrived_def)
  have "client_inv rr fm cap s'"
  proof (rule client_invI)
    fix j q q' assume "j \<in> waits s' q" "j \<in> waits s' q'"
    with D(6) i(2) show "q = q'" by (auto simp: fr waiting_iff split: if_splits)
  next
    show "fst ` outstanding rr (cl_inner s') \<subseteq> orig s' - waiting s' \<union> dom (resub s')"
      using D(15) no by (auto simp: fr ws)
  next
    fix q show "fmlookup (cl_waiting_for_connection s') q \<noteq> Some {||}" using D(7) by (simp add: fr)
  next
    fix q show "q \<in> fm_keys fm (cl_lookup_timeouts s') \<longleftrightarrow> waits s' q \<noteq> {}"
      using D(5) [of q] ts by (auto simp: fr)
  next
    show "cap (cl_lookup_timeouts s') = cl_max_buffered s'" using ts D(8) fr by simp
  qed (use D(1,2) D(3,4) D(9-14) i ip in \<open>auto simp: fr split: if_splits\<close>)
  then show "client_progress rr fm cap s evs s'" by (simp add: client_progress_def evs fr live_def)
  show "client_settled rr {i} s \<Longrightarrow> client_settled rr {} s'"
    using none by (auto simp: client_settled_def fr ws)
qed

lemma client_failure_progress:
  assumes inv: "client_inv rr fm cap s" and arr: "arrived rr s i p"
    and step: "client_on_failure fm s p i = (s', evs)"
  shows "client_progress rr fm cap s evs s'" and "client_settled rr {i} s \<Longrightarrow> client_settled rr {} s'"
proof -
  have "client_progress rr fm cap s evs s' \<and> (client_settled rr {i} s \<longrightarrow> client_settled rr {} s')"
  proof (cases "resub s i")
    case (Some old)
    with step have s': "s' = s\<lparr>cl_resubmitted_requests := fmdrop i (cl_resubmitted_requests s)\<rparr>"
      and evs: "evs = [GenerateEvent (Timeout p old)]"
      by (auto simp: client_on_failure_def resub_def)
    show ?thesis using client_resub_done [OF inv arr Some s', of "GenerateEvent (Timeout p old)"] unfolding evs by simp
  next
    case None
    from client_failure_wait [OF inv arr None step] show ?thesis by blast
  qed
  then show "client_progress rr fm cap s evs s'" and "client_settled rr {i} s \<Longrightarrow> client_settled rr {} s'" by blast+
qed

lemma client_timeout_progress:
  assumes inv: "client_inv rr fm cap s" and ord: "order_laws order"
    and keys: "fm_keys fm ts = fm_keys fm (cl_lookup_timeouts s) - {p}" "cap ts = cap (cl_lookup_timeouts s)"
    and step: "client_on_timeout order (s\<lparr>cl_lookup_timeouts := ts\<rparr>) p =
      (s', evs :: ('resp client_event, 'cmd) to_swarm list)"
  shows "client_progress rr fm cap s evs s'" and "client_settled rr {} s \<Longrightarrow> client_settled rr {} s'"
proof -
  note D = client_invD [OF inv]
  let ?ids = "order (buffered_for s p)"
  have ids: "set ?ids = waits s p" "distinct ?ids" using ord by (simp_all add: order_laws_def waits_def)
  from step have s': "s' = s\<lparr>cl_lookup_timeouts := ts, cl_original_requests := fold fmdrop ?ids (cl_original_requests s),
      cl_waiting_for_connection := fmdrop p (cl_waiting_for_connection s)\<rparr>"
    and evs: "evs = map (\<lambda>req_id. GenerateEvent (Timeout p req_id)) ?ids"
    by (auto simp: client_on_timeout_def buffered_for_def Let_def)
  have fr: "cl_inner s' = cl_inner s" "cl_max_buffered s' = cl_max_buffered s" "resub s' = resub s"
    "cl_lookup_timeouts s' = ts" "orig s' = orig s - waits s p" "waits s' = (waits s)(p := {})"
    "cl_waiting_for_connection s' = fmdrop p (cl_waiting_for_connection s)"
    by (simp_all add: s' orig_def fold_fmdrop_dom ids resub_def)
       (simp add: waits_def buffered_for_def fun_eq_iff)
  have ws: "waiting s' = waiting s - waits s p"
    using D(6) by (auto simp: waiting_iff fr split: if_splits) metis
  have tm: "terminated evs = map (\<lambda>i. (i, p)) ?ids"
    by (simp add: evs terminated_timeouts)
  have card: "card (orig s') \<le> cl_max_buffered s'"
    using D(9) card_mono [OF orig_finite, of "orig s'" s] by (simp add: fr)
  have "client_inv rr fm cap s'"
  proof (rule client_invI)
    fix q show "waits s' q \<subseteq> orig s'" using D(3) [of q] D(6) by (auto simp: fr)
  next
    show "fst ` outstanding rr (cl_inner s') \<subseteq> orig s' - waiting s' \<union> dom (resub s')"
      using D(15) by (auto simp: fr ws waiting_iff)
  next
    fix q show "q \<in> fm_keys fm (cl_lookup_timeouts s') \<longleftrightarrow> waits s' q \<noteq> {}"
      using D(5) [of q] by (auto simp: fr keys)
  qed (use D(1,2) D(4,6-8) D(10-14) card keys in \<open>auto simp: fr split: if_splits\<close>)
  moreover have "waits s p \<inter> ran (resub s) = {}" using D(3,13) by (fastforce simp: ran_def)
  ultimately show "client_progress rr fm cap s evs s'"
    using D(3,4) ids by (auto simp: client_progress_def tm fr live_def image_image comp_def)
  have "orig s' - waiting s' = orig s - waiting s" using D(3) by (auto simp: fr ws waiting_iff)
  then show "client_settled rr {} s \<Longrightarrow> client_settled rr {} s'"
    by (simp add: client_settled_def fr)
qed

lemma client_poll_progress:
  fixes rr :: "('req, 'resp, 'cmd) rr"
  assumes inv: "client_inv rr fm cap s" and ord: "order_laws order"
  obtains s' evs where "client_poll fm order now s = Done (s', Ready evs)" "client_progress rr fm cap s evs s'"
      "client_settled rr {} s \<Longrightarrow> client_settled rr {} s'"
    | s' where "client_poll fm order now s = (Done (s', Pending) :: (_ \<times> ('resp client_event, 'cmd) to_swarm list poll) run)"
      "client_progress rr fm cap s [] s'"
      "client_settled rr X s \<Longrightarrow> client_settled rr X s'"
proof -
  note D = client_invD [OF inv]
  obtain ts r where r: "fm_poll fm now (cl_lookup_timeouts s) = (ts, r)" by force
  note law = fm_poll_law [OF D(2) r]
  show thesis
  proof (cases r)
    case Pending
    let ?s = "s\<lparr>cl_lookup_timeouts := ts\<rparr>"
    have w: "waiting ?s = waiting s" by (simp add: waiting_def)
    have "client_inv rr fm cap ?s"
      by (rule client_invI) (use D law Pending in \<open>auto simp: w\<close>)
    then show thesis
      using r Pending
      by (intro that(2) [of ?s]) (auto simp: client_poll_def client_progress_def live_def client_settled_def w)
  next
    case (Ready x)
    then obtain p where x: "r = Ready (p, Inl ())" using law(3) by (cases x) auto
    obtain s' and evs :: "('resp client_event, 'cmd) to_swarm list"
      where st: "client_on_timeout order (s\<lparr>cl_lookup_timeouts := ts\<rparr>) p = (s', evs)" by force
    from client_timeout_progress [OF inv ord _ law(1) st] law(3) [OF x] r x st show thesis
      by (intro that(1) [of s' evs]) (auto simp: client_poll_def)
  qed
qed

lemma client_inner_poll_inv:
  assumes inv: "client_inv rr fm cap s" and s': "s' = s\<lparr>cl_inner := cl_inner s @ [RrPoll]\<rparr>"
  shows "client_inv rr fm cap s'" and "live s' = live s" and "sent rr (cl_inner s') = sent rr (cl_inner s)"
    and "rr_poll_result rr (cl_inner s') = Ready (GenerateEvent ev) \<Longrightarrow> outcome ev = Some (i, p) \<Longrightarrow>
      arrived rr s' i p \<and> (client_settled rr {} s \<longrightarrow> client_settled rr {i} s')"
    and "\<not> (\<exists>ev. rr_poll_result rr (cl_inner s') = Ready (GenerateEvent ev) \<and> outcome ev \<noteq> None) \<Longrightarrow>
      client_settled rr {} s \<Longrightarrow> client_settled rr {} s'"
proof -
  note D = client_invD [OF inv]
  have w: "waiting s' = waiting s" "waits s' = waits s" "orig s' = orig s" "resub s' = resub s"
    by (simp_all add: s' waiting_def)
  show snt: "sent rr (cl_inner s') = sent rr (cl_inner s)" by (simp add: s')
  have out: "outstanding rr (cl_inner s') = outstanding rr (cl_inner s) -
      {ip. \<exists>ev. rr_poll_result rr (cl_inner s') = Ready (GenerateEvent ev) \<and> outcome ev = Some ip}"
    by (auto simp: outstanding_def s')
  show "client_inv rr fm cap s'"
  proof (rule client_invI)
    show "fst ` outstanding rr (cl_inner s') \<subseteq> orig s' - waiting s' \<union> dom (resub s')"
      using D(15) by (auto simp: w out)
  qed (use D(1-14) in \<open>auto simp: w snt\<close>, auto simp: s')
  show "live s' = live s" by (simp add: live_def w)
  show "arrived rr s' i p \<and> (client_settled rr {} s \<longrightarrow> client_settled rr {i} s')"
    if "rr_poll_result rr (cl_inner s') = Ready (GenerateEvent ev)" "outcome ev = Some (i, p)"
  proof -
    from D(1) that have ip: "(i, p) \<in> outstanding rr (cl_inner s)" by (simp add: rr_laws_def s')
    then have "(i, p) \<in> sent rr (cl_inner s)" by (simp add: outstanding_def)
    with ip that D(15) show ?thesis
      by (force simp: arrived_def out snt w client_settled_def)
  qed
  show "client_settled rr {} s \<Longrightarrow> client_settled rr {} s'"
    if "\<not> (\<exists>ev. rr_poll_result rr (cl_inner s') = Ready (GenerateEvent ev) \<and> outcome ev \<noteq> None)"
  proof -
    from that out have "outstanding rr (cl_inner s') = outstanding rr (cl_inner s)" by auto
    then show "client_settled rr {} s \<Longrightarrow> client_settled rr {} s'" by (simp add: client_settled_def w)
  qed
qed

lemma client_inner_event_progress:
  fixes rr :: "('req, 'resp, 'cmd) rr"
  assumes inv: "client_inv rr fm cap s" and arr: "\<And>i p. outcome ev = Some (i, p) \<Longrightarrow> arrived rr s i p"
  obtains s' and evs :: "('resp client_event, 'cmd) to_swarm list"
    where "client_on_inner_event fm s ev = Done (s', evs)" and "client_progress rr fm cap s evs s'"
      and "client_settled rr (fst ` set_option (outcome ev)) s \<Longrightarrow> client_settled rr {} s'"
proof -
  obtain s' and evs :: "('resp client_event, 'cmd) to_swarm list"
    where st: "client_on_inner_event fm s ev = Done (s', evs)"
    by (auto simp: client_on_inner_event_def split: prod.splits) (metis surj_pair)
  show thesis
  proof (rule that [OF st])
    show "client_progress rr fm cap s evs s'"
      using st inv arr client_success_progress(1) [OF inv] client_failure_progress(1) [OF inv]
      by (cases ev) (auto simp: client_on_inner_event_def, auto simp: client_progress_def)
    show "client_settled rr {} s'" if "client_settled rr (fst ` set_option (outcome ev)) s"
      using st that arr client_success_progress(2) [OF inv] client_failure_progress(2) [OF inv]
      by (cases ev) (auto simp: client_on_inner_event_def)
  qed
qed

section \<open>The wrapper contract and runs\<close>

interpretation client_wrapped:
  behaviour_wrapper "client_wrapper rr fm order conn now"
    "\<lambda>s. client_inv rr fm cap s \<and> order_laws order" "\<lambda>_ _. True"
    "\<lambda>s ev. \<forall>i p. outcome ev = Some (i, p) \<longrightarrow> arrived rr s i p"
proof (unfold_locales, goal_cases)
  case (3 s e)
  then show ?case
    using client_connection_progress(1) [of rr fm cap s order]
    by (auto simp: client_wrapper_def client_on_swarm_event_def client_progress_def split: swarm_event.split)
next
  case (4 s)
  then have *: "client_inv rr fm cap s" by blast
  from 4 client_inner_poll_inv [OF * refl] show ?case
    by (auto simp: client_wrapper_def Let_def)
next
  case (5 s ev)
  then have *: "client_inv rr fm cap s" "\<And>i p. outcome ev = Some (i, p) \<Longrightarrow> arrived rr s i p" by blast+
  show ?case
    by (rule client_inner_event_progress [OF *]) (use 5 in \<open>auto simp: client_wrapper_def client_progress_def\<close>)
next
  case (6 s)
  then have *: "client_inv rr fm cap s" "order_laws order" by blast+
  show ?case
    by (rule client_poll_progress [OF *, of now _ "{}"]) (use * in \<open>auto simp: client_wrapper_def client_progress_def\<close>)
qed (auto simp: client_wrapper_def)

text \<open>
  A run of the client from its creation: requests of the application, swarm events, and
  rounds of the polling loop, at any times. \<open>ids\<close> are the requests that have been accepted,
  \<open>evs\<close> the events that have been emitted.
\<close>

inductive client_run ::
    "('req, 'resp, 'cmd) rr \<Rightarrow> 'fm futures_map \<Rightarrow> (req_id fset \<Rightarrow> req_id list) \<Rightarrow>
     (('req, 'resp) rr_call list \<Rightarrow> 'he conn_call \<Rightarrow> 'r) \<Rightarrow> proto_codec \<Rightarrow> string \<Rightarrow> client_config \<Rightarrow>
     ('req, 'resp, 'fm) client \<Rightarrow> (req_id \<times> peer_id) list \<Rightarrow> ('resp client_event, 'cmd) to_swarm list \<Rightarrow> bool"
  for rr fm order conn codec protocol cfg where
  new: "client_run rr fm order conn codec protocol cfg (client_new fm codec protocol cfg) [] []"
| send: "client_run rr fm order conn codec protocol cfg s ids evs \<Longrightarrow>
    client_try_send_request rr s p r = (s', Inr i) \<Longrightarrow>
    client_run rr fm order conn codec protocol cfg s' (ids @ [(i, p)]) evs"
| refused: "client_run rr fm order conn codec protocol cfg s ids evs \<Longrightarrow>
    client_try_send_request rr s p r = (s', Inl QueueFull) \<Longrightarrow>
    client_run rr fm order conn codec protocol cfg s' ids evs"
| swarm: "client_run rr fm order conn codec protocol cfg s ids evs \<Longrightarrow>
    client_on_swarm_event rr fm order s ev = Done (s', new) \<Longrightarrow>
    client_run rr fm order conn codec protocol cfg s' ids (evs @ new)"
| polled: "client_run rr fm order conn codec protocol cfg s ids evs \<Longrightarrow>
    round (client_wrapper rr fm order conn now) s new s' \<Longrightarrow>
    client_run rr fm order conn codec protocol cfg s' ids (evs @ new)"
| idle: "client_run rr fm order conn codec protocol cfg s ids evs \<Longrightarrow>
    Wrapped.idle (client_wrapper rr fm order conn now) s s' \<Longrightarrow>
    client_run rr fm order conn codec protocol cfg s' ids evs"

lemma client_round_progress:
  fixes rr :: "('req, 'resp, 'cmd) rr"
  assumes inv: "client_inv rr fm cap s" and ord: "order_laws order"
    and rnd: "round (client_wrapper rr fm order conn now) s evs s'"
  shows "client_progress rr fm cap s evs s' \<and> (client_settled rr {} s \<longrightarrow> client_settled rr {} s')"
  using rnd
proof cases
  case own
  then have "client_poll fm order now s = Done (s', Ready evs)" by (simp add: client_wrapper_def)
  then show ?thesis by (rule_tac client_poll_progress [OF inv ord, of now _ "{}"]) auto
next
  case (inner_event s1 s2 ev)
  then have p: "client_poll fm order now s = (Done (s1, Pending) :: (_ \<times> ('resp client_event, 'cmd) to_swarm list poll) run)"
    and s2: "s2 = s1\<lparr>cl_inner := cl_inner s1 @ [RrPoll]\<rparr>"
    and ev: "rr_poll_result rr (cl_inner s2) = Ready (GenerateEvent ev)"
    and hd: "client_on_inner_event fm s2 ev = Done (s', evs)"
    by (auto simp: client_wrapper_def Let_def)
  from p have s1: "client_progress rr fm cap s [] s1" "client_settled rr {} s \<Longrightarrow> client_settled rr {} s1"
    by (rule_tac client_poll_progress [OF inv ord, of now _ "{}"]; auto)+
  then have inv1: "client_inv rr fm cap s1" by (simp add: client_progress_def)
  note P = client_inner_poll_inv [OF inv1 s2]
  have arr: "\<And>i p. outcome ev = Some (i, p) \<Longrightarrow> arrived rr s2 i p" using P(4) [OF ev] by blast
  have set2: "client_settled rr {} s1 \<Longrightarrow> client_settled rr (fst ` set_option (outcome ev)) s2"
    using P(4) [OF ev] P(5) ev by (cases "outcome ev") auto
  have step: "client_progress rr fm cap s2 evs s' \<and> (client_settled rr {} s \<longrightarrow> client_settled rr {} s')"
    by (rule client_inner_event_progress [OF P(1) arr]) (use hd set2 s1(2) in auto)
  with s1(1) P(2,3) show ?thesis by (auto simp: client_progress_def)
next
  case (inner_cmd s1 ev ev')
  then have p: "client_poll fm order now s = (Done (s1, Pending) :: (_ \<times> ('resp client_event, 'cmd) to_swarm list poll) run)"
    and s2: "s' = s1\<lparr>cl_inner := cl_inner s1 @ [RrPoll]\<rparr>"
    and ev: "rr_poll_result rr (cl_inner s') = Ready ev"
    by (auto simp: client_wrapper_def Let_def)
  from p have s1: "client_progress rr fm cap s [] s1" "client_settled rr {} s \<Longrightarrow> client_settled rr {} s1"
    by (rule_tac client_poll_progress [OF inv ord, of now _ "{}"]; auto)+
  then have inv1: "client_inv rr fm cap s1" by (simp add: client_progress_def)
  have "ev \<noteq> GenerateEvent e" and "terminated evs = []" for e using inner_cmd by (cases ev; auto)+
  with client_inner_poll_inv [OF inv1 s2] s1 ev show ?thesis by (auto simp: client_progress_def)
qed

lemma client_idle_progress:
  fixes rr :: "('req, 'resp, 'cmd) rr"
  assumes inv: "client_inv rr fm cap s" and ord: "order_laws order"
    and idle: "idle (client_wrapper rr fm order conn now) s s'"
  shows "client_progress rr fm cap s [] s' \<and> (client_settled rr {} s \<longrightarrow> client_settled rr {} s')"
proof -
  from idle obtain s1 where p: "client_poll fm order now s = (Done (s1, Pending) :: (_ \<times> ('resp client_event, 'cmd) to_swarm list poll) run)"
    and s2: "s' = s1\<lparr>cl_inner := cl_inner s1 @ [RrPoll]\<rparr>" and q: "rr_poll_result rr (cl_inner s') = Pending"
    by (auto simp: idle_def client_wrapper_def Let_def)
  from p have s1: "client_progress rr fm cap s [] s1" "client_settled rr {} s \<Longrightarrow> client_settled rr {} s1"
    by (rule_tac client_poll_progress [OF inv ord, of now _ "{}"]; auto)+
  then have "client_inv rr fm cap s1" by (simp add: client_progress_def)
  from client_inner_poll_inv [OF this s2] s1 q show ?thesis by (auto simp: client_progress_def)
qed

text \<open>What holds of the accepted requests and the emitted events at every point of a run.\<close>

definition accounted ::
    "('req, 'resp, 'cmd) rr \<Rightarrow> ('req, 'resp, 'fm) client \<Rightarrow> (req_id \<times> peer_id) list \<Rightarrow> (req_id \<times> peer_id) list \<Rightarrow> bool" where
  "accounted rr s ids fin \<longleftrightarrow>
     distinct (map fst ids) \<and> set ids \<subseteq> sent rr (cl_inner s) \<and> live s \<subseteq> fst ` set ids \<and>
     distinct (map fst fin) \<and> set fin = {ip \<in> set ids. fst ip \<notin> live s}"

lemma accounted_progress:
  assumes acc: "accounted rr s ids fin" and inv: "client_inv rr fm cap s" and pr: "client_progress rr fm cap s evs s'"
  shows "accounted rr s' ids (fin @ terminated evs)"
proof -
  let ?T = "terminated evs"
  have fin: "set fin = {ip \<in> set ids. fst ip \<notin> live s}" using acc by (simp add: accounted_def)
  have T: "set ?T = {ip \<in> set ids. fst ip \<in> fst ` set ?T}"
  proof (intro set_eqI iffI)
    fix ip assume ip: "ip \<in> set ?T"
    with pr acc have "fst ip \<in> fst ` set ids" by (auto simp: client_progress_def accounted_def)
    then obtain q where q: "(fst ip, q) \<in> set ids" by force
    with acc pr have "(fst ip, q) \<in> sent rr (cl_inner s')" by (auto simp: accounted_def client_progress_def)
    moreover from pr ip have "(fst ip, snd ip) \<in> sent rr (cl_inner s')" by (auto simp: client_progress_def)
    ultimately have "q = snd ip" using sent_functional [OF client_invD(1) [OF inv]] by blast
    with q ip show "ip \<in> {ip \<in> set ids. fst ip \<in> fst ` set ?T}" by auto
  next
    fix ip assume "ip \<in> {ip \<in> set ids. fst ip \<in> fst ` set ?T}"
    then obtain q where ip: "ip \<in> set ids" "(fst ip, q) \<in> set ?T" by force
    with pr have "(fst ip, q) \<in> sent rr (cl_inner s')" by (auto simp: client_progress_def)
    moreover from ip acc pr have "(fst ip, snd ip) \<in> sent rr (cl_inner s')"
      by (auto simp: accounted_def client_progress_def)
    ultimately have "q = snd ip" using sent_functional [OF client_invD(1) [OF inv]] by blast
    with ip show "ip \<in> set ?T" by simp
  qed
  have "fst ` set fin \<inter> fst ` set ?T = {}" using pr fin by (auto simp: client_progress_def)
  moreover have "set (fin @ ?T) = {ip \<in> set ids. fst ip \<notin> live s'}"
    using pr fin T by (auto simp: client_progress_def)
  ultimately show ?thesis using acc pr by (auto simp: accounted_def client_progress_def)
qed

lemma client_run_accounted:
  assumes "client_run rr fm order conn codec protocol cfg s ids evs"
    and laws: "rr_laws rr" "futures_map_laws fm cap" "order_laws order"
  shows "client_inv rr fm cap s \<and> client_settled rr {} s \<and> accounted rr s ids (terminated evs)"
  using assms(1)
proof induction
  case new
  with client_new_inv [OF laws(1,2)] show ?case by (simp add: accounted_def)
next
  case (send s ids evs p r s' i)
  from send have inv: "client_inv rr fm cap s" and settled: "client_settled rr {} s"
    and acc: "accounted rr s ids (terminated evs)" by blast+
  note S = client_send_progress [OF inv send(2)]
  from acc S(3) have new: "i \<notin> fst ` set ids" by (auto simp: accounted_def)
  then have "accounted rr s' (ids @ [(i, p)]) (terminated evs)"
    using acc unfolding accounted_def S(2,4) by (auto simp: image_iff)
  then show ?case using S(1) S(5) [OF settled] by blast
next
  case (refused s ids evs p r s')
  then show ?case by (auto simp: client_try_send_request_def Let_def case_prod_beta split: if_splits)
next
  case (swarm s ids evs ev s' new)
  then have inv: "client_inv rr fm cap s" by blast
  have "client_progress rr fm cap s new s' \<and> (client_settled rr {} s \<longrightarrow> client_settled rr {} s')"
    using swarm(2) client_connection_progress [OF inv laws(3)] inv
    by (auto simp: client_on_swarm_event_def client_progress_def split: swarm_event.splits)
  with swarm accounted_progress [OF _ inv] show ?case by (auto simp: client_progress_def)
next
  case (polled s ids evs now new s')
  then have inv: "client_inv rr fm cap s" by blast
  from client_round_progress [OF inv laws(3) polled(2)] polled accounted_progress [OF _ inv]
  show ?case by (auto simp: client_progress_def)
next
  case (idle s ids evs now s')
  then have inv: "client_inv rr fm cap s" by blast
  from client_idle_progress [OF inv laws(3) idle(2)] idle accounted_progress [OF _ inv, of ids "terminated evs" "[]"]
  show ?case by (auto simp: client_progress_def)
qed

section \<open>The client behind its wrapper\<close>

text \<open>
  The client as the actors hold it, inside \<open>Wrapped\<close>: \<open>dl\<close> are the commands that its \<open>poll\<close> has
  returned so far. Together with the ones still pending they are what a run of the client emits.
\<close>

definition client_delivered ::
    "('req, 'resp, 'cmd) rr \<Rightarrow> 'fm futures_map \<Rightarrow> (req_id fset \<Rightarrow> req_id list) \<Rightarrow>
     (('req, 'resp) rr_call list \<Rightarrow> 'he conn_call \<Rightarrow> 'r) \<Rightarrow> proto_codec \<Rightarrow> string \<Rightarrow> client_config \<Rightarrow>
     (('req, 'resp, 'fm) client, 'resp client_event, 'cmd) wrapped \<Rightarrow> (req_id \<times> peer_id) list \<Rightarrow>
     ('resp client_event, 'cmd) to_swarm list \<Rightarrow> bool" where
  "client_delivered rr fm order conn codec protocol cfg w ids dl \<longleftrightarrow>
     client_run rr fm order conn codec protocol cfg (wrapper w) ids (dl @ pending_events w)"

lemma client_run_rounds:
  "rounds (client_wrapper rr fm order conn now) s new s' \<Longrightarrow> client_run rr fm order conn codec protocol cfg s ids evs \<Longrightarrow>
     client_run rr fm order conn codec protocol cfg s' ids (evs @ new)"
proof (induction arbitrary: evs rule: rounds.induct)
  case (more s new s1 new' s')
  from more.IH [OF client_run.polled [OF more.prems more.hyps(1)]] show ?case by simp
qed simp

lemma client_delivered_new: "client_delivered rr fm order conn codec protocol cfg (wrapped_from (client_new fm codec protocol cfg)) [] []"
  by (simp add: client_delivered_def wrapped_from_def client_run.new)

lemma client_delivered_send:
  assumes "client_delivered rr fm order conn codec protocol cfg w ids dl"
    and "client_try_send_request rr (wrapper w) p r = (s', res)"
  shows "client_delivered rr fm order conn codec protocol cfg (w\<lparr>wrapper := s'\<rparr>)
    (case res of Inr i \<Rightarrow> ids @ [(i, p)] | Inl _ \<Rightarrow> ids) dl"
proof (cases res)
  case (Inl e)
  then have "res = Inl QueueFull" by (cases e) simp
  with assms client_run.refused show ?thesis by (fastforce simp: client_delivered_def)
next
  case (Inr i)
  with assms client_run.send show ?thesis by (fastforce simp: client_delivered_def)
qed

lemma client_delivered_swarm:
  fixes rr :: "('req, 'resp, 'cmd) rr"
  assumes "client_delivered rr fm order conn codec protocol cfg w ids dl"
    and "wrapped_on_swarm_event (client_wrapper rr fm order conn now) w ev = Done w'"
  shows "client_delivered rr fm order conn codec protocol cfg w' ids dl"
proof -
  from assms(2) obtain s' and new :: "('resp client_event, 'cmd) to_swarm list" where
    "client_on_swarm_event rr fm order (wrapper w) ev = Done (s', new)"
    and w': "w' = w\<lparr>wrapper := s', pending_events := pending_events w @ new\<rparr>"
    by (auto simp: wrapped_on_swarm_event_def client_wrapper_def)
  from client_run.swarm [OF assms(1) [unfolded client_delivered_def] this(1)] show ?thesis
    by (simp add: w' client_delivered_def)
qed

lemma client_delivered_poll:
  assumes "client_delivered rr fm order conn codec protocol cfg w ids dl"
    and "wrapped_poll (client_wrapper rr fm order conn now) w = Some (Done (w', res))"
  shows "client_delivered rr fm order conn codec protocol cfg w' ids (case res of Ready c \<Rightarrow> dl @ [c] | Pending \<Rightarrow> dl)"
proof (cases res)
  case (Ready c)
  with wrapped_poll_result [OF assms(2)] obtain evs where
    "rounds (client_wrapper rr fm order conn now) (wrapper w) evs (wrapper w')" "pending_events w @ evs = c # pending_events w'"
    by (auto simp: poll_result_def)
  with client_run_rounds [OF this(1) assms(1) [unfolded client_delivered_def]] Ready show ?thesis
    by (simp add: client_delivered_def)
next
  case Pending
  with wrapped_poll_result [OF assms(2)] obtain s where p: "pending_events w = []" "pending_events w' = []"
    and r: "rounds (client_wrapper rr fm order conn now) (wrapper w) [] s" "idle (client_wrapper rr fm order conn now) s (wrapper w')"
    by (auto simp: poll_result_def)
  from client_run.idle [OF client_run_rounds [OF r(1) assms(1) [unfolded client_delivered_def]] r(2)] p Pending
  show ?thesis by (simp add: client_delivered_def)
qed

lemma client_delivered_accounted:
  assumes "client_delivered rr fm order conn codec protocol cfg w ids dl"
    and "rr_laws rr" "futures_map_laws fm cap" "order_laws order"
  shows "distinct (map fst ids)" "distinct (map fst (terminated dl))" "set (terminated dl) \<subseteq> set ids"
  using client_run_accounted [OF assms(1) [unfolded client_delivered_def] assms(2-4)] by (auto simp: accounted_def)

text \<open>
  Once the protocol has reported every request and no peer is being looked up, all requests have been answered.
\<close>

lemma client_delivered_quiet:
  assumes "client_delivered rr fm order conn codec protocol cfg w ids dl"
    and laws: "rr_laws rr" "futures_map_laws fm cap" "order_laws order"
    and "outstanding rr (cl_inner (wrapper w)) = {}" and "fm_keys fm (cl_lookup_timeouts (wrapper w)) = {}" and "pending_events w = []"
  shows "set (terminated dl) = set ids"
proof -
  from client_run_accounted [OF assms(1) [unfolded client_delivered_def] laws]
  have inv: "client_inv rr fm cap (wrapper w)" and settled: "client_settled rr {} (wrapper w)"
    and acc: "accounted rr (wrapper w) ids (terminated dl)" using assms(7) by simp_all
  have "waiting (wrapper w) = {}" using client_invD(5) [OF inv] assms(6) by (auto simp: waiting_iff)
  with settled assms(5) have "live (wrapper w) = {}" by (auto simp: live_def client_settled_def ran_def dom_def)
  with acc show ?thesis by (simp add: accounted_def)
qed

section \<open>Properties\<close>

text \<open>
  A protocol instance for the witnesses: identifiers count the calls, and the first request
  is reported as failed when it is first polled for.
\<close>

definition demo_rr :: "('req, 'resp, unit) rr" where
  "demo_rr = \<lparr>rr_id = length, rr_respond_ok = \<lambda>_. True,
     rr_poll_result = \<lambda>calls. case calls of
       [RrNew _ _ _ _, RrSend p r, RrPoll] \<Rightarrow> Ready (GenerateEvent (RrOutboundFailure p 2)) | _ \<Rightarrow> Pending\<rparr>"

definition demo_codec :: proto_codec where
  "demo_codec = proto_codec_new 1024 ack_size"

definition demo_config :: client_config where
  "demo_config = \<lparr>cc_max_buffered = 1, cc_send_timeout = 60, cc_resp_timeout = 60\<rparr>"

text \<open>Counting the calls gives unique identifiers; an outcome after the first request is one for this request.\<close>

lemma first_poll_rr_laws:
  assumes "rr_id rr = length"
    and "\<And>calls ev ip. rr_poll_result rr (calls @ [RrPoll]) = Ready (GenerateEvent ev) \<Longrightarrow> outcome ev = Some ip \<Longrightarrow>
      \<exists>a b c d p r. calls = [RrNew a b c d] @ [RrSend p r] \<and> ip = (2, p)"
  shows "rr_laws rr"
proof -
  have le: "ip \<in> sent rr calls \<Longrightarrow> fst ip \<le> length calls" for ip calls
    by (auto simp: sent_def history_def assms(1))
  have "ip \<in> outstanding rr calls"
    if "rr_poll_result rr (calls @ [RrPoll]) = Ready (GenerateEvent ev)" "outcome ev = Some ip" for calls ev ip
  proof -
    from assms(2) [OF that] obtain a b c d p r where "calls = [RrNew a b c d] @ [RrSend p r]" "ip = (2, p)" by blast
    then show ?thesis
      using reported_snoc(2) [of rr "[RrNew a b c d]" p r] sent_snoc(2) [of rr "[RrNew a b c d]" p r]
      by (simp add: outstanding_def assms(1))
  qed
  moreover have "rr_id rr (calls @ [RrSend p r]) \<notin> fst ` sent rr calls" for calls p r
    using le by (fastforce simp: assms(1))
  ultimately show ?thesis unfolding rr_laws_def by blast
qed

lemma demo_rr_laws: "rr_laws (demo_rr :: ('req, 'resp, unit) rr)"
  by (rule first_poll_rr_laws) (auto simp: demo_rr_def split: list.splits rr_call.splits)

text \<open>The run of the witnesses: one request to a peer that is not known yet.\<close>

definition demo_order :: "req_id fset \<Rightarrow> req_id list" where
  "demo_order ids = sorted_list_of_fset ids"

definition demo_client :: "(string, string, nat \<times> peer_id list) client" where
  "demo_client = \<lparr>cl_inner = [RrNew demo_codec ''p'' Outbound (Some 60), RrSend (PeerId [7]) ''q'', RrPoll],
     cl_original_requests = fmupd 2 ''q'' fmempty,
     cl_waiting_for_connection = fmupd (PeerId [7]) {|2|} fmempty,
     cl_resubmitted_requests = fmempty, cl_lookup_timeouts = (1, [PeerId [7]]), cl_max_buffered = 1\<rparr>"

lemma demo_order_laws: "order_laws demo_order"
  by (simp add: order_laws_def demo_order_def sorted_list_of_fset.rep_eq)

lemma demo_client_run:
  "client_run demo_rr demo_timers demo_order (\<lambda>_ (_ :: unit conn_call). ()) demo_codec ''p'' demo_config
     demo_client [(2, PeerId [7])] [GenerateEvent (PeerUnknown (PeerId [7]))]"
proof -
  let ?run = "client_run demo_rr demo_timers demo_order (\<lambda>_ (_ :: unit conn_call). ()) demo_codec ''p'' demo_config"
  let ?W = "client_wrapper demo_rr demo_timers demo_order (\<lambda>_ (_ :: unit conn_call). ()) 0"
  let ?s1 = "\<lparr>cl_inner = [RrNew demo_codec ''p'' Outbound (Some 60), RrSend (PeerId [7]) ''q''],
     cl_original_requests = fmupd 2 ''q'' fmempty, cl_waiting_for_connection = fmempty,
     cl_resubmitted_requests = fmempty, cl_lookup_timeouts = (1, []), cl_max_buffered = 1\<rparr>"
  let ?s2 = "?s1\<lparr>cl_inner := [RrNew demo_codec ''p'' Outbound (Some 60), RrSend (PeerId [7]) ''q'', RrPoll]\<rparr>"
  have "client_try_send_request demo_rr (client_new demo_timers demo_codec ''p'' demo_config) (PeerId [7]) ''q'' = (?s1, Inr 2)"
    by (simp add: client_try_send_request_def client_new_def demo_timers_def demo_config_def rr_send_request_def demo_rr_def
        fcard.rep_eq numeral_2_eq_2)
  from client_run.send [OF client_run.new this] have r1: "?run ?s1 ([] @ [(2, PeerId [7])]) []" .
  have "w_poll ?W ?s1 = Done (?s1, Pending)"
    "w_inner_poll ?W ?s1 = Done (?s2, Ready (GenerateEvent (RrOutboundFailure (PeerId [7]) 2)))"
    "w_on_inner_event ?W ?s2 (RrOutboundFailure (PeerId [7]) 2) = Done (demo_client, [GenerateEvent (PeerUnknown (PeerId [7]))])"
    by (simp_all add: client_wrapper_def client_poll_def demo_timers_def demo_rr_def client_on_inner_event_def
        client_on_failure_def buffered_for_def demo_client_def)
  from client_run.polled [OF r1 round.inner_event [OF this]] show ?thesis by simp
qed

text \<open>
  C6. Every request is answered exactly once. In every run of the client, the identifiers
  returned by \<open>try_send_request\<close> are distinct; the requests that the emitted events answer
  (with a response or a timeout, under the identifier that was returned, for the peer that was
  named) are exactly the accepted ones that are no longer live, each answered once; and
  each live request either waits for a peer whose lookup timer is running, or is
  outstanding in the protocol, itself or as its one resubmission. So no request is
  forgotten, whatever fails and reconnects in between.
\<close>

theorem client_exactly_once:
  assumes "client_run rr fm order conn codec protocol cfg s ids evs"
    and "rr_laws rr" and "futures_map_laws fm cap" and "order_laws order"
  shows "distinct (map fst ids) \<and> distinct (map fst (terminated evs)) \<and>
    set (terminated evs) = {ip \<in> set ids. fst ip \<notin> live s} \<and>
    (\<forall>i\<in>live s. (\<exists>p. i \<in> waits s p \<and> p \<in> fm_keys fm (cl_lookup_timeouts s)) \<or>
       i \<in> fst ` outstanding rr (cl_inner s) \<or>
       (\<exists>new. resub s new = Some i \<and> new \<in> fst ` outstanding rr (cl_inner s)))"
proof -
  from client_run_accounted [OF assms]
  have inv: "client_inv rr fm cap s" and settled: "client_settled rr {} s"
    and acc: "accounted rr s ids (terminated evs)" by blast+
  have "(\<exists>p. i \<in> waits s p \<and> p \<in> fm_keys fm (cl_lookup_timeouts s)) \<or> i \<in> fst ` outstanding rr (cl_inner s) \<or>
      (\<exists>new. resub s new = Some i \<and> new \<in> fst ` outstanding rr (cl_inner s))" if "i \<in> live s" for i
  proof (cases "i \<in> waiting s")
    case True
    then show ?thesis using client_invD(5) [OF inv] by (auto simp: waiting_iff)
  next
    case False
    with that settled show ?thesis by (fastforce simp: live_def client_settled_def ran_def)
  qed
  with acc show ?thesis by (simp add: accounted_def)
qed

theorem client_exactly_once_witness:
  "set (terminated [GenerateEvent (PeerUnknown (PeerId [7])) :: (string client_event, unit) to_swarm]) =
     {ip \<in> set [(2 :: nat, PeerId [7])]. fst ip \<notin> live demo_client}"
  using client_exactly_once [OF demo_client_run demo_rr_laws demo_timers_laws demo_order_laws] by blast



end
