(* ===== verification/Pubsub.thy ===== *)
theory Pubsub
  imports Wrapped Data_Chunk
begin

text \<open>
  The publish/subscribe behaviour (transport/src/behaviour/pubsub.rs) on top of gossipsub:
  subscriptions with a per-sender record of the newest sequence number, publishing, and the
  validation of incoming messages, which rejects messages that are anonymous, of an unknown
  topic, from the future, or too old.

  Gossipsub is represented by the calls made on it. The parameter record \<open>gossip\<close> gives the
  hash of a topic name and, as functions of the calls so far, the results of subscribing,
  publishing and polling. Clock readings are arguments.
\<close>

section \<open>Gossipsub\<close>

datatype acceptance = Accept | Reject

type_synonym message_id = string

text \<open>
  The calls, from \<open>Behaviour::new\<close> on, with message validation on, the message ID function
  \<open>msg_id\<close> below, and the given key and maximal size of a transmission.
\<close>

datatype gossip_call =
    GsNew keypair nat
  | GsSubscribe string
  | GsPublish topic_hash bytes
  | GsReport message_id peer_id acceptance
  | GsPoll

record gs_message =
  gm_source :: "peer_id option"
  gm_data :: bytes
  gm_sequence_number :: "u64 option"
  gm_topic :: topic_hash

datatype gs_event =
    GsMessage peer_id message_id gs_message
  | GsOther

datatype publish_result = PublishOk | InsufficientPeers | PublishError

record gossip =
  sha256_topic :: "string \<Rightarrow> topic_hash" \<comment> \<open>\<open>Sha256Topic::new(name).hash()\<close>\<close>
  gs_subscribe_ok :: "gossip_call list \<Rightarrow> bool"
  gs_publish_result :: "gossip_call list \<Rightarrow> publish_result"
  gs_poll_result :: "gossip_call list \<Rightarrow> (gs_event, unit) to_swarm poll"

section \<open>State\<close>

definition subscription_timeout :: nat where
  "subscription_timeout = 60 * 10 ^ 9" \<comment> \<open>nanoseconds\<close>

text \<open>The field \<open>topic\<close> of a \<open>TopicState\<close> is \<open>Sha256Topic::new(name)\<close>, so it is given by the name.\<close>

record topic_state =
  ts_name :: string
  ts_sequence_numbers :: "(peer_id, u64) fmap"
  ts_keep_last :: u64
  ts_subscribed_at :: nat

definition topic_state_new :: "nat \<Rightarrow> string \<Rightarrow> u64 \<Rightarrow> topic_state" where
  "topic_state_new now name keep_last =
     \<lparr>ts_name = name, ts_sequence_numbers = fmempty, ts_keep_last = keep_last, ts_subscribed_at = now\<rparr>"

record pubsub_msg =
  pm_peer_id :: peer_id
  pm_topic :: string
  pm_data :: bytes

record pubsub =
  ps_inner :: "gossip_call list"
  ps_topics :: "(topic_hash, topic_state) fmap"

definition pubsub_new :: "keypair \<Rightarrow> nat \<Rightarrow> pubsub" where
  "pubsub_new keypair max_msg_size = \<lparr>ps_inner = [GsNew keypair max_msg_size], ps_topics = fmempty\<rparr>"

section \<open>Operations\<close>

definition pubsub_subscribe :: "gossip \<Rightarrow> nat \<Rightarrow> pubsub \<Rightarrow> string \<Rightarrow> u64 \<Rightarrow> pubsub" where
  "pubsub_subscribe gs now self topic_name keep_last =
     (let topic = topic_state_new now topic_name keep_last;
          topic_hash = sha256_topic gs (ts_name topic) in
      if fmlookup (ps_topics self) topic_hash \<noteq> None then self
      else let calls = ps_inner self @ [GsSubscribe (ts_name topic)];
               self = self\<lparr>ps_inner := calls\<rparr> in
           if \<not> gs_subscribe_ok gs calls then self
           else self\<lparr>ps_topics := fmupd topic_hash topic (ps_topics self)\<rparr>)"

text \<open>What \<open>publish\<close> reports in the log.\<close>

datatype publish_log = NotSubscribed | WaitingForPeers | PublishFailed | Published

definition pubsub_publish :: "gossip \<Rightarrow> nat \<Rightarrow> pubsub \<Rightarrow> string \<Rightarrow> bytes \<Rightarrow> pubsub \<times> publish_log" where
  "pubsub_publish gs now self topic_name msg =
     (let topic_hash = sha256_topic gs topic_name in
      case fmlookup (ps_topics self) topic_hash of
        None \<Rightarrow> (self, NotSubscribed)
      | Some topic \<Rightarrow>
          let calls = ps_inner self @ [GsPublish topic_hash msg] in
          (self\<lparr>ps_inner := calls\<rparr>,
           case gs_publish_result gs calls of
             InsufficientPeers \<Rightarrow>
               (if now - ts_subscribed_at topic \<le> subscription_timeout then WaitingForPeers
                else PublishFailed)
           | PublishError \<Rightarrow> PublishFailed
           | PublishOk \<Rightarrow> Published))"

text \<open>\<open>timestamp_now\<close>: nanoseconds since the epoch, which must fit 64 bits.\<close>

definition timestamp_now :: "nat \<Rightarrow> u64 run" where
  "timestamp_now nanos = (if nanos < 2 ^ 64 then Done (of_nat nanos) else Panic)"

text \<open>Writing through the reference \<open>last_seq_no\<close> into the map of the topic.\<close>

definition store_seq :: "pubsub \<Rightarrow> topic_hash \<Rightarrow> topic_state \<Rightarrow> peer_id \<Rightarrow> u64 \<Rightarrow> pubsub" where
  "store_seq self t ts p n =
     self\<lparr>ps_topics := fmupd t (ts\<lparr>ts_sequence_numbers := fmupd p n (ts_sequence_numbers ts)\<rparr>) (ps_topics self)\<rparr>"

text \<open>
  The entry of the sender is created with 0 before the sequence number is looked at, so it
  remains when the message is then rejected. The guards of the \<open>match\<close> are evaluated in order.
\<close>

definition validate_gossipsub_msg ::
    "bool \<Rightarrow> nat \<Rightarrow> pubsub \<Rightarrow> gs_message \<Rightarrow> (pubsub \<times> (string + pubsub_msg)) run" where
  "validate_gossipsub_msg chk nanos self msg =
     (case gm_source msg of
        None \<Rightarrow> Done (self, Inl ''anonymous message'')
      | Some peer_id \<Rightarrow>
     (case fmlookup (ps_topics self) (gm_topic msg) of
        None \<Rightarrow> Done (self, Inl ''message with unknown topic'')
      | Some topic_state \<Rightarrow>
          let last_seq_no = (case fmlookup (ts_sequence_numbers topic_state) peer_id of Some n \<Rightarrow> n | None \<Rightarrow> 0);
              store = store_seq self (gm_topic msg) topic_state peer_id;
              accepted = Inr \<lparr>pm_peer_id = peer_id, pm_topic = ts_name topic_state, pm_data = gm_data msg\<rparr> in
          case gm_sequence_number msg of
            None \<Rightarrow> Done (store last_seq_no, Inl ''message without sequence number'')
          | Some seq_no \<Rightarrow>
              run_bind (timestamp_now nanos) (\<lambda>now.
                if now < seq_no then Done (store last_seq_no, Inl ''invalid sequence number'')
                else run_bind (add_chk chk seq_no (ts_keep_last topic_state)) (\<lambda>sum.
                  if sum \<le> last_seq_no then Done (store last_seq_no, Inl ''old message'')
                  else if last_seq_no < seq_no then Done (store seq_no, accepted)
                  else Done (store last_seq_no, accepted)))))"

definition pubsub_report :: "pubsub \<Rightarrow> message_id \<Rightarrow> peer_id \<Rightarrow> acceptance \<Rightarrow> pubsub" where
  "pubsub_report self mid src a = self\<lparr>ps_inner := ps_inner self @ [GsReport mid src a]\<rparr>"

definition pubsub_on_inner_event ::
    "bool \<Rightarrow> nat \<Rightarrow> pubsub \<Rightarrow> gs_event \<Rightarrow> (pubsub \<times> (pubsub_msg, 'cmd) to_swarm list) run" where
  "pubsub_on_inner_event chk nanos self ev =
     (case ev of
        GsMessage propagation_source message_id message \<Rightarrow>
          run_bind (validate_gossipsub_msg chk nanos self message) (\<lambda>(self, res).
            case res of
              Inr msg \<Rightarrow> Done (pubsub_report self message_id propagation_source Accept, [GenerateEvent msg])
            | Inl e \<Rightarrow> Done (pubsub_report self message_id propagation_source Reject, []))
      | GsOther \<Rightarrow> Done (self, []))"

text \<open>The message ID function: sender (or the fixed peer \<open>[0, 1, 0]\<close>) and sequence number.\<close>

definition msg_id :: "crypto \<Rightarrow> gs_message \<Rightarrow> message_id" where
  "msg_id cr msg =
     (case gm_source msg of Some p \<Rightarrow> peer_to_base58 cr p | None \<Rightarrow> peer_to_base58 cr (PeerId [0, 1, 0])) @
     dec (unat (case gm_sequence_number msg of Some n \<Rightarrow> n | None \<Rightarrow> 0))"

text \<open>
  The implementation of the wrapper trait: \<open>on_swarm_event\<close> and \<open>poll\<close> are the defaults. The
  answers of gossipsub to the connection callbacks are the parameter \<open>conn\<close>.
\<close>

definition pubsub_wrapper ::
    "gossip \<Rightarrow> bool \<Rightarrow> nat \<Rightarrow> (gossip_call list \<Rightarrow> 'he conn_call \<Rightarrow> 'r) \<Rightarrow>
     (pubsub, swarm_event, gs_event, pubsub_msg, unit, 'he, 'r) wrapper" where
  "pubsub_wrapper gs chk nanos conn =
     \<lparr>w_inner_call = \<lambda>s c. (s, conn (ps_inner s) c),
      w_inner_on_swarm_event = \<lambda>s _. Done s,
      w_inner_poll = \<lambda>s. let calls = ps_inner s @ [GsPoll] in Done (s\<lparr>ps_inner := calls\<rparr>, gs_poll_result gs calls),
      w_on_swarm_event = default_on_swarm_event,
      w_on_inner_event = pubsub_on_inner_event chk nanos,
      w_poll = default_poll\<rparr>"

section \<open>The recorded sequence numbers\<close>

definition last_seq :: "pubsub \<Rightarrow> topic_hash \<Rightarrow> peer_id \<Rightarrow> u64" where
  "last_seq self t p =
     (case fmlookup (ps_topics self) t of
        None \<Rightarrow> 0
      | Some ts \<Rightarrow> (case fmlookup (ts_sequence_numbers ts) p of Some n \<Rightarrow> n | None \<Rightarrow> 0))"

definition keep_last :: "pubsub \<Rightarrow> topic_hash \<Rightarrow> nat" where
  "keep_last self t = (case fmlookup (ps_topics self) t of None \<Rightarrow> 0 | Some ts \<Rightarrow> unat (ts_keep_last ts))"

text \<open>The clock leaves room for the retention window: true until the year 2554.\<close>

definition clock_ok :: "nat \<Rightarrow> pubsub \<Rightarrow> bool" where
  "clock_ok nanos self \<longleftrightarrow> nanos < 2 ^ 64 \<and> (\<forall>t. nanos + keep_last self t < 2 ^ 64)"

definition same_topics :: "pubsub \<Rightarrow> pubsub \<Rightarrow> bool" where
  "same_topics s s' \<longleftrightarrow>
     (\<forall>t. map_option ts_name (fmlookup (ps_topics s') t) = map_option ts_name (fmlookup (ps_topics s) t) \<and>
          keep_last s' t = keep_last s t)"

lemma same_topics_refl [simp]: "same_topics s s"
  by (simp add: same_topics_def)

lemma same_topics_trans: "same_topics s t \<Longrightarrow> same_topics t u \<Longrightarrow> same_topics s u"
  by (simp add: same_topics_def)

lemma same_topics_clock: "same_topics s s' \<Longrightarrow> clock_ok n s' = clock_ok n s"
  by (simp add: same_topics_def clock_ok_def)

text \<open>The verdict on a message, without machine arithmetic.\<close>

definition acceptable :: "nat \<Rightarrow> pubsub \<Rightarrow> gs_message \<Rightarrow> bool" where
  "acceptable nanos self msg \<longleftrightarrow>
     (\<exists>p n. gm_source msg = Some p \<and> gm_sequence_number msg = Some n \<and>
        gm_topic msg |\<in>| fmdom (ps_topics self) \<and> unat n \<le> nanos \<and>
        unat (last_seq self (gm_topic msg) p) < unat n + keep_last self (gm_topic msg))"

lemma window_check:
  assumes "unat n \<le> nanos" and "nanos + unat k < 2 ^ 64"
  shows "add_chk chk n (k :: u64) = Done (n + k)" and "n + k \<le> m \<longleftrightarrow> unat n + unat k \<le> unat m"
proof -
  from assms have *: "unat n + unat k < 2 ^ LENGTH(64)" by simp
  then show "add_chk chk n k = Done (n + k)" by (rule add_chk_no_overflow)
  show "n + k \<le> m \<longleftrightarrow> unat n + unat k \<le> unat m"
    using unat_add_no_overflow [OF *] by (simp add: word_le_nat_alt)
qed

lemma timestamp_now_less:
  "nanos < 2 ^ 64 \<Longrightarrow> timestamp_now nanos = Done (of_nat nanos)"
  "nanos < 2 ^ 64 \<Longrightarrow> (of_nat nanos :: u64) < n \<longleftrightarrow> nanos < unat n"
  by (simp_all add: timestamp_now_def word_less_nat_alt unat_of_nat)

lemma store_seq_facts:
  assumes "fmlookup (ps_topics self) t = Some ts"
  shows "ps_inner (store_seq self t ts p n) = ps_inner self"
    and "same_topics self (store_seq self t ts p n)"
    and "last_seq (store_seq self t ts p n) t' q = (if t' = t \<and> q = p then n else last_seq self t' q)"
  using assms by (auto simp: store_seq_def same_topics_def keep_last_def last_seq_def)

text \<open>The branches of \<open>validate_gossipsub_msg\<close> for a known topic and a named sender.\<close>

lemma validate_known:
  assumes "clock_ok nanos self" and "gm_source msg = Some p"
    and ts: "fmlookup (ps_topics self) (gm_topic msg) = Some ts"
  shows "validate_gossipsub_msg chk nanos self msg =
    Done (let last = last_seq self (gm_topic msg) p; store = store_seq self (gm_topic msg) ts p in
      if acceptable nanos self msg
      then (store (max last (the (gm_sequence_number msg))),
            Inr \<lparr>pm_peer_id = p, pm_topic = ts_name ts, pm_data = gm_data msg\<rparr>)
      else (store last, Inl (case gm_sequence_number msg of
         None \<Rightarrow> ''message without sequence number''
       | Some n \<Rightarrow> if nanos < unat n then ''invalid sequence number'' else ''old message'')))"
proof -
  have k: "nanos < 2 ^ 64" "nanos + unat (ts_keep_last ts) < 2 ^ 64" "keep_last self (gm_topic msg) = unat (ts_keep_last ts)"
    using assms by (auto simp: clock_ok_def keep_last_def dest!: spec [of _ "gm_topic msg"])
  have last: "(case fmlookup (ts_sequence_numbers ts) p of Some n \<Rightarrow> n | None \<Rightarrow> 0) = last_seq self (gm_topic msg) p"
    using ts by (simp add: last_seq_def)
  note defs = validate_gossipsub_msg_def acceptable_def assms(2) ts last k(3) fmdomI [OF ts] Let_def
  show ?thesis
  proof (cases "gm_sequence_number msg")
    case None
    then show ?thesis by (simp add: defs)
  next
    case (Some n)
    show ?thesis
    proof (cases "unat n \<le> nanos")
      case True
      let ?l = "last_seq self (gm_topic msg) p"
      have mx: "max ?l n = (if ?l < n then n else ?l)" by (auto simp: max_def)
      show ?thesis
        using True
        by (simp add: defs Some timestamp_now_less [OF k(1)] window_check [OF True k(2)] not_le mx
            del: run_bind_eq_Done)
    next
      case False
      then show ?thesis
        by (simp add: defs Some timestamp_now_less [OF k(1)] del: run_bind_eq_Done)
    qed
  qed
qed

lemma validate_result:
  assumes "clock_ok nanos self"
  obtains self' res where "validate_gossipsub_msg chk nanos self msg = Done (self', res)"
    and "ps_inner self' = ps_inner self" and "same_topics self self'"
    and "acceptable nanos self msg \<Longrightarrow> \<exists>p ts. gm_source msg = Some p \<and> fmlookup (ps_topics self) (gm_topic msg) = Some ts \<and>
            res = Inr \<lparr>pm_peer_id = p, pm_topic = ts_name ts, pm_data = gm_data msg\<rparr>"
    and "\<not> acceptable nanos self msg \<Longrightarrow> \<exists>e. res = Inl e"
    and "\<And>t p. last_seq self' t p =
           (if acceptable nanos self msg \<and> t = gm_topic msg \<and> Some p = gm_source msg
            then max (last_seq self t p) (the (gm_sequence_number msg)) else last_seq self t p)"
proof (cases "gm_source msg = None \<or> fmlookup (ps_topics self) (gm_topic msg) = None")
  case True
  then have "\<not> acceptable nanos self msg" by (auto simp: acceptable_def fmlookup_dom_iff)
  moreover from True obtain e where "validate_gossipsub_msg chk nanos self msg = Done (self, Inl e)"
    by (cases "gm_source msg") (auto simp: validate_gossipsub_msg_def)
  ultimately show thesis by (intro that) auto
next
  case False
  then obtain p ts where src: "gm_source msg = Some p" and ts: "fmlookup (ps_topics self) (gm_topic msg) = Some ts"
    by auto
  note known = validate_known [OF assms src ts, of chk, unfolded Let_def]
  show thesis
  proof (cases "acceptable nanos self msg")
    case True
    then show thesis
      by (intro that [OF known [unfolded if_P [OF True]]]) (simp_all add: store_seq_facts [OF ts] src ts)
  next
    case False
    then show thesis
      by (intro that [OF known [unfolded if_not_P [OF False]]]) (simp_all add: store_seq_facts [OF ts])
  qed
qed

section \<open>Runs\<close>

text \<open>Incoming gossipsub messages with the time of their arrival; the accepted ones are returned.\<close>

fun pubsub_run :: "bool \<Rightarrow> pubsub \<Rightarrow> (nat \<times> peer_id \<times> message_id \<times> gs_message) list \<Rightarrow> (pubsub \<times> gs_message list) run" where
  "pubsub_run chk self [] = Done (self, [])"
| "pubsub_run chk self ((nanos, src, mid, msg) # rest) =
     run_bind (pubsub_on_inner_event chk nanos self (GsMessage src mid msg)) (\<lambda>(self, evs :: (pubsub_msg, unit) to_swarm list).
     run_bind (pubsub_run chk self rest) (\<lambda>(self, accepted).
       Done (self, if evs = [] then accepted else msg # accepted)))"

text \<open>\<open>m\<close> does not block \<open>m'\<close>: sent by someone else, to another topic, or within the window.\<close>

definition within_window :: "(topic_hash \<Rightarrow> nat) \<Rightarrow> gs_message \<Rightarrow> gs_message \<Rightarrow> bool" where
  "within_window keep m m' \<longleftrightarrow>
     (gm_source m = gm_source m' \<and> gm_topic m = gm_topic m' \<longrightarrow>
      unat (the (gm_sequence_number m)) < unat (the (gm_sequence_number m')) + keep (gm_topic m'))"

lemma on_inner_event_message:
  assumes "clock_ok nanos self"
  obtains self' evs where "pubsub_on_inner_event chk nanos self (GsMessage src mid msg) = Done (self', evs)"
    and "same_topics self self'"
    and "acceptable nanos self msg \<Longrightarrow> ps_inner self' = ps_inner self @ [GsReport mid src Accept] \<and>
           (\<exists>p ts. gm_source msg = Some p \<and> fmlookup (ps_topics self) (gm_topic msg) = Some ts \<and>
              evs = [GenerateEvent \<lparr>pm_peer_id = p, pm_topic = ts_name ts, pm_data = gm_data msg\<rparr>])"
    and "\<not> acceptable nanos self msg \<Longrightarrow> ps_inner self' = ps_inner self @ [GsReport mid src Reject] \<and> evs = []"
    and "\<And>t p. last_seq self' t p =
           (if acceptable nanos self msg \<and> t = gm_topic msg \<and> Some p = gm_source msg
            then max (last_seq self t p) (the (gm_sequence_number msg)) else last_seq self t p)"
proof (rule validate_result [OF assms, of chk msg])
  fix s res
  assume *: "validate_gossipsub_msg chk nanos self msg = Done (s, res)" "ps_inner s = ps_inner self" "same_topics self s"
    "acceptable nanos self msg \<Longrightarrow> \<exists>p ts. gm_source msg = Some p \<and> fmlookup (ps_topics self) (gm_topic msg) = Some ts \<and>
            res = Inr \<lparr>pm_peer_id = p, pm_topic = ts_name ts, pm_data = gm_data msg\<rparr>"
    "\<not> acceptable nanos self msg \<Longrightarrow> \<exists>e. res = Inl e"
    "\<And>t p. last_seq s t p = (if acceptable nanos self msg \<and> t = gm_topic msg \<and> Some p = gm_source msg
            then max (last_seq self t p) (the (gm_sequence_number msg)) else last_seq self t p)"
  have frame: "same_topics self (pubsub_report s mid src a)" "last_seq (pubsub_report s mid src a) = last_seq s" for a
    using *(3) by (auto simp: same_topics_def keep_last_def pubsub_report_def last_seq_def fun_eq_iff)
  show thesis
  proof (cases "acceptable nanos self msg")
    case True
    with *(4) obtain m where m: "res = Inr m" by blast
    with * frame True show thesis
      by (intro that [of "pubsub_report s mid src Accept" "[GenerateEvent m]"])
         (auto simp: pubsub_on_inner_event_def pubsub_report_def)
  next
    case False
    with *(5) obtain e where "res = Inl e" by blast
    with * frame False show thesis
      by (intro that [of "pubsub_report s mid src Reject" "[]"])
         (auto simp: pubsub_on_inner_event_def pubsub_report_def)
  qed
qed

lemma pubsub_run_window:
  assumes "\<forall>(nanos, src, mid, msg)\<in>set msgs. clock_ok nanos self"
  shows "\<exists>self' acc. pubsub_run chk self msgs = Done (self', acc) \<and> same_topics self self' \<and>
    (\<forall>m\<in>set acc. \<exists>p n. gm_source m = Some p \<and> gm_sequence_number m = Some n \<and>
        unat (last_seq self (gm_topic m) p) < unat n + keep_last self (gm_topic m)) \<and>
    sorted_wrt (within_window (keep_last self)) acc"
  using assms
proof (induction msgs arbitrary: self)
  case Nil
  then show ?case by simp
next
  case (Cons x rest)
  obtain nanos src mid msg where x: "x = (nanos, src, mid, msg)" by (cases x)
  from Cons.prems x have clk: "clock_ok nanos self" by simp
  obtain s evs where s: "pubsub_on_inner_event chk nanos self (GsMessage src mid msg) = Done (s, evs :: (pubsub_msg, unit) to_swarm list)"
    and st: "same_topics self s"
    and evs: "evs = [] \<longleftrightarrow> \<not> acceptable nanos self msg"
    and ls: "\<And>t p. last_seq s t p =
           (if acceptable nanos self msg \<and> t = gm_topic msg \<and> Some p = gm_source msg
            then max (last_seq self t p) (the (gm_sequence_number msg)) else last_seq self t p)"
    using on_inner_event_message [OF clk, of chk src mid msg thesis] by (metis list.distinct(1))
  from Cons.prems st have "\<forall>(nanos, src, mid, msg)\<in>set rest. clock_ok nanos s"
    by (auto simp: same_topics_clock)
  from Cons.IH [OF this] obtain s' acc where
    acc: "pubsub_run chk s rest = Done (s', acc)" "same_topics s s'"
      "\<forall>m\<in>set acc. \<exists>p n. gm_source m = Some p \<and> gm_sequence_number m = Some n \<and>
        unat (last_seq s (gm_topic m) p) < unat n + keep_last s (gm_topic m)"
      "sorted_wrt (within_window (keep_last s)) acc" by blast
  have keep: "keep_last s = keep_last self" using st by (auto simp: same_topics_def)
  have mono: "unat (last_seq self t p) \<le> unat (last_seq s t p)" for t p
    by (simp add: ls max_def word_le_nat_alt)
  have win: "within_window (keep_last self) msg m" if "acceptable nanos self msg" "m \<in> set acc" for m
    using that acc(3) by (auto simp: within_window_def ls keep max_def word_le_nat_alt acceptable_def)
      (fastforce simp: ls keep max_def word_le_nat_alt acceptable_def split: if_splits)
  show ?case
  proof (cases "acceptable nanos self msg")
    case True
    then obtain p n where "gm_source msg = Some p" "gm_sequence_number msg = Some n"
      "unat (last_seq self (gm_topic msg) p) < unat n + keep_last self (gm_topic msg)"
      by (auto simp: acceptable_def)
    with True win acc evs s x st keep le_less_trans [OF mono] same_topics_trans [OF st acc(2)] show ?thesis
      by (fastforce simp: del: run_bind_eq_Done)
  next
    case False
    with acc evs s x keep le_less_trans [OF mono] same_topics_trans [OF st acc(2)] show ?thesis
      by (fastforce simp: del: run_bind_eq_Done)
  qed
qed


section \<open>The wrapper contract\<close>

text \<open>
  The subscriptions are stored under the hash of their name. Together with a clock that
  leaves room for the retention windows this is all that the behaviour needs in order not
  to panic, whatever gossipsub reports.
\<close>

definition pubsub_inv :: "gossip \<Rightarrow> nat \<Rightarrow> pubsub \<Rightarrow> bool" where
  "pubsub_inv gs nanos self \<longleftrightarrow> clock_ok nanos self \<and>
     (\<forall>t ts. fmlookup (ps_topics self) t = Some ts \<longrightarrow> t = sha256_topic gs (ts_name ts))"

lemma pubsub_inv_same_topics:
  assumes "same_topics self self'" and "pubsub_inv gs nanos self"
  shows "pubsub_inv gs nanos self'"
  unfolding pubsub_inv_def
proof (intro conjI allI impI)
  show "clock_ok nanos self'" using assms by (simp add: pubsub_inv_def same_topics_clock)
  fix t ts assume "fmlookup (ps_topics self') t = Some ts"
  moreover from assms(1) have "map_option ts_name (fmlookup (ps_topics self') t) = map_option ts_name (fmlookup (ps_topics self) t)"
    by (simp add: same_topics_def)
  ultimately have "map_option ts_name (fmlookup (ps_topics self) t) = Some (ts_name ts)" by (metis option.map(2))
  then obtain ts0 where "fmlookup (ps_topics self) t = Some ts0" "ts_name ts0 = ts_name ts" by auto
  with assms(2) show "t = sha256_topic gs (ts_name ts)" unfolding pubsub_inv_def by metis
qed

lemma pubsub_inner_frame:
  "same_topics self (self\<lparr>ps_inner := c\<rparr>)" "pubsub_inv gs nanos (self\<lparr>ps_inner := c\<rparr>) = pubsub_inv gs nanos self"
  by (simp_all add: same_topics_def keep_last_def pubsub_inv_def clock_ok_def)

interpretation pubsub_wrapped:
  behaviour_wrapper "pubsub_wrapper gs chk nanos conn" "pubsub_inv gs nanos" "\<lambda>_ _. True" "\<lambda>_ _. True"
proof (unfold_locales, goal_cases)
  case (5 s ev)
  show ?case
  proof (cases ev)
    case (GsMessage src mid msg)
    from 5 have "clock_ok nanos s" by (simp add: pubsub_inv_def)
    then obtain s' and evs :: "(pubsub_msg, unit) to_swarm list"
      where "pubsub_on_inner_event chk nanos s (GsMessage src mid msg) = Done (s', evs)" "same_topics s s'"
      by (rule on_inner_event_message)
    with 5 GsMessage show ?thesis by (auto simp: pubsub_wrapper_def intro: pubsub_inv_same_topics)
  next
    case GsOther
    with 5 show ?thesis by (simp add: pubsub_wrapper_def pubsub_on_inner_event_def)
  qed
qed (auto simp: pubsub_wrapper_def default_on_swarm_event_def default_poll_def Let_def pubsub_inner_frame)

lemma pubsub_subscribe_inv:
  assumes "pubsub_inv gs nanos self" and "nanos + unat keep < 2 ^ 64"
  shows "pubsub_inv gs nanos (pubsub_subscribe gs now self name keep)"
  using assms
  by (auto simp: pubsub_inv_def pubsub_subscribe_def topic_state_new_def clock_ok_def keep_last_def Let_def)

lemma pubsub_publish_inv:
  "pubsub_inv gs nanos (fst (pubsub_publish gs now self name m)) = pubsub_inv gs nanos self"
  by (simp add: pubsub_publish_def Let_def pubsub_inner_frame split: option.split)

section \<open>Properties\<close>

text \<open>A subscription to one topic with a window of 5, for the witnesses.\<close>

definition demo_gossip :: gossip where
  "demo_gossip = \<lparr>sha256_topic = \<lambda>n. ''#'' @ n, gs_subscribe_ok = \<lambda>_. True,
     gs_publish_result = \<lambda>_. PublishOk, gs_poll_result = \<lambda>_. Pending\<rparr>"

definition demo_pubsub :: pubsub where
  "demo_pubsub = pubsub_subscribe demo_gossip 0 (pubsub_new (Keypair []) 65536) ''ping'' 5"

definition demo_gs_msg :: "u64 \<Rightarrow> gs_message" where
  "demo_gs_msg n = \<lparr>gm_source = Some (PeerId [1]), gm_data = [42], gm_sequence_number = Some n, gm_topic = ''#ping''\<rparr>"

lemma demo_pubsub_eval:
  "demo_pubsub = \<lparr>ps_inner = [GsNew (Keypair []) 65536, GsSubscribe ''ping''],
     ps_topics = fmupd ''#ping'' \<lparr>ts_name = ''ping'', ts_sequence_numbers = fmempty, ts_keep_last = 5, ts_subscribed_at = 0\<rparr> fmempty\<rparr>"
  by (simp add: demo_pubsub_def pubsub_subscribe_def demo_gossip_def pubsub_new_def topic_state_new_def)

lemma demo_pubsub_clock: "n \<le> 1000 \<Longrightarrow> clock_ok n demo_pubsub"
  by (simp add: clock_ok_def demo_pubsub_eval keep_last_def)

text \<open>
  C8. For every gossipsub message exactly one verdict is reported to gossipsub. The
  message is accepted and emitted, with its sender, the name of its topic and its data,
  if and only if it has a sender, a known topic and a sequence number that is not in the
  future and not \<open>keep_last\<close> or more below the largest one accepted from this sender on this
  topic; it is rejected and dropped otherwise. Accepting it raises the recorded number
  of that sender and topic to the maximum; nothing else about the recorded numbers, the
  topics or their windows changes, and no message makes the handler panic.
\<close>

theorem pubsub_validation:
  assumes "clock_ok nanos self"
  shows "\<exists>self' evs. pubsub_on_inner_event chk nanos self (GsMessage src mid msg) =
            (Done (self', evs) :: (pubsub \<times> (pubsub_msg, 'c) to_swarm list) run) \<and>
    same_topics self self' \<and>
    (if acceptable nanos self msg
     then ps_inner self' = ps_inner self @ [GsReport mid src Accept] \<and>
          (\<exists>p ts. gm_source msg = Some p \<and> fmlookup (ps_topics self) (gm_topic msg) = Some ts \<and>
             evs = [GenerateEvent \<lparr>pm_peer_id = p, pm_topic = ts_name ts, pm_data = gm_data msg\<rparr>])
     else ps_inner self' = ps_inner self @ [GsReport mid src Reject] \<and> evs = []) \<and>
    (\<forall>t p. last_seq self' t p =
       (if acceptable nanos self msg \<and> t = gm_topic msg \<and> Some p = gm_source msg
        then max (last_seq self t p) (the (gm_sequence_number msg)) else last_seq self t p))"
proof -
  obtain self' evs where
    *: "pubsub_on_inner_event chk nanos self (GsMessage src mid msg) =
          (Done (self', evs) :: (pubsub \<times> (pubsub_msg, 'c) to_swarm list) run)" "same_topics self self'"
      "acceptable nanos self msg \<Longrightarrow> ps_inner self' = ps_inner self @ [GsReport mid src Accept] \<and>
           (\<exists>p ts. gm_source msg = Some p \<and> fmlookup (ps_topics self) (gm_topic msg) = Some ts \<and>
              evs = [GenerateEvent \<lparr>pm_peer_id = p, pm_topic = ts_name ts, pm_data = gm_data msg\<rparr>])"
      "\<not> acceptable nanos self msg \<Longrightarrow> ps_inner self' = ps_inner self @ [GsReport mid src Reject] \<and> evs = []"
      "\<And>t p. last_seq self' t p =
           (if acceptable nanos self msg \<and> t = gm_topic msg \<and> Some p = gm_source msg
            then max (last_seq self t p) (the (gm_sequence_number msg)) else last_seq self t p)"
    using on_inner_event_message [OF assms, of chk src mid msg thesis] by blast
  show ?thesis by (intro exI [of _ self'] exI [of _ evs]) (use * in auto)
qed

theorem pubsub_validation_witness:
  "\<exists>self' evs. pubsub_on_inner_event True 1000 demo_pubsub (GsMessage (PeerId [2]) ''id'' (demo_gs_msg 7)) =
      (Done (self', evs) :: (pubsub \<times> (pubsub_msg, unit) to_swarm list) run) \<and>
    evs = [GenerateEvent \<lparr>pm_peer_id = PeerId [1], pm_topic = ''ping'', pm_data = [42]\<rparr>] \<and>
    last_seq self' ''#ping'' (PeerId [1]) = 7"
proof -
  have a: "acceptable 1000 demo_pubsub (demo_gs_msg 7)"
    by (simp add: acceptable_def demo_gs_msg_def demo_pubsub_eval last_seq_def keep_last_def)
  have l: "last_seq demo_pubsub ''#ping'' (PeerId [1]) = 0"
    by (simp add: demo_pubsub_eval last_seq_def)
  have t: "fmlookup (ps_topics demo_pubsub) ''#ping'' = Some ts \<Longrightarrow> ts_name ts = ''ping''" for ts
    by (auto simp: demo_pubsub_eval)
  note fields = demo_gs_msg_def gs_message.simps option.sel option.inject
  from pubsub_validation [OF demo_pubsub_clock [of 1000, OF order_refl], of True "PeerId [2]" "''id''" "demo_gs_msg 7", where 'c = unit]
  obtain self' p ts and evs :: "(pubsub_msg, unit) to_swarm list" where
    r: "pubsub_on_inner_event True 1000 demo_pubsub (GsMessage (PeerId [2]) ''id'' (demo_gs_msg 7)) = Done (self', evs)"
      "Some (PeerId [1]) = Some p" "fmlookup (ps_topics demo_pubsub) ''#ping'' = Some ts"
      "evs = [GenerateEvent \<lparr>pm_peer_id = p, pm_topic = ts_name ts, pm_data = [42]\<rparr>]"
      "last_seq self' ''#ping'' (PeerId [1]) = max (last_seq demo_pubsub ''#ping'' (PeerId [1])) 7"
    unfolding if_P [OF a] fields by (auto simp: a [unfolded fields])
  show ?thesis
    by (intro exI [of _ self'] exI [of _ evs]) (use r l in \<open>simp add: t max_def\<close>)
qed

text \<open>
  C21. However messages arrive and whatever is rejected in between, among the accepted
  messages of one sender on one topic none precedes another by a sequence number that is
  \<open>keep_last\<close> or more larger: replays of messages that have left the window never get
  through. With \<open>keep_last = 0\<close>, accepted sequence numbers are strictly increasing.
\<close>

theorem pubsub_no_replay:
  assumes "\<forall>(nanos, src, mid, msg)\<in>set msgs. clock_ok nanos self"
  shows "\<exists>self' acc. pubsub_run chk self msgs = Done (self', acc) \<and>
    sorted_wrt (within_window (keep_last self)) acc"
  using pubsub_run_window [OF assms] by blast

theorem pubsub_no_replay_witness:
  "\<exists>self' acc. pubsub_run False demo_pubsub
      [(1000, PeerId [2], ''a'', demo_gs_msg 7), (1000, PeerId [3], ''b'', demo_gs_msg 2), (1000, PeerId [2], ''c'', demo_gs_msg 3)] =
      Done (self', acc) \<and> sorted_wrt (within_window (keep_last demo_pubsub)) acc"
  by (rule pubsub_no_replay) (simp add: demo_pubsub_clock)

end
