(* ===== verification/Allow_List.thy ===== *)
theory Allow_List
  imports External
begin

text \<open>
  The list of peers that a node accepts connections from. It belongs to the library behaviour
  \<open>allow_block_list\<close> and is represented by the calls made on it. Two programs keep it in step with the
  nodes registered on chain: the base behaviour of the actors and the boot node. What they promise is the
  locale \<open>node_list\<close>; what follows is that both implement the same abstract list.
\<close>

datatype allow_call = AllowPeer peer_id | DisallowPeer peer_id

text \<open>The peers that are allowed after a sequence of calls.\<close>

definition allow_step :: "allow_call \<Rightarrow> peer_id set \<Rightarrow> peer_id set" where
  "allow_step c A = (case c of AllowPeer p \<Rightarrow> insert p A | DisallowPeer p \<Rightarrow> A - {p})"

definition allowed :: "allow_call list \<Rightarrow> peer_id set" where
  "allowed calls = fold allow_step calls {}"

lemma allowed_snoc [simp]:
  "allowed [] = {}"
  "allowed (calls @ [AllowPeer p]) = insert p (allowed calls)"
  "allowed (calls @ [DisallowPeer p]) = allowed calls - {p}"
  by (simp_all add: allowed_def allow_step_def)

lemma allowed_append_map:
  "allowed (calls @ map AllowPeer ps) = allowed calls \<union> set ps"
  "allowed (calls @ map DisallowPeer ps) = allowed calls - set ps"
proof -
  have "fold allow_step (map AllowPeer ps) A = A \<union> set ps" for A
    by (induction ps arbitrary: A) (auto simp: allow_step_def)
  moreover have "fold allow_step (map DisallowPeer ps) A = A - set ps" for A
    by (induction ps arbitrary: A) (auto simp: allow_step_def)
  ultimately show "allowed (calls @ map AllowPeer ps) = allowed calls \<union> set ps"
    "allowed (calls @ map DisallowPeer ps) = allowed calls - set ps"
    by (simp_all add: allowed_def)
qed

text \<open>Iterating over a hash set visits its elements in some order.\<close>

definition peer_order_laws :: "(peer_id fset \<Rightarrow> peer_id list) \<Rightarrow> bool" where
  "peer_order_laws order \<longleftrightarrow> (\<forall>ps. set (order ps) = fset ps)"

section \<open>The abstract list\<close>

text \<open>
  The registered nodes, and the peers that were allowed for another reason and have never
  been registered. The peers that are allowed are those of both sets. A peer that
  was ever registered is allowed only as long as it is registered.
\<close>

definition node_spec :: "'e + peer_id fset \<Rightarrow> peer_id set \<times> peer_id set \<Rightarrow> peer_id set \<times> peer_id set" where
  "node_spec res st = (case res of Inl _ \<Rightarrow> st | Inr nodes \<Rightarrow> (fset nodes, snd st - fset nodes))"

definition node_view :: "peer_id set \<times> peer_id set \<Rightarrow> peer_id set" where
  "node_view st = fst st \<union> snd st"

text \<open>The lists of nodes among the results.\<close>

definition node_lists :: "('e + peer_id fset) list \<Rightarrow> peer_id fset list" where
  "node_lists rs = List.map_filter (\<lambda>r. case r of Inr n \<Rightarrow> Some n | Inl _ \<Rightarrow> None) rs"

lemma node_lists_simps [simp]:
  "node_lists [] = []" "node_lists (Inl e # rs) = node_lists rs" "node_lists (Inr n # rs) = n # node_lists rs"
  by (simp_all add: node_lists_def List.map_filter_simps)

lemma node_spec_simps [simp]:
  "node_spec (Inl e) st = st" "node_spec (Inr nodes) st = (fset nodes, snd st - fset nodes)"
  by (simp_all add: node_spec_def)

lemma node_spec_fold:
  "fold node_spec rs (R, S) =
     (case node_lists rs of [] \<Rightarrow> (R, S) | ns \<Rightarrow> (fset (last ns), S - \<Union> (fset ` set ns)))"
proof (induction rs arbitrary: R S)
  case (Cons r rs)
  show ?case
  proof (cases r)
    case (Inr n)
    then show ?thesis using Cons.IH [of "fset n" "S - fset n"] by (auto split: list.splits)
  qed (simp add: Cons.IH)
qed simp

section \<open>The contract of a node that follows the list\<close>

locale node_list =
  fixes update :: "'s \<Rightarrow> 'e + peer_id fset \<Rightarrow> 's"
    and registered :: "'s \<Rightarrow> peer_id fset"
    and allow_calls :: "'s \<Rightarrow> allow_call list"
    and order :: "peer_id fset \<Rightarrow> peer_id list"
  assumes update_error: "update s (Inl e) = s"
    and registered_update: "registered (update s (Inr nodes)) = nodes"
    and allowed_update: "peer_order_laws order \<Longrightarrow>
      allowed (allow_calls (update s (Inr nodes))) =
        allowed (allow_calls s) - (fset (registered s) - fset nodes) \<union> (fset nodes - fset (registered s))"
begin

text \<open>The abstraction relation: the second set has no registered node.\<close>

definition implements :: "'s \<Rightarrow> peer_id set \<times> peer_id set \<Rightarrow> bool" where
  "implements s st \<longleftrightarrow> fst st = fset (registered s) \<and> fst st \<inter> snd st = {} \<and> allowed (allow_calls s) = node_view st"

lemma update_refines:
  assumes "peer_order_laws order" and "implements s st"
  shows "implements (update s res) (node_spec res st)"
  using assms allowed_update [OF assms(1), of s]
  by (cases res; cases st) (auto simp: implements_def node_view_def update_error registered_update)

lemma updates_refine:
  assumes "peer_order_laws order" and "implements s st"
  shows "implements (fold (\<lambda>r s. update s r) rs s) (fold node_spec rs st)"
  using assms(2) update_refines [OF assms(1)] by (induction rs arbitrary: s st) simp_all

lemma updates_from_start:
  assumes "peer_order_laws order" and "registered s0 = {||}"
  shows "fset (registered (fold (\<lambda>r s. update s r) rs s0)) = fst (fold node_spec rs ({}, allowed (allow_calls s0)))"
    and "allowed (allow_calls (fold (\<lambda>r s. update s r) rs s0)) = node_view (fold node_spec rs ({}, allowed (allow_calls s0)))"
proof -
  have "implements s0 ({}, allowed (allow_calls s0))" using assms(2) by (simp add: implements_def node_view_def)
  from updates_refine [OF assms(1) this, of rs]
  show "fset (registered (fold (\<lambda>r s. update s r) rs s0)) = fst (fold node_spec rs ({}, allowed (allow_calls s0)))"
    "allowed (allow_calls (fold (\<lambda>r s. update s r) rs s0)) = node_view (fold node_spec rs ({}, allowed (allow_calls s0)))"
    by (simp_all add: implements_def)
qed

end

end
