(* ===== verification/Base.thy ===== *)
theory Base
  imports Pubsub Signatures Transport_Util Queue Allow_List
begin

text \<open>
  The base behaviour that every actor of the network wraps
  (transport/src/behaviour/base.rs): peer discovery through kademlia, probing of peers, the allow
  list of registered nodes, and the signed messages on the pub-sub topics.

  The library behaviours inside it are represented by the calls made on them; what they and
  the containers do is given by the parameter record \<open>libs\<close>. The global gauges that the
  behaviour updates are threaded through its state.
\<close>

section \<open>The inner behaviour\<close>

datatype kad_call =
    KadGetClosestPeers peer_id
  | KadAddAddress peer_id multiaddr

datatype autonat_call = AddServer peer_id multiaddr

text \<open>
  What the discovery behaviours of the library (\<open>identify\<close>, \<open>kademlia\<close>, \<open>autonat\<close>, \<open>dcutr\<close>) are created with.
\<close>

record discovery_settings =
  ds_local_peer_id :: peer_id
  ds_id_protocol :: string
  ds_identify_key :: pubkey
  ds_identify_interval :: nat
  ds_push_listen_addr_updates :: bool
  ds_dht_protocol :: string
  ds_replication_factor :: nat
  ds_autonat_timeout :: nat

text \<open>
  The inner behaviours: their settings, and the calls that \<open>BaseBehaviour\<close> makes on them. (\<open>identify\<close>, \<open>relay\<close>, \<open>dcutr\<close> and
  \<open>ping\<close> are only created, and then run by the swarm.)
\<close>

record 'lru inner_behaviour =
  ib_settings :: discovery_settings
  ib_kademlia :: "kad_call list"
  ib_autonat :: "autonat_call list"
  ib_allow :: "allow_call list"
  ib_pubsub :: "(pubsub, pubsub_msg, unit) wrapped"
  ib_address_cache :: "'lru address_cache"

datatype nat_status = NatPublic multiaddr | NatPrivate | NatUnknown

text \<open>
  Events of the inner behaviours. The result of a query for the closest peers carries the
  peers found, whether the query finished or timed out.
\<close>

datatype inner_event =
    IdentifyReceived peer_id "multiaddr list" "string list"
  | IdentifyOther
  | KadClosestPeers query_id bool "(peer_id \<times> multiaddr list) list"
  | KadOther
  | AutonatStatusChanged nat_status
  | AutonatOther
  | PubsubEvent pubsub_msg
  | PingEvent
  | DcutrEvent
  | OtherInner

record ('lru, 'fm, 'bm, 'ns, 'err) libs =
  l_kad_id :: "kad_call list \<Rightarrow> query_id"
  l_lru :: "'lru lru_cache"
  l_timers :: "'fm futures_map"
  l_bimap :: "'bm bi_map"
  l_stream_poll :: "'ns \<Rightarrow> 'ns \<times> ('err + peer_id fset) option poll"
  l_gossip :: gossip
  l_crypto :: crypto
  l_protobuf :: protobuf
  l_order :: "peer_id fset \<Rightarrow> peer_id list" \<comment> \<open>iteration order of a hash set\<close>
  l_env :: "string \<Rightarrow> string option" \<comment> \<open>environment variables\<close>
  l_chk :: bool \<comment> \<open>overflow checks\<close>

section \<open>State\<close>

record base_config =
  bc_nodes_update_interval :: nat \<comment> \<open>seconds\<close>
  bc_autonat_timeout :: nat
  bc_identify_interval :: nat
  bc_request_timeout :: nat
  bc_probe_timeout :: nat
  bc_max_concurrent_probes :: nat
  bc_max_pubsub_msg_size :: nat
  bc_addr_cache_size :: nat

definition base_config_default :: base_config where
  "base_config_default =
     \<lparr>bc_nodes_update_interval = 300, bc_autonat_timeout = 60, bc_identify_interval = 60,
      bc_request_timeout = 60, bc_probe_timeout = 60, bc_max_concurrent_probes = 1000,
      bc_max_pubsub_msg_size = max_pubsub_msg_size, bc_addr_cache_size = 1024\<rparr>"

record ('lru, 'fm, 'bm, 'ns) base =
  bb_inner :: "'lru inner_behaviour"
  bb_keypair :: keypair
  bb_ongoing_queries :: 'bm
  bb_outbound_conns :: "(peer_id, u32) fmap"
  bb_probe_timeouts :: 'fm
  bb_registered_nodes :: "peer_id fset"
  bb_active_nodes_stream :: 'ns
  bb_max_pubsub_msg_size :: nat
  bb_metrics :: metrics

definition allow_peer_call :: "peer_id \<Rightarrow> 'lru inner_behaviour \<Rightarrow> 'lru inner_behaviour" where
  "allow_peer_call p inner = inner\<lparr>ib_allow := ib_allow inner @ [AllowPeer p]\<rparr>"

definition disallow_peer_call :: "peer_id \<Rightarrow> 'lru inner_behaviour \<Rightarrow> 'lru inner_behaviour" where
  "disallow_peer_call p inner = inner\<lparr>ib_allow := ib_allow inner @ [DisallowPeer p]\<rparr>"

definition add_boot_node :: "boot_node \<Rightarrow> 'lru inner_behaviour \<Rightarrow> 'lru inner_behaviour" where
  "add_boot_node bn inner =
     (let inner = allow_peer_call (bn_peer_id bn) inner in
      inner\<lparr>ib_autonat := ib_autonat inner @ [AddServer (bn_peer_id bn) (bn_address bn)]\<rparr>)"

text \<open>\<open>nodes_stream\<close> is the stream that the contract client returns for the update interval.\<close>

definition base_new ::
    "('lru, 'fm, 'bm, 'ns, 'err) libs \<Rightarrow> keypair \<Rightarrow> (nat \<Rightarrow> 'ns) \<Rightarrow> base_config \<Rightarrow> boot_node list \<Rightarrow> string \<Rightarrow> metrics \<Rightarrow>
     ('lru, 'fm, 'bm, 'ns) base" where
  "base_new L keypair nodes_stream config boot_nodes dht m =
     (let public = keypair_public (l_crypto L) keypair;
          inner = \<lparr>ib_settings = \<lparr>ds_local_peer_id = pubkey_peer_id (l_crypto L) public, ds_id_protocol = id_protocol,
                     ds_identify_key = public, ds_identify_interval = bc_identify_interval config,
                     ds_push_listen_addr_updates = True, ds_dht_protocol = dht, ds_replication_factor = 20,
                     ds_autonat_timeout = bc_autonat_timeout config\<rparr>,
                   ib_kademlia = [], ib_autonat = [], ib_allow = [],
                   ib_pubsub = wrapped_from (pubsub_new keypair (bc_max_pubsub_msg_size config)),
                   ib_address_cache = address_cache_new (l_lru L) (bc_addr_cache_size config)\<rparr>;
          inner = fold add_boot_node boot_nodes inner in
      \<lparr>bb_inner = inner, bb_keypair = keypair, bb_ongoing_queries = bm_new (l_bimap L), bb_outbound_conns = fmempty,
       bb_probe_timeouts = fm_new (l_timers L) (bc_probe_timeout config) (bc_max_concurrent_probes config),
       bb_registered_nodes = {||}, bb_active_nodes_stream = nodes_stream (bc_nodes_update_interval config),
       bb_max_pubsub_msg_size = bc_max_pubsub_msg_size config, bb_metrics = m\<rparr>)"

section \<open>Topics\<close>

definition on_pubsub :: "(pubsub \<Rightarrow> pubsub) \<Rightarrow> ('lru, 'fm, 'bm, 'ns) base \<Rightarrow> ('lru, 'fm, 'bm, 'ns) base" where
  "on_pubsub f self =
     (let inner = bb_inner self; w = ib_pubsub inner in
      self\<lparr>bb_inner := inner\<lparr>ib_pubsub := w\<lparr>wrapper := f (wrapper w)\<rparr>\<rparr>\<rparr>)"

definition base_subscribe_pings ::
    "('lru, 'fm, 'bm, 'ns, 'err) libs \<Rightarrow> nat \<Rightarrow> ('lru, 'fm, 'bm, 'ns) base \<Rightarrow> ('lru, 'fm, 'bm, 'ns) base" where
  "base_subscribe_pings L now = on_pubsub (\<lambda>p. pubsub_subscribe (l_gossip L) now p ping_topic 1)"

definition base_subscribe_worker_logs ::
    "('lru, 'fm, 'bm, 'ns, 'err) libs \<Rightarrow> nat \<Rightarrow> ('lru, 'fm, 'bm, 'ns) base \<Rightarrow> ('lru, 'fm, 'bm, 'ns) base" where
  "base_subscribe_worker_logs L now =
     on_pubsub (\<lambda>p. pubsub_subscribe (l_gossip L) now p worker_logs_topic keep_last_worker_logs)"

definition base_subscribe_logs_collected ::
    "('lru, 'fm, 'bm, 'ns, 'err) libs \<Rightarrow> nat \<Rightarrow> ('lru, 'fm, 'bm, 'ns) base \<Rightarrow> ('lru, 'fm, 'bm, 'ns) base" where
  "base_subscribe_logs_collected L now =
     on_pubsub (\<lambda>p. pubsub_subscribe (l_gossip L) now p logs_collected_topic 1)"

definition base_sign ::
    "('lru, 'fm, 'bm, 'ns, 'err) libs \<Rightarrow> ('lru, 'fm, 'bm, 'ns) base \<Rightarrow> 'm signed \<Rightarrow> 'm \<Rightarrow> 'm run" where
  "base_sign L self sg msg = sign (l_crypto L) sg (bb_keypair self) msg"

definition base_publish ::
    "('lru, 'fm, 'bm, 'ns, 'err) libs \<Rightarrow> nat \<Rightarrow> ('lru, 'fm, 'bm, 'ns) base \<Rightarrow> string \<Rightarrow> bytes \<Rightarrow> ('lru, 'fm, 'bm, 'ns) base" where
  "base_publish L now self topic msg = on_pubsub (\<lambda>p. fst (pubsub_publish (l_gossip L) now p topic msg)) self"

definition base_publish_ping ::
    "('lru, 'fm, 'bm, 'ns, 'err) libs \<Rightarrow> nat \<Rightarrow> ('lru, 'fm, 'bm, 'ns) base \<Rightarrow> ping \<Rightarrow> ('lru, 'fm, 'bm, 'ns) base run" where
  "base_publish_ping L now self p =
     run_bind (base_sign L self (ping_signed (l_protobuf L)) p) (\<lambda>p.
       Done (base_publish L now self ping_topic (enc_ping (l_protobuf L) p)))"

text \<open>
  \<open>bundle_messages\<close>: messages above the limit are left out; then, as long as there are
  messages, a bundle takes messages while they fit.
\<close>

fun take_bundle :: "nat \<Rightarrow> (nat \<times> 'm) list \<Rightarrow> 'm list \<times> (nat \<times> 'm) list" where
  "take_bundle remaining_cap [] = ([], [])"
| "take_bundle remaining_cap ((sz, msg) # rest) =
     (if sz \<le> remaining_cap
      then let (bundle, rest') = take_bundle (remaining_cap - sz) rest in (msg # bundle, rest')
      else ([], (sz, msg) # rest))"

lemma take_bundle_length: "take_bundle c xs = (b, rest) \<Longrightarrow> length b + length rest = length xs"
  by (induction c xs arbitrary: b rest rule: take_bundle.induct) (auto split: if_splits prod.splits)

function bundles :: "nat \<Rightarrow> (nat \<times> 'm) list \<Rightarrow> 'm list list" where
  "bundles size_limit iter =
     (let (bundle, rest) = take_bundle size_limit iter in
      if bundle = [] then [] else bundle # bundles size_limit rest)"
  by auto
termination
proof (relation "measure (\<lambda>(_, iter). length iter)", goal_cases)
  case (2 size_limit iter x b r)
  then have "length b + length r = length iter" by (simp add: take_bundle_length)
  with 2 show ?case by (cases b) auto
qed simp

declare bundles.simps [simp del]

definition bundle_messages :: "('m \<Rightarrow> nat) \<Rightarrow> 'm list \<Rightarrow> nat \<Rightarrow> 'm list list" where
  "bundle_messages encoded_len messages size_limit =
     bundles size_limit
       (List.map_filter (\<lambda>msg. let msg_size = encoded_len msg in if size_limit < msg_size then None else Some (msg_size, msg)) messages)"

fun sign_all :: "('m \<Rightarrow> 'm run) \<Rightarrow> 'm list \<Rightarrow> 'm list run" where
  "sign_all f [] = Done []"
| "sign_all f (m # ms) = run_bind (f m) (\<lambda>m. run_bind (sign_all f ms) (\<lambda>ms. Done (m # ms)))"

definition base_publish_worker_logs ::
    "('lru, 'fm, 'bm, 'ns, 'err) libs \<Rightarrow> nat \<Rightarrow> ('lru, 'fm, 'bm, 'ns) base \<Rightarrow> query_executed list \<Rightarrow> ('lru, 'fm, 'bm, 'ns) base run" where
  "base_publish_worker_logs L now self logs =
     run_bind (sign_all (base_sign L self (query_executed_signed (l_protobuf L))) logs) (\<lambda>logs.
       Done (fold (\<lambda>bundle self.
           let msg = worker_logs_msg_from_queries bundle in
           base_publish L now self worker_logs_topic (enc_worker_logs_msg (l_protobuf L) msg))
         (bundle_messages (len_query_executed (l_protobuf L)) logs (bb_max_pubsub_msg_size self)) self))"

definition base_publish_logs_collected ::
    "('lru, 'fm, 'bm, 'ns, 'err) libs \<Rightarrow> nat \<Rightarrow> ('lru, 'fm, 'bm, 'ns) base \<Rightarrow> logs_collected \<Rightarrow> ('lru, 'fm, 'bm, 'ns) base" where
  "base_publish_logs_collected L now self logs_collected =
     (let self = base_publish L now self logs_collected_topic (enc_logs_collected (l_protobuf L) logs_collected);
          msg = worker_logs_msg_from_logs_collected logs_collected in
      base_publish L now self worker_logs_topic (enc_worker_logs_msg (l_protobuf L) msg))"

section \<open>Discovery and probing\<close>

definition base_find_and_dial ::
    "('lru, 'fm, 'bm, 'ns, 'err) libs \<Rightarrow> ('lru, 'fm, 'bm, 'ns) base \<Rightarrow> peer_id \<Rightarrow> ('lru, 'fm, 'bm, 'ns) base" where
  "base_find_and_dial L self peer_id =
     (if bm_contains_left (l_bimap L) (bb_ongoing_queries self) peer_id then self
      else let calls = ib_kademlia (bb_inner self) @ [KadGetClosestPeers peer_id];
               query_id = l_kad_id L calls in
           self\<lparr>bb_inner := (bb_inner self)\<lparr>ib_kademlia := calls\<rparr>,
                bb_ongoing_queries := bm_insert (l_bimap L) (bb_ongoing_queries self) peer_id query_id,
                bb_metrics := inc_ongoing_queries (bb_metrics self)\<rparr>)"

definition base_try_probe_peer ::
    "('lru, 'fm, 'bm, 'ns, 'err) libs \<Rightarrow> ('lru, 'fm, 'bm, 'ns) base \<Rightarrow> peer_id \<Rightarrow>
     ('lru, 'fm, 'bm, 'ns) base \<times> (queue_full + bool)" where
  "base_try_probe_peer L self peer_id =
     (if (case fmlookup (bb_outbound_conns self) peer_id of Some x \<Rightarrow> 0 < x | None \<Rightarrow> False) then (self, Inr True)
      else if fm_contains (l_timers L) (bb_probe_timeouts self) peer_id then (self, Inr False)
      else case fm_try_push (l_timers L) (bb_probe_timeouts self) peer_id of
             (ts, False) \<Rightarrow> (self\<lparr>bb_probe_timeouts := ts\<rparr>, Inl QueueFull)
           | (ts, True) \<Rightarrow>
               (base_find_and_dial L
                  (self\<lparr>bb_probe_timeouts := ts, bb_metrics := inc_ongoing_probes (bb_metrics self)\<rparr>) peer_id,
                Inr False))"

definition base_allow_peer :: "('lru, 'fm, 'bm, 'ns) base \<Rightarrow> peer_id \<Rightarrow> ('lru, 'fm, 'bm, 'ns) base" where
  "base_allow_peer self peer_id = self\<lparr>bb_inner := allow_peer_call peer_id (bb_inner self)\<rparr>"

definition base_on_nodes_update ::
    "('lru, 'fm, 'bm, 'ns, 'err) libs \<Rightarrow> ('lru, 'fm, 'bm, 'ns) base \<Rightarrow> 'err + peer_id fset \<Rightarrow> ('lru, 'fm, 'bm, 'ns) base" where
  "base_on_nodes_update L self result =
     (case result of
        Inl e \<Rightarrow> self
      | Inr nodes \<Rightarrow>
          if nodes = bb_registered_nodes self then self
          else let inner = fold disallow_peer_call (l_order L (bb_registered_nodes self |-| nodes)) (bb_inner self);
                   inner = fold allow_peer_call (l_order L (nodes |-| bb_registered_nodes self)) inner in
               self\<lparr>bb_inner := inner, bb_registered_nodes := nodes\<rparr>)"

section \<open>Event handlers\<close>

datatype base_event =
    EvPing peer_id ping
  | EvWorkerQueryLogs peer_id query_logs
  | EvLogsCollected peer_id logs_collected
  | EvPeerProbed peer_id bool
  | EvPeerProtocols peer_id "string list"

type_synonym 'cmd base_out = "(base_event, 'cmd) to_swarm list"

text \<open>The entry of the peer is created with 0 before it is incremented.\<close>

definition base_on_connection_established ::
    "('lru, 'fm, 'bm, 'ns, 'err) libs \<Rightarrow> ('lru, 'fm, 'bm, 'ns) base \<Rightarrow> peer_id \<Rightarrow> endpoint \<Rightarrow>
     (('lru, 'fm, 'bm, 'ns) base \<times> 'cmd base_out) run" where
  "base_on_connection_established L self conn_peer ep =
     (let self = self\<lparr>bb_metrics := inc_active_connections (bb_metrics self)\<rparr> in
      case ep of
        Listener \<Rightarrow> Done (self, [])
      | Dialer \<Rightarrow>
          let n = (case fmlookup (bb_outbound_conns self) conn_peer of Some n \<Rightarrow> n | None \<Rightarrow> 0) in
          run_bind (add_chk (l_chk L) n 1) (\<lambda>n'.
            let self = self\<lparr>bb_outbound_conns := fmupd conn_peer n' (bb_outbound_conns self)\<rparr>;
                (ts, was_probed) = fm_remove (l_timers L) (bb_probe_timeouts self) conn_peer;
                self = self\<lparr>bb_probe_timeouts := ts\<rparr> in
            if was_probed
            then Done (self\<lparr>bb_metrics := dec_ongoing_probes (bb_metrics self)\<rparr>,
                       [GenerateEvent (EvPeerProbed conn_peer True)])
            else Done (self, [])))"

definition base_on_connection_closed ::
    "('lru, 'fm, 'bm, 'ns, 'err) libs \<Rightarrow> ('lru, 'fm, 'bm, 'ns) base \<Rightarrow> peer_id \<Rightarrow> endpoint \<Rightarrow>
     (('lru, 'fm, 'bm, 'ns) base \<times> 'cmd base_out) run" where
  "base_on_connection_closed L self conn_peer ep =
     (let self = self\<lparr>bb_metrics := dec_active_connections (bb_metrics self)\<rparr> in
      case ep of
        Listener \<Rightarrow> Done (self, [])
      | Dialer \<Rightarrow>
          (case fmlookup (bb_outbound_conns self) conn_peer of
             Some x \<Rightarrow> run_bind (sub_chk (l_chk L) x 1) (\<lambda>x'.
                         Done (self\<lparr>bb_outbound_conns := fmupd conn_peer x' (bb_outbound_conns self)\<rparr>, []))
           | None \<Rightarrow> Done (self, [])))"

definition base_on_swarm_event ::
    "('lru, 'fm, 'bm, 'ns, 'err) libs \<Rightarrow> ('lru, 'fm, 'bm, 'ns) base \<Rightarrow> swarm_event \<Rightarrow>
     (('lru, 'fm, 'bm, 'ns) base \<times> 'cmd base_out) run" where
  "base_on_swarm_event L self ev =
     (case ev of
        ConnectionEstablished p ep \<Rightarrow> base_on_connection_established L self p ep
      | ConnectionClosed p ep \<Rightarrow> base_on_connection_closed L self p ep
      | _ \<Rightarrow> Done (self, []))"

definition put_addrs ::
    "('lru, 'fm, 'bm, 'ns, 'err) libs \<Rightarrow> peer_id \<Rightarrow> multiaddr list \<Rightarrow> 'lru inner_behaviour \<Rightarrow> 'lru inner_behaviour" where
  "put_addrs L p addrs inner = inner\<lparr>ib_address_cache := address_cache_put (l_lru L) (ib_address_cache inner) p addrs\<rparr>"

definition base_on_identify_received ::
    "('lru, 'fm, 'bm, 'ns, 'err) libs \<Rightarrow> ('lru, 'fm, 'bm, 'ns) base \<Rightarrow> peer_id \<Rightarrow> multiaddr list \<Rightarrow> string list \<Rightarrow>
     ('lru, 'fm, 'bm, 'ns) base \<times> 'cmd base_out" where
  "base_on_identify_received L self peer_id listen_addrs protocols =
     (let listen_addrs = filter (addr_is_reachable (l_env L)) listen_addrs;
          inner = put_addrs L peer_id listen_addrs (bb_inner self);
          inner = inner\<lparr>ib_kademlia := ib_kademlia inner @ map (KadAddAddress peer_id) listen_addrs\<rparr> in
      (self\<lparr>bb_inner := inner\<rparr>, [GenerateEvent (EvPeerProtocols peer_id protocols)]))"

definition base_on_closest_peers ::
    "('lru, 'fm, 'bm, 'ns, 'err) libs \<Rightarrow> ('lru, 'fm, 'bm, 'ns) base \<Rightarrow> query_id \<Rightarrow> (peer_id \<times> multiaddr list) list \<Rightarrow>
     ('lru, 'fm, 'bm, 'ns) base \<times> 'cmd base_out" where
  "base_on_closest_peers L self query_id peers =
     (case bm_get_by_right (l_bimap L) (bb_ongoing_queries self) query_id of
        None \<Rightarrow> (self, [])
      | Some peer_id \<Rightarrow>
          (case List.find (\<lambda>pi. fst pi = peer_id) peers of
             None \<Rightarrow> (self, [])
           | Some peer_info \<Rightarrow>
               (self\<lparr>bb_inner := put_addrs L peer_id (snd peer_info) (bb_inner self),
                     bb_ongoing_queries := bm_remove_by_right (l_bimap L) (bb_ongoing_queries self) query_id,
                     bb_metrics := dec_ongoing_queries (bb_metrics self)\<rparr>,
                [Dial peer_id NotDialing])))"

definition decode_ping :: "crypto \<Rightarrow> protobuf \<Rightarrow> peer_id \<Rightarrow> bytes \<Rightarrow> base_event option run" where
  "decode_ping cr pb peer_id data =
     (case dec_ping pb data of
        None \<Rightarrow> Done None
      | Some p \<Rightarrow> run_bind (verify_signature cr (ping_signed pb) peer_id p) (\<lambda>(ok, p).
          Done (if ok then Some (EvPing peer_id p) else None)))"

definition decode_worker_logs_msg :: "protobuf \<Rightarrow> peer_id \<Rightarrow> bytes \<Rightarrow> base_event option" where
  "decode_worker_logs_msg pb peer_id data =
     (case dec_worker_logs_msg pb data of
        None \<Rightarrow> None
      | Some msg \<Rightarrow> (case wl_msg msg of
          Some (WL_QueryLogs query_logs) \<Rightarrow> Some (EvWorkerQueryLogs peer_id query_logs)
        | _ \<Rightarrow> None))"

definition decode_logs_collected :: "protobuf \<Rightarrow> peer_id \<Rightarrow> bytes \<Rightarrow> base_event option" where
  "decode_logs_collected pb peer_id data = map_option (EvLogsCollected peer_id) (dec_logs_collected pb data)"

definition base_on_pubsub_event ::
    "('lru, 'fm, 'bm, 'ns, 'err) libs \<Rightarrow> pubsub_msg \<Rightarrow> 'cmd base_out run" where
  "base_on_pubsub_event L msg =
     run_bind
       (if pm_topic msg = ping_topic then decode_ping (l_crypto L) (l_protobuf L) (pm_peer_id msg) (pm_data msg)
        else if pm_topic msg = worker_logs_topic then Done (decode_worker_logs_msg (l_protobuf L) (pm_peer_id msg) (pm_data msg))
        else if pm_topic msg = logs_collected_topic then Done (decode_logs_collected (l_protobuf L) (pm_peer_id msg) (pm_data msg))
        else Done None)
       (\<lambda>ev. Done (case ev of Some e \<Rightarrow> [GenerateEvent e] | None \<Rightarrow> []))"

definition base_on_inner_event ::
    "('lru, 'fm, 'bm, 'ns, 'err) libs \<Rightarrow> ('lru, 'fm, 'bm, 'ns) base \<Rightarrow> inner_event \<Rightarrow>
     (('lru, 'fm, 'bm, 'ns) base \<times> 'cmd base_out) run" where
  "base_on_inner_event L self ev =
     (case ev of
        IdentifyReceived p addrs protocols \<Rightarrow> Done (base_on_identify_received L self p addrs protocols)
      | KadClosestPeers q _ peers \<Rightarrow> Done (base_on_closest_peers L self q peers)
      | PubsubEvent msg \<Rightarrow> run_bind (base_on_pubsub_event L msg) (\<lambda>evs. Done (self, evs))
      | _ \<Rightarrow> Done (self, []))"

text \<open>
  The polling loop first handles every update of the node list that is ready; the stream is
  infinite, so its end is unreachable.
\<close>

partial_function (option) base_poll ::
    "('lru, 'fm, 'bm, 'ns, 'err) libs \<Rightarrow> nat \<Rightarrow> ('lru, 'fm, 'bm, 'ns) base \<Rightarrow>
     (('lru, 'fm, 'bm, 'ns) base \<times> 'cmd base_out poll) run option" where
  "base_poll L now self =
     (case l_stream_poll L (bb_active_nodes_stream self) of
        (st, Ready (Some res)) \<Rightarrow> base_poll L now (base_on_nodes_update L (self\<lparr>bb_active_nodes_stream := st\<rparr>) res)
      | (st, Ready None) \<Rightarrow> Some Panic
      | (st, Pending) \<Rightarrow>
          let self = self\<lparr>bb_active_nodes_stream := st\<rparr> in
          (case fm_poll (l_timers L) now (bb_probe_timeouts self) of
             (ts, Ready (peer_id, Inl _)) \<Rightarrow>
               Some (Done (self\<lparr>bb_probe_timeouts := ts, bb_metrics := dec_ongoing_probes (bb_metrics self)\<rparr>,
                           Ready [GenerateEvent (EvPeerProbed peer_id False)]))
           | (ts, Pending) \<Rightarrow> Some (Done (self\<lparr>bb_probe_timeouts := ts\<rparr>, Pending))
           | (ts, Ready (peer_id, Inr _)) \<Rightarrow> Some Panic))"

declare base_poll.simps [code]

section \<open>Bundling\<close>

lemma take_bundle_spec:
  assumes "take_bundle cap xs = (b, rest)" and "\<forall>(n, m)\<in>set xs. n = len m"
  shows "map snd xs = b @ map snd rest \<and> set rest \<subseteq> set xs \<and> sum_list (map len b) \<le> cap \<and>
    (rest \<noteq> [] \<longrightarrow> cap < sum_list (map len b) + len (snd (hd rest)))"
  using assms
proof (induction cap xs arbitrary: b rest rule: take_bundle.induct)
  case (2 cap n m xs)
  show ?case
  proof (cases "n \<le> cap")
    case True
    with 2(2) obtain b' where b': "take_bundle (cap - n) xs = (b', rest)" "b = m # b'"
      by (auto split: prod.splits)
    from 2(1) [OF True b'(1)] 2(3) True b'(2) show ?thesis by auto
  next
    case False
    with 2(2,3) show ?thesis by auto
  qed
qed simp

lemma bundles_spec:
  assumes "\<forall>(n, m)\<in>set xs. n = len m \<and> n \<le> limit"
  shows "concat (bundles limit xs) = map snd xs \<and>
    (\<forall>b\<in>set (bundles limit xs). b \<noteq> [] \<and> sum_list (map len b) \<le> limit) \<and>
    (\<forall>i. Suc i < length (bundles limit xs) \<longrightarrow>
       limit < sum_list (map len (bundles limit xs ! i)) + len (hd (bundles limit xs ! Suc i)))"
  using assms
proof (induction limit xs rule: bundles.induct)
  case (1 limit xs)
  obtain b rest where b: "take_bundle limit xs = (b, rest)" by force
  have len: "\<forall>(n, m)\<in>set xs. n = len m" using "1.prems" by auto
  note spec = take_bundle_spec [OF b len]
  show ?case
  proof (cases "b = []")
    case True
    have "xs = []"
    proof (rule ccontr)
      assume "xs \<noteq> []"
      then obtain n m ys where xs: "xs = (n, m) # ys" by (cases xs) auto
      with "1.prems" have "n \<le> limit" by auto
      with b True xs show False by (auto split: prod.splits)
    qed
    with b True show ?thesis by (simp add: bundles.simps)
  next
    case False
    then have eq: "bundles limit xs = b # bundles limit rest" using b by (subst bundles.simps) simp
    have sub: "\<forall>(n, m)\<in>set rest. n = len m \<and> n \<le> limit" using spec "1.prems" by blast
    note IH = "1.IH" [OF b [symmetric] refl False sub]
    have "limit < sum_list (map len ((b # bundles limit rest) ! i)) + len (hd ((b # bundles limit rest) ! Suc i))"
      if "Suc i < length (b # bundles limit rest)" for i
    proof (cases i)
      case 0
      from that 0 obtain b1 bs where bs: "bundles limit rest = b1 # bs" by (cases "bundles limit rest") auto
      with IH have "b1 \<noteq> []" and c: "concat (b1 # bs) = map snd rest" by auto
      then have "hd b1 = hd (map snd rest)" and ne: "rest \<noteq> []" by (metis concat.simps(2) hd_append2, auto)
      with spec 0 bs show ?thesis by (simp add: hd_map)
    next
      case (Suc j)
      with that IH show ?thesis by simp
    qed
    with IH spec False show ?thesis unfolding eq by simp
  qed
qed

lemma bundle_messages_spec:
  defines "sized len limit \<equiv> List.map_filter (\<lambda>msg. let n = len msg in if limit < n then None else Some (n, msg))"
  shows "bundle_messages len msgs limit = bundles limit (sized len limit msgs)"
    and "map snd (sized len limit msgs) = filter (\<lambda>m. len m \<le> limit) msgs"
    and "\<forall>(n, m)\<in>set (sized len limit msgs). n = len m \<and> n \<le> limit"
  unfolding sized_def bundle_messages_def
  by (simp, (induction msgs; auto simp: Let_def List.map_filter_simps)+)

lemma bundle_messages_correct:
  "concat (bundle_messages len msgs limit) = filter (\<lambda>m. len m \<le> limit) msgs"
  "b \<in> set (bundle_messages len msgs limit) \<Longrightarrow> b \<noteq> [] \<and> sum_list (map len b) \<le> limit"
  "Suc i < length (bundle_messages len msgs limit) \<Longrightarrow>
     limit < sum_list (map len (bundle_messages len msgs limit ! i)) + len (hd (bundle_messages len msgs limit ! Suc i))"
  using bundles_spec [OF bundle_messages_spec(3) [of len limit msgs]]
  unfolding bundle_messages_spec by auto

section \<open>The allow list\<close>

lemma fold_allow:
  "allowed (ib_allow (fold allow_peer_call ps inner)) = allowed (ib_allow inner) \<union> set ps"
  "allowed (ib_allow (fold disallow_peer_call ps inner)) = allowed (ib_allow inner) - set ps"
  by (induction ps arbitrary: inner) (auto simp: allow_peer_call_def disallow_peer_call_def)

text \<open>The fields that handling the node list, or the pub-sub topics, leaves alone.\<close>

definition same_peers :: "('lru, 'fm, 'bm, 'ns) base \<Rightarrow> ('lru, 'fm, 'bm, 'ns) base \<Rightarrow> bool" where
  "same_peers s s' \<longleftrightarrow> bb_outbound_conns s' = bb_outbound_conns s \<and> bb_probe_timeouts s' = bb_probe_timeouts s \<and>
     bb_metrics s' = bb_metrics s \<and> bb_ongoing_queries s' = bb_ongoing_queries s"

definition same_allow :: "('lru, 'fm, 'bm, 'ns) base \<Rightarrow> ('lru, 'fm, 'bm, 'ns) base \<Rightarrow> bool" where
  "same_allow s s' \<longleftrightarrow> ib_allow (bb_inner s') = ib_allow (bb_inner s) \<and> bb_registered_nodes s' = bb_registered_nodes s"

lemma fold_allow_frame:
  "ib_kademlia (fold allow_peer_call ps inner) = ib_kademlia inner"
  "ib_kademlia (fold disallow_peer_call ps inner) = ib_kademlia inner"
  by (induction ps arbitrary: inner) (simp_all add: allow_peer_call_def disallow_peer_call_def)

lemma on_pubsub_frame:
  "same_peers s (on_pubsub f s)" "same_allow s (on_pubsub f s)" "bb_keypair (on_pubsub f s) = bb_keypair s"
  "bb_max_pubsub_msg_size (on_pubsub f s) = bb_max_pubsub_msg_size s"
  "wrapper (ib_pubsub (bb_inner (on_pubsub f s))) = f (wrapper (ib_pubsub (bb_inner s)))"
  by (simp_all add: on_pubsub_def same_peers_def same_allow_def Let_def)

lemma nodes_update_frame: "same_peers s (base_on_nodes_update L s res)"
  by (simp add: base_on_nodes_update_def same_peers_def Let_def split: sum.split)

lemma find_and_dial_frame:
  "same_allow s (base_find_and_dial L s p)" "bb_outbound_conns (base_find_and_dial L s p) = bb_outbound_conns s"
  "bb_probe_timeouts (base_find_and_dial L s p) = bb_probe_timeouts s"
  "ongoing_probes (bb_metrics (base_find_and_dial L s p)) = ongoing_probes (bb_metrics s)"
  by (simp_all add: base_find_and_dial_def same_allow_def Let_def inc_ongoing_queries_def)

definition allow_inv :: "peer_id set \<Rightarrow> ('lru, 'fm, 'bm, 'ns) base \<Rightarrow> bool" where
  "allow_inv X s \<longleftrightarrow> fset (bb_registered_nodes s) \<subseteq> allowed (ib_allow (bb_inner s)) \<and>
     allowed (ib_allow (bb_inner s)) \<subseteq> fset (bb_registered_nodes s) \<union> X"

lemma allow_inv_same: "same_allow s s' \<Longrightarrow> allow_inv X s' = allow_inv X s"
  by (simp add: allow_inv_def same_allow_def)

lemma nodes_update_allowed:
  assumes "peer_order_laws (l_order L)"
  shows "allowed (ib_allow (bb_inner (base_on_nodes_update L s (Inr nodes)))) =
      (if nodes = bb_registered_nodes s then allowed (ib_allow (bb_inner s))
       else allowed (ib_allow (bb_inner s)) - (fset (bb_registered_nodes s) - fset nodes) \<union>
            (fset nodes - fset (bb_registered_nodes s)))"
    and "bb_registered_nodes (base_on_nodes_update L s (Inr nodes)) = nodes"
    and "base_on_nodes_update L s (Inl e) = s"
  using assms by (auto simp: base_on_nodes_update_def Let_def fold_allow peer_order_laws_def)

interpretation base_nodes: node_list "base_on_nodes_update L" bb_registered_nodes "\<lambda>s. ib_allow (bb_inner s)" "l_order L" for L
proof
  fix s :: "('a, 'b, 'c, 'd) base" and nodes
  assume "peer_order_laws (l_order L)"
  from nodes_update_allowed(1) [OF this, of s nodes]
  show "allowed (ib_allow (bb_inner (base_on_nodes_update L s (Inr nodes)))) =
      allowed (ib_allow (bb_inner s)) - (fset (bb_registered_nodes s) - fset nodes) \<union> (fset nodes - fset (bb_registered_nodes s))"
    by simp
qed (simp_all add: base_on_nodes_update_def Let_def)

lemma nodes_update_inv:
  assumes "peer_order_laws (l_order L)" and "allow_inv X s"
  shows "allow_inv X (base_on_nodes_update L s res)"
proof (cases res)
  case (Inl e)
  then show ?thesis using assms nodes_update_allowed(3) by metis
next
  case (Inr nodes)
  with assms(2) show ?thesis
    using nodes_update_allowed(1,2) [OF assms(1), of s nodes] by (auto simp: allow_inv_def)
qed

section \<open>Polling\<close>

text \<open>
  What a call of \<open>poll\<close> does: it handles some updates of the node list and then polls the
  probe timers once.
\<close>

inductive updates :: "('lru, 'fm, 'bm, 'ns, 'err) libs \<Rightarrow> ('lru, 'fm, 'bm, 'ns) base \<Rightarrow> ('lru, 'fm, 'bm, 'ns) base \<Rightarrow> bool"
  for L where
  none: "updates L s (s\<lparr>bb_active_nodes_stream := st\<rparr>)"
| more: "updates L (base_on_nodes_update L (s\<lparr>bb_active_nodes_stream := st\<rparr>) res) s' \<Longrightarrow> updates L s s'"

lemma updates_frame: "updates L s s' \<Longrightarrow> same_peers s s'"
proof (induction rule: updates.induct)
  case (more st s res s')
  then show ?case
    using nodes_update_frame [of "s\<lparr>bb_active_nodes_stream := st\<rparr>" L res] by (auto simp: same_peers_def)
qed (simp add: same_peers_def)

lemma updates_inv:
  assumes "peer_order_laws (l_order L)"
  shows "updates L s s' \<Longrightarrow> allow_inv X s \<Longrightarrow> allow_inv X s'"
proof (induction rule: updates.induct)
  case (more st s res s')
  have "allow_inv X (s\<lparr>bb_active_nodes_stream := st\<rparr>)" using more.prems by (simp add: allow_inv_def)
  then show ?case using more nodes_update_inv [OF assms] by blast
qed (simp add: allow_inv_def)

definition poll_outcome ::
    "('lru, 'fm, 'bm, 'ns, 'err) libs \<Rightarrow> nat \<Rightarrow> ('lru, 'fm, 'bm, 'ns) base \<Rightarrow> ('lru, 'fm, 'bm, 'ns) base \<Rightarrow> 'cmd base_out poll \<Rightarrow> bool" where
  "poll_outcome L now s s' r \<longleftrightarrow>
     (\<exists>s1 ts q. updates L s s1 \<and> fm_poll (l_timers L) now (bb_probe_timeouts s1) = (ts, q) \<and>
        (case q of
           Pending \<Rightarrow> s' = s1\<lparr>bb_probe_timeouts := ts\<rparr> \<and> r = Pending
         | Ready (p, res) \<Rightarrow> res = Inl () \<and>
             s' = s1\<lparr>bb_probe_timeouts := ts, bb_metrics := dec_ongoing_probes (bb_metrics s1)\<rparr> \<and>
             r = Ready [GenerateEvent (EvPeerProbed p False)]))"

lemma poll_outcome_more:
  "poll_outcome L now (base_on_nodes_update L (s\<lparr>bb_active_nodes_stream := st\<rparr>) res) s' r \<Longrightarrow> poll_outcome L now s s' r"
  unfolding poll_outcome_def by (blast intro: updates.more)

lemma base_poll_outcome:
  assumes "base_poll L now s = Some (Done (s', r))"
  shows "poll_outcome L now s s' r"
proof (rule base_poll.raw_induct [of "\<lambda>L now s res. \<forall>s' r. res = Done (s', r) \<longrightarrow> poll_outcome L now s s' r",
      OF _ assms, rule_format, OF _ refl], goal_cases)
  case (1 f L now s res s' r)
  obtain st q where q: "l_stream_poll L (bb_active_nodes_stream s) = (st, q)" by force
  show ?case
  proof (cases q)
    case Pending
    let ?s1 = "s\<lparr>bb_active_nodes_stream := st\<rparr>"
    have "updates L s ?s1" by (rule updates.none)
    with 1(2,3) q Pending show ?thesis
      unfolding poll_outcome_def
      by (intro exI [of _ ?s1])
         (auto split: prod.splits poll.splits sum.splits simp: Let_def)
  next
    case (Ready o')
    with 1(2,3) q obtain res' where "f L now (base_on_nodes_update L (s\<lparr>bb_active_nodes_stream := st\<rparr>) res') = Some (Done (s', r))"
      by (cases o') auto
    from 1(1) [OF this] show ?thesis by (blast intro: poll_outcome_more)
  qed
qed

text \<open>
  The items that the stream of node lists has ready: polled again and again, it yields \<open>rs\<close> and then has to wait.
\<close>

inductive stream_yields :: "('ns \<Rightarrow> 'ns \<times> ('err + peer_id fset) option poll) \<Rightarrow> 'ns \<Rightarrow> ('err + peer_id fset) list \<Rightarrow> 'ns \<Rightarrow> bool"
  for poll where
  idle: "poll st = (st', Pending) \<Longrightarrow> stream_yields poll st [] st'"
| item: "poll st = (st1, Ready (Some r)) \<Longrightarrow> stream_yields poll st1 rs st' \<Longrightarrow> stream_yields poll st (r # rs) st'"

text \<open>The updates handled one after the other.\<close>

definition handle_updates ::
    "('lru, 'fm, 'bm, 'ns, 'err) libs \<Rightarrow> ('err + peer_id fset) list \<Rightarrow> ('lru, 'fm, 'bm, 'ns) base \<Rightarrow> ('lru, 'fm, 'bm, 'ns) base" where
  "handle_updates L rs s = fold (\<lambda>r s. base_on_nodes_update L s r) rs s"

lemma nodes_update_stream:
  "base_on_nodes_update L (s\<lparr>bb_active_nodes_stream := st\<rparr>) r = (base_on_nodes_update L s r)\<lparr>bb_active_nodes_stream := st\<rparr>"
  by (simp add: base_on_nodes_update_def Let_def split: sum.split)

lemma handle_updates_stream:
  "handle_updates L rs (s\<lparr>bb_active_nodes_stream := st\<rparr>) = (handle_updates L rs s)\<lparr>bb_active_nodes_stream := st\<rparr>"
  by (induction rs arbitrary: s) (simp_all add: handle_updates_def nodes_update_stream)

lemma handle_updates_timers: "bb_probe_timeouts (handle_updates L rs s) = bb_probe_timeouts s"
  unfolding handle_updates_def
  by (induction rs arbitrary: s) (simp_all add: base_on_nodes_update_def Let_def split: sum.split)

lemma base_on_nodes_update_registered:
  "bb_registered_nodes (base_on_nodes_update L s r) = (case r of Inl e \<Rightarrow> bb_registered_nodes s | Inr nodes \<Rightarrow> nodes)"
  by (simp add: base_on_nodes_update_def Let_def split: sum.split)

lemma handle_updates_registered:
  "bb_registered_nodes (handle_updates L rs s) = fold (\<lambda>r n. case r of Inl e \<Rightarrow> n | Inr nodes \<Rightarrow> nodes) rs (bb_registered_nodes s)"
  unfolding handle_updates_def
  by (induction rs arbitrary: s) (simp_all add: base_on_nodes_update_registered)

text \<open>With finitely many items ready, \<open>poll\<close> returns: it handles them in order and then polls the timers.\<close>

lemma base_poll_yields:
  assumes "stream_yields (l_stream_poll L) (bb_active_nodes_stream s) rs st"
  shows "(base_poll L now s :: (_ \<times> 'cmd base_out poll) run option) =
    (let s1 = (handle_updates L rs s)\<lparr>bb_active_nodes_stream := st\<rparr> in
     case fm_poll (l_timers L) now (bb_probe_timeouts s) of
       (ts, Ready (p, Inl _)) \<Rightarrow>
         Some (Done (s1\<lparr>bb_probe_timeouts := ts, bb_metrics := dec_ongoing_probes (bb_metrics s1)\<rparr>, Ready [GenerateEvent (EvPeerProbed p False)]))
     | (ts, Pending) \<Rightarrow> Some (Done (s1\<lparr>bb_probe_timeouts := ts\<rparr>, Pending))
     | (ts, Ready (p, Inr _)) \<Rightarrow> Some Panic)"
  using assms
proof (induction "bb_active_nodes_stream s" rs st arbitrary: s rule: stream_yields.induct)
  case (idle st')
  then show ?case by (subst base_poll.simps) (simp add: handle_updates_def Let_def)
next
  case (item st1 r rs st')
  let ?s = "base_on_nodes_update L (s\<lparr>bb_active_nodes_stream := st1\<rparr>) r"
  have st1: "st1 = bb_active_nodes_stream ?s" by (simp add: nodes_update_stream)
  have "(base_poll L now s :: (_ \<times> 'cmd base_out poll) run option) = base_poll L now ?s" using item(1) by (subst base_poll.simps) simp
  moreover have "(handle_updates L rs ?s)\<lparr>bb_active_nodes_stream := st'\<rparr> = (handle_updates L (r # rs) s)\<lparr>bb_active_nodes_stream := st'\<rparr>"
    by (simp add: nodes_update_stream handle_updates_stream) (simp add: handle_updates_def)
  moreover have "bb_probe_timeouts ?s = bb_probe_timeouts s"
    using handle_updates_timers [of L "[r]"] by (simp add: handle_updates_def)
  ultimately show ?case using item(3) [OF st1] by simp
qed

section \<open>Runs\<close>

text \<open>
  A run of the behaviour: what its user calls, the swarm and library events it handles, and
  polling, in any order. Recorded are the swarm events, the peers for which a probe was
  scheduled, the peers that were allowed explicitly, and the commands emitted. Everything that
  is done on the topics is a change of the pub-sub behaviour.
\<close>

inductive base_run ::
    "('lru, 'fm, 'bm, 'ns, 'err) libs \<Rightarrow> ('lru, 'fm, 'bm, 'ns) base \<Rightarrow> swarm_event list \<Rightarrow> peer_id list \<Rightarrow> peer_id list \<Rightarrow>
     'cmd base_out \<Rightarrow> ('lru, 'fm, 'bm, 'ns) base \<Rightarrow> bool"
  for L s0 where
  start: "base_run L s0 [] [] [] [] s0"
| probe: "base_run L s0 sw ps al out s \<Longrightarrow> base_try_probe_peer L s p = (s', r) \<Longrightarrow>
    base_run L s0 sw (if r = Inr False \<and> \<not> fm_contains (l_timers L) (bb_probe_timeouts s) p then ps @ [p] else ps) al out s'"
| find: "base_run L s0 sw ps al out s \<Longrightarrow> base_run L s0 sw ps al out (base_find_and_dial L s p)"
| allow: "base_run L s0 sw ps al out s \<Longrightarrow> base_run L s0 sw ps (al @ [p]) out (base_allow_peer s p)"
| topics: "base_run L s0 sw ps al out s \<Longrightarrow> base_run L s0 sw ps al out (on_pubsub f s)"
| swarm: "base_run L s0 sw ps al out s \<Longrightarrow> base_on_swarm_event L s ev = Done (s', evs) \<Longrightarrow>
    base_run L s0 (sw @ [ev]) ps al (out @ evs) s'"
| inner: "base_run L s0 sw ps al out s \<Longrightarrow> base_on_inner_event L s iev = Done (s', evs) \<Longrightarrow>
    base_run L s0 sw ps al (out @ evs) s'"
| polled: "base_run L s0 sw ps al out s \<Longrightarrow> base_poll L now s = Some (Done (s', r)) \<Longrightarrow>
    base_run L s0 sw ps al (out @ (case r of Ready evs \<Rightarrow> evs | Pending \<Rightarrow> [])) s'"

text \<open>The open outbound connections to a peer, by the swarm events.\<close>

definition opened :: "swarm_event list \<Rightarrow> peer_id \<Rightarrow> nat" where
  "opened sw p = count_list sw (ConnectionEstablished p Dialer)"

definition closed :: "swarm_event list \<Rightarrow> peer_id \<Rightarrow> nat" where
  "closed sw p = count_list sw (ConnectionClosed p Dialer)"

text \<open>Only open connections are closed, and there are never \<open>2 ^ 32\<close> of them to one peer.\<close>

definition swarm_wf :: "swarm_event list \<Rightarrow> bool" where
  "swarm_wf sw \<longleftrightarrow> (\<forall>n p. closed (take n sw) p \<le> opened (take n sw) p \<and>
     opened (take n sw) p - closed (take n sw) p < 2 ^ 32)"

lemma swarm_wf_snoc: "swarm_wf (sw @ [e]) \<Longrightarrow> swarm_wf sw"
  unfolding swarm_wf_def
proof (intro allI)
  fix n p assume *: "\<forall>n p. closed (take n (sw @ [e])) p \<le> opened (take n (sw @ [e])) p \<and>
      opened (take n (sw @ [e])) p - closed (take n (sw @ [e])) p < 2 ^ 32"
  have "take n sw = take (min n (length sw)) (sw @ [e])" by (simp add: min_def)
  then show "closed (take n sw) p \<le> opened (take n sw) p \<and> opened (take n sw) p - closed (take n sw) p < 2 ^ 32"
    using * by metis
qed

lemma swarm_wfD: "swarm_wf sw \<Longrightarrow> closed sw p \<le> opened sw p \<and> opened sw p - closed sw p < 2 ^ 32"
  unfolding swarm_wf_def by (metis order_refl take_all)

definition conns :: "('lru, 'fm, 'bm, 'ns) base \<Rightarrow> peer_id \<Rightarrow> u32" where
  "conns s p = (case fmlookup (bb_outbound_conns s) p of Some n \<Rightarrow> n | None \<Rightarrow> 0)"

definition conn_inv :: "swarm_event list \<Rightarrow> ('lru, 'fm, 'bm, 'ns) base \<Rightarrow> bool" where
  "conn_inv sw s \<longleftrightarrow> (\<forall>p. unat (conns s p) = opened sw p - closed sw p \<and>
     (fmlookup (bb_outbound_conns s) p = None \<longrightarrow> opened sw p = 0))"

text \<open>The probe results among the emitted commands.\<close>

fun probe_result :: "(base_event, 'cmd) to_swarm \<Rightarrow> peer_id list" where
  "probe_result (GenerateEvent (EvPeerProbed p r)) = [p]"
| "probe_result _ = []"

definition probed :: "'cmd base_out \<Rightarrow> peer_id list" where
  "probed out = concat (map probe_result out)"

lemma probed_simps [simp]:
  "probed [] = []" "probed (e # es) = probe_result e @ probed es" "probed (es @ es') = probed es @ probed es'"
  by (simp_all add: probed_def)

definition probe_inv ::
    "('lru, 'fm, 'bm, 'ns, 'err) libs \<Rightarrow> ('fm \<Rightarrow> nat) \<Rightarrow> u32 \<Rightarrow> peer_id list \<Rightarrow> 'cmd base_out \<Rightarrow> ('lru, 'fm, 'bm, 'ns) base \<Rightarrow> bool" where
  "probe_inv L cap g ps out s \<longleftrightarrow>
     (\<forall>p. count_list ps p = count_list (probed out) p + (if p \<in> fm_keys (l_timers L) (bb_probe_timeouts s) then 1 else 0)) \<and>
     ongoing_probes (bb_metrics s) = g + of_nat (card (fm_keys (l_timers L) (bb_probe_timeouts s)))"

lemma conn_inv_frame: "bb_outbound_conns s' = bb_outbound_conns s \<Longrightarrow> conn_inv sw s' = conn_inv sw s"
  by (simp add: conn_inv_def conns_def)

lemma probe_inv_frame:
  "bb_probe_timeouts s' = bb_probe_timeouts s \<Longrightarrow> ongoing_probes (bb_metrics s') = ongoing_probes (bb_metrics s) \<Longrightarrow>
   probed out' = probed out \<Longrightarrow> probe_inv L cap g ps out' s' = probe_inv L cap g ps out s"
  by (simp add: probe_inv_def)

lemma opened_snoc [simp]:
  "opened [] p = 0" "opened (sw @ [e]) p = opened sw p + (if e = ConnectionEstablished p Dialer then 1 else 0)"
  "closed [] p = 0" "closed (sw @ [e]) p = closed sw p + (if e = ConnectionClosed p Dialer then 1 else 0)"
  by (simp_all add: opened_def closed_def)

subsection \<open>Swarm events\<close>

lemma established_result:
  assumes "add_chk (l_chk L) (conns s p) 1 = Done n"
  shows "\<exists>s' evs. base_on_swarm_event L s (ConnectionEstablished p Dialer) = Done (s', evs) \<and>
     bb_outbound_conns s' = fmupd p n (bb_outbound_conns s) \<and> same_allow s s' \<and>
     bb_probe_timeouts s' = fst (fm_remove (l_timers L) (bb_probe_timeouts s) p) \<and>
     (if snd (fm_remove (l_timers L) (bb_probe_timeouts s) p)
      then evs = [GenerateEvent (EvPeerProbed p True)] \<and> ongoing_probes (bb_metrics s') = ongoing_probes (bb_metrics s) - 1
      else evs = [] \<and> ongoing_probes (bb_metrics s') = ongoing_probes (bb_metrics s))"
  using assms
  by (auto simp: base_on_swarm_event_def base_on_connection_established_def conns_def Let_def case_prod_beta
      same_allow_def inc_active_connections_def dec_ongoing_probes_def simp del: run_bind_eq_Done)

lemma swarm_other_result:
  assumes "ev \<noteq> ConnectionEstablished p Dialer" and "\<forall>p. ev \<noteq> ConnectionEstablished p Dialer"
    and "base_on_swarm_event L s ev = Done (s', evs)"
  shows "evs = []" and "same_allow s s'" and "bb_probe_timeouts s' = bb_probe_timeouts s"
    and "ongoing_probes (bb_metrics s') = ongoing_probes (bb_metrics s)"
    and "\<forall>p. ev \<noteq> ConnectionClosed p Dialer \<Longrightarrow> bb_outbound_conns s' = bb_outbound_conns s"
  using assms
  by (auto simp: base_on_swarm_event_def base_on_connection_established_def base_on_connection_closed_def Let_def same_allow_def
      inc_active_connections_def dec_active_connections_def split: swarm_event.splits endpoint.splits option.splits)

lemma swarm_other_total:
  assumes "\<nexists>p. ev = ConnectionEstablished p Dialer" and "\<nexists>p. ev = ConnectionClosed p Dialer"
  shows "\<exists>s' evs. base_on_swarm_event L s ev = (Done (s', evs) :: (_ \<times> 'cmd base_out) run)"
proof (cases ev)
  case (ConnectionEstablished p e)
  with assms have "e = Listener" by (cases e) auto
  with ConnectionEstablished show ?thesis
    by (simp add: base_on_swarm_event_def base_on_connection_established_def Let_def)
next
  case (ConnectionClosed p e)
  with assms have "e = Listener" by (cases e) auto
  with ConnectionClosed show ?thesis
    by (simp add: base_on_swarm_event_def base_on_connection_closed_def Let_def)
qed (simp_all add: base_on_swarm_event_def)

lemma conn_inv_opened:
  assumes inv: "conn_inv sw s" and wf: "swarm_wf (sw @ [ConnectionEstablished p Dialer])"
  shows "\<exists>s' evs. base_on_swarm_event L s (ConnectionEstablished p Dialer) = (Done (s', evs) :: (_ \<times> 'cmd base_out) run) \<and>
    conn_inv (sw @ [ConnectionEstablished p Dialer]) s'"
proof -
  note wfD = swarm_wfD [OF wf] and wf0 = swarm_wfD [OF swarm_wf_snoc [OF wf]]
  have n: "unat (conns s p) = opened sw p - closed sw p" using inv by (simp add: conn_inv_def)
  have "unat (conns s p) + unat (1 :: u32) < 2 ^ LENGTH(32)" using wfD [of p] wf0 [of p] by (simp add: n)
  note add = add_chk_no_overflow [OF this] unat_add_no_overflow [OF this]
  from established_result [OF add(1), where L = L] obtain s' and evs :: "'cmd base_out" where
    s': "base_on_swarm_event L s (ConnectionEstablished p Dialer) = Done (s', evs)"
      "bb_outbound_conns s' = fmupd p (conns s p + 1) (bb_outbound_conns s)" by blast
  have "unat (conns s' q) = opened (sw @ [ConnectionEstablished p Dialer]) q - closed (sw @ [ConnectionEstablished p Dialer]) q \<and>
      (fmlookup (bb_outbound_conns s') q = None \<longrightarrow> opened (sw @ [ConnectionEstablished p Dialer]) q = 0)" for q
    using inv add(2) n wf0 [of p] unfolding conn_inv_def
    by (cases "q = p") (auto simp: s'(2) conns_def)
  with s'(1) show ?thesis by (auto simp: conn_inv_def)
qed

lemma conn_inv_closed:
  assumes inv: "conn_inv sw s" and wf: "swarm_wf (sw @ [ConnectionClosed p Dialer])"
  shows "\<exists>s' evs. base_on_swarm_event L s (ConnectionClosed p Dialer) = (Done (s', evs) :: (_ \<times> 'cmd base_out) run) \<and>
    conn_inv (sw @ [ConnectionClosed p Dialer]) s'"
proof -
  have gt: "closed sw p < opened sw p" using swarm_wfD [OF wf, of p] by simp
  with inv obtain n where lk: "fmlookup (bb_outbound_conns s) p = Some n"
    by (cases "fmlookup (bb_outbound_conns s) p") (auto simp: conn_inv_def)
  have un: "unat n = opened sw p - closed sw p" using inv lk by (auto simp: conn_inv_def conns_def dest: spec [of _ p])
  with gt have "1 \<le> n" by (simp add: word_le_nat_alt)
  note sub = sub_chk_no_underflow [OF this] unat_sub [OF this]
  let ?s = "s\<lparr>bb_metrics := dec_active_connections (bb_metrics s), bb_outbound_conns := fmupd p (n - 1) (bb_outbound_conns s)\<rparr>"
  have "base_on_swarm_event L s (ConnectionClosed p Dialer) = (Done (?s, []) :: (_ \<times> 'cmd base_out) run)"
    using sub(1) [of "l_chk L"] lk by (simp add: base_on_swarm_event_def base_on_connection_closed_def Let_def del: run_bind_eq_Done)
  moreover have "unat (conns ?s q) = opened (sw @ [ConnectionClosed p Dialer]) q - closed (sw @ [ConnectionClosed p Dialer]) q \<and>
      (fmlookup (bb_outbound_conns ?s) q = None \<longrightarrow> opened (sw @ [ConnectionClosed p Dialer]) q = 0)" for q
    using inv sub(2) un unfolding conn_inv_def
    by (cases "q = p") (auto simp: conns_def)
  ultimately show ?thesis unfolding conn_inv_def by blast
qed

lemma conn_inv_step:
  assumes inv: "conn_inv sw s" and wf: "swarm_wf (sw @ [ev])"
  shows "\<exists>s' evs. base_on_swarm_event L s ev = (Done (s', evs) :: (_ \<times> 'cmd base_out) run) \<and> conn_inv (sw @ [ev]) s'"
proof (cases "\<exists>p. ev = ConnectionEstablished p Dialer \<or> ev = ConnectionClosed p Dialer")
  case True
  then show ?thesis using conn_inv_opened [OF inv] conn_inv_closed [OF inv] wf by blast
next
  case False
  then have other: "\<nexists>p. ev = ConnectionEstablished p Dialer" "\<nexists>p. ev = ConnectionClosed p Dialer" by blast+
  from swarm_other_total [OF this] obtain s' and evs :: "'cmd base_out" where st: "base_on_swarm_event L s ev = Done (s', evs)" by blast
  have "bb_outbound_conns s' = bb_outbound_conns s" using swarm_other_result(5) [OF _ _ st] other by blast
  then have "conn_inv (sw @ [ev]) s'" using inv other by (auto simp: conn_inv_def conns_def)
  with st show ?thesis by blast
qed

subsection \<open>The invariant of runs\<close>

lemma decode_not_probed:
  "decode_ping cr pb p d = Done (Some e) \<Longrightarrow> probe_result (GenerateEvent e) = []"
  "decode_worker_logs_msg pb p d = Some e \<Longrightarrow> probe_result (GenerateEvent e) = []"
  "decode_logs_collected pb p d = Some e \<Longrightarrow> probe_result (GenerateEvent e) = []"
  by (auto simp: decode_ping_def decode_worker_logs_msg_def decode_logs_collected_def
      split: option.splits worker_logs_kind.splits if_splits)

lemma pubsub_event_not_probed:
  assumes "base_on_pubsub_event L m = Done evs"
  shows "probed evs = []"
proof -
  from assms obtain ev where evs: "evs = (case ev of Some e \<Rightarrow> [GenerateEvent e] | None \<Rightarrow> [])"
    and ev: "(if pm_topic m = ping_topic then decode_ping (l_crypto L) (l_protobuf L) (pm_peer_id m) (pm_data m)
        else if pm_topic m = worker_logs_topic then Done (decode_worker_logs_msg (l_protobuf L) (pm_peer_id m) (pm_data m))
        else if pm_topic m = logs_collected_topic then Done (decode_logs_collected (l_protobuf L) (pm_peer_id m) (pm_data m))
        else Done None) = Done ev"
    unfolding base_on_pubsub_event_def by auto
  show ?thesis
  proof (cases ev)
    case (Some e)
    with ev have "probe_result (GenerateEvent e) = []" by (auto split: if_splits dest: decode_not_probed)
    with evs Some show ?thesis by simp
  qed (simp add: evs)
qed

lemma inner_event_frame:
  assumes "base_on_inner_event L s iev = Done (s', evs)"
  shows "probed evs = []" and "same_allow s s'" and "bb_probe_timeouts s' = bb_probe_timeouts s"
    and "ongoing_probes (bb_metrics s') = ongoing_probes (bb_metrics s)" and "bb_outbound_conns s' = bb_outbound_conns s"
proof -
  have "probed evs = [] \<and> same_allow s s' \<and> bb_probe_timeouts s' = bb_probe_timeouts s \<and>
      ongoing_probes (bb_metrics s') = ongoing_probes (bb_metrics s) \<and> bb_outbound_conns s' = bb_outbound_conns s"
    using assms
    by (cases iev) (auto simp: base_on_inner_event_def base_on_identify_received_def base_on_closest_peers_def Let_def
        same_allow_def put_addrs_def dec_ongoing_queries_def pubsub_event_not_probed split: option.splits)
  then show "probed evs = []" and "same_allow s s'" and "bb_probe_timeouts s' = bb_probe_timeouts s"
    and "ongoing_probes (bb_metrics s') = ongoing_probes (bb_metrics s)" and "bb_outbound_conns s' = bb_outbound_conns s"
    by blast+
qed

lemma probe_inv_pop:
  assumes inv: "probe_inv L cap g ps out s" and fin: "finite (fm_keys (l_timers L) (bb_probe_timeouts s))"
    and p: "p \<in> fm_keys (l_timers L) (bb_probe_timeouts s)"
    and keys: "fm_keys (l_timers L) (bb_probe_timeouts s') = fm_keys (l_timers L) (bb_probe_timeouts s) - {p}"
    and "ongoing_probes (bb_metrics s') = ongoing_probes (bb_metrics s) - 1" and "probed evs = [p]"
  shows "probe_inv L cap g ps (out @ evs) s'"
proof -
  have "card (fm_keys (l_timers L) (bb_probe_timeouts s)) = Suc (card (fm_keys (l_timers L) (bb_probe_timeouts s) - {p}))"
    using fin p by (metis card.remove)
  then have g: "ongoing_probes (bb_metrics s') = g + of_nat (card (fm_keys (l_timers L) (bb_probe_timeouts s')))"
    using inv assms(5) by (simp add: probe_inv_def keys)
  have "count_list ps q = count_list (probed (out @ evs)) q + (if q \<in> fm_keys (l_timers L) (bb_probe_timeouts s') then 1 else 0)" for q
    using inv p assms(6) by (cases "q = p") (simp_all add: probe_inv_def keys)
  with g show ?thesis by (simp add: probe_inv_def)
qed

lemma probe_step:
  assumes inv: "probe_inv L cap g ps out s" and laws: "futures_map_laws (l_timers L) cap"
    and st: "base_try_probe_peer L s p = (s', r)"
  shows "probe_inv L cap g (if r = Inr False \<and> \<not> fm_contains (l_timers L) (bb_probe_timeouts s) p then ps @ [p] else ps) out s'"
    and "bb_outbound_conns s' = bb_outbound_conns s" and "same_allow s s'"
proof -
  let ?K = "fm_keys (l_timers L) (bb_probe_timeouts s)"
  have "probe_inv L cap g (if r = Inr False \<and> \<not> fm_contains (l_timers L) (bb_probe_timeouts s) p then ps @ [p] else ps) out s' \<and>
      bb_outbound_conns s' = bb_outbound_conns s \<and> same_allow s s'"
  proof (cases "fst (s', r) = s \<and> r \<noteq> Inr False \<or> p \<in> ?K")
    case True
    with st inv show ?thesis
      by (auto simp: base_try_probe_peer_def fm_contains_keys same_allow_def split: if_splits prod.splits bool.splits)
  next
    case False
    obtain ts ok where push: "fm_try_push (l_timers L) (bb_probe_timeouts s) p = (ts, ok)" by force
    note law = fm_try_push_law [OF laws, of p "bb_probe_timeouts s", unfolded push fst_conv snd_conv]
    show ?thesis
    proof (cases ok)
      case True
      then have s': "s' = base_find_and_dial L (s\<lparr>bb_probe_timeouts := ts, bb_metrics := inc_ongoing_probes (bb_metrics s)\<rparr>) p"
        and r: "r = Inr False" using st False push by (auto simp: base_try_probe_peer_def fm_contains_keys split: if_splits)
      have K: "fm_keys (l_timers L) ts = insert p ?K" using law False True by auto
      have "card (insert p ?K) = Suc (card ?K)" using fm_finite [OF laws] False by auto
      with inv False K r show ?thesis
        using find_and_dial_frame [where s = "s\<lparr>bb_probe_timeouts := ts, bb_metrics := inc_ongoing_probes (bb_metrics s)\<rparr>" and L = L and p = p]
        by (auto simp: s' probe_inv_def fm_contains_keys inc_ongoing_probes_def same_allow_def)
    next
      case nok: False
      then have "s' = s\<lparr>bb_probe_timeouts := ts\<rparr>" "r = Inl QueueFull"
        using st False push by (auto simp: base_try_probe_peer_def fm_contains_keys split: if_splits)
      moreover have "fm_keys (l_timers L) ts = ?K" using law False nok by auto
      ultimately show ?thesis using inv by (auto simp: probe_inv_def same_allow_def)
    qed
  qed
  then show "probe_inv L cap g (if r = Inr False \<and> \<not> fm_contains (l_timers L) (bb_probe_timeouts s) p then ps @ [p] else ps) out s'"
    and "bb_outbound_conns s' = bb_outbound_conns s" and "same_allow s s'" by blast+
qed

lemma swarm_probe_step:
  assumes inv: "probe_inv L cap g ps out s" and laws: "futures_map_laws (l_timers L) cap"
    and st: "base_on_swarm_event L s ev = Done (s', evs)"
  shows "probe_inv L cap g ps (out @ evs) s'" and "same_allow s s'"
proof -
  have "probe_inv L cap g ps (out @ evs) s' \<and> same_allow s s'"
  proof (cases "\<exists>p. ev = ConnectionEstablished p Dialer")
    case True
    then obtain p where ev: "ev = ConnectionEstablished p Dialer" by blast
    from st obtain n where n: "add_chk (l_chk L) (conns s p) 1 = Done n"
      by (auto simp: ev base_on_swarm_event_def base_on_connection_established_def conns_def Let_def)
    let ?rm = "fm_remove (l_timers L) (bb_probe_timeouts s) p"
    have *: "same_allow s s'" "bb_probe_timeouts s' = fst ?rm"
      "if snd ?rm then evs = [GenerateEvent (EvPeerProbed p True)] \<and> ongoing_probes (bb_metrics s') = ongoing_probes (bb_metrics s) - 1
       else evs = [] \<and> ongoing_probes (bb_metrics s') = ongoing_probes (bb_metrics s)"
      using st n
      by (auto simp: ev base_on_swarm_event_def base_on_connection_established_def conns_def Let_def case_prod_beta
          same_allow_def inc_active_connections_def dec_ongoing_probes_def split: if_splits)
    note law = fm_remove_law [OF laws, of "bb_probe_timeouts s" p]
    show ?thesis
    proof (cases "snd ?rm")
      case True
      then show ?thesis
        using probe_inv_pop [OF inv fm_finite [OF laws], of p s' evs] * law by simp
    next
      case False
      with law have "fm_keys (l_timers L) (bb_probe_timeouts s') = fm_keys (l_timers L) (bb_probe_timeouts s)"
        by (simp add: *(2))
      with False * inv show ?thesis by (simp add: probe_inv_def)
    qed
  next
    case False
    with swarm_other_result [OF _ _ st] inv show ?thesis by (auto simp: probe_inv_def)
  qed
  then show "probe_inv L cap g ps (out @ evs) s'" and "same_allow s s'" by blast+
qed

lemma poll_probe_step:
  assumes inv: "probe_inv L cap g ps out s" and laws: "futures_map_laws (l_timers L) cap"
    and st: "base_poll L now s = Some (Done (s', r))"
  shows "probe_inv L cap g ps (out @ (case r of Ready evs \<Rightarrow> evs | Pending \<Rightarrow> [])) s'"
    and "bb_outbound_conns s' = bb_outbound_conns s"
proof -
  from base_poll_outcome [OF st] obtain s1 ts q where up: "updates L s s1"
    and q: "fm_poll (l_timers L) now (bb_probe_timeouts s1) = (ts, q)"
    and res: "case q of Pending \<Rightarrow> s' = s1\<lparr>bb_probe_timeouts := ts\<rparr> \<and> r = Pending
         | Ready (p, res) \<Rightarrow> res = Inl () \<and>
             s' = s1\<lparr>bb_probe_timeouts := ts, bb_metrics := dec_ongoing_probes (bb_metrics s1)\<rparr> \<and>
             r = Ready [GenerateEvent (EvPeerProbed p False)]" unfolding poll_outcome_def by blast
  note fr = updates_frame [OF up, unfolded same_peers_def]
  have inv1: "probe_inv L cap g ps out s1" using inv fr by (simp add: probe_inv_def)
  note law = fm_poll_law [OF laws q]
  show "bb_outbound_conns s' = bb_outbound_conns s"
    using res fr by (auto split: poll.splits)
  show "probe_inv L cap g ps (out @ (case r of Ready evs \<Rightarrow> evs | Pending \<Rightarrow> [])) s'"
  proof (cases q)
    case Pending
    with res law inv1 show ?thesis by (simp add: probe_inv_def)
  next
    case (Ready pr)
    obtain p x where "pr = (p, x)" by (cases pr)
    with res Ready have s': "s' = s1\<lparr>bb_probe_timeouts := ts, bb_metrics := dec_ongoing_probes (bb_metrics s1)\<rparr>"
      and r: "r = Ready [GenerateEvent (EvPeerProbed p False)]" and "q = Ready (p, x)" by simp_all
    from law(3) [OF this(3)] have p: "p \<in> fm_keys (l_timers L) (bb_probe_timeouts s1)"
      and k: "fm_keys (l_timers L) (bb_probe_timeouts s') = fm_keys (l_timers L) (bb_probe_timeouts s1) - {p}"
      by (simp_all add: s')
    have "probe_inv L cap g ps (out @ [GenerateEvent (EvPeerProbed p False)]) s'"
      by (rule probe_inv_pop [OF inv1 fm_finite [OF laws] p k]) (simp_all add: s' dec_ongoing_probes_def)
    then show ?thesis by (simp add: r)
  qed
qed

lemma poll_frame:
  assumes "base_poll L now s = Some (Done (s', r))"
  shows "bb_outbound_conns s' = bb_outbound_conns s" and "\<exists>s1. updates L s s1 \<and> same_allow s1 s'"
proof -
  from base_poll_outcome [OF assms] obtain s1 where s1: "updates L s s1"
    "bb_outbound_conns s' = bb_outbound_conns s1" "same_allow s1 s'"
    unfolding poll_outcome_def same_allow_def by (fastforce split: poll.splits)
  then show "bb_outbound_conns s' = bb_outbound_conns s" and "\<exists>s1. updates L s s1 \<and> same_allow s1 s'"
    using updates_frame [OF s1(1)] by (auto simp: same_peers_def)
qed

lemma probe_frame:
  assumes "base_try_probe_peer L s p = (s', r)"
  shows "bb_outbound_conns s' = bb_outbound_conns s \<and> same_allow s s'"
proof -
  have "ib_allow (bb_inner (base_find_and_dial L s1 p)) = ib_allow (bb_inner s1)"
    "bb_registered_nodes (base_find_and_dial L s1 p) = bb_registered_nodes s1" for s1 :: "('a, 'b, 'c, 'd) base"
    using find_and_dial_frame(1) [of s1 L p] by (simp_all add: same_allow_def)
  with assms show ?thesis
    by (auto simp: base_try_probe_peer_def find_and_dial_frame same_allow_def split: if_splits prod.splits bool.splits)
qed

lemma base_run_probe_inv:
  assumes "base_run L s0 sw ps al out s" and laws: "futures_map_laws (l_timers L) cap"
    and "fm_keys (l_timers L) (bb_probe_timeouts s0) = {}"
  shows "probe_inv L cap (ongoing_probes (bb_metrics s0)) ps out s"
  using assms(1)
proof induction
  case start
  then show ?case using assms(3) by (simp add: probe_inv_def)
next
  case (probe sw ps al out s p s' r)
  then show ?case using probe_step(1) [OF _ laws] by blast
next
  case (find sw ps al out s p)
  then show ?case by (simp add: probe_inv_def find_and_dial_frame)
next
  case (allow sw ps al out s p)
  then show ?case by (simp add: probe_inv_def base_allow_peer_def)
next
  case (topics sw ps al out s f)
  then show ?case using on_pubsub_frame(1) [of s f] by (simp add: probe_inv_def same_peers_def)
next
  case (swarm sw ps al out s ev s' evs)
  then show ?case using swarm_probe_step(1) [OF _ laws] by blast
next
  case (inner sw ps al out s iev s' evs)
  then show ?case using inner_event_frame [OF inner(2)] by (simp add: probe_inv_def)
next
  case (polled sw ps al out s now s' r)
  then show ?case using poll_probe_step(1) [OF _ laws] by blast
qed

lemma base_run_conn_inv:
  fixes out :: "'cmd base_out"
  assumes "base_run L s0 sw ps al out s" and laws: "futures_map_laws (l_timers L) cap"
    and "bb_outbound_conns s0 = fmempty"
  shows "swarm_wf sw \<Longrightarrow> conn_inv sw s"
  using assms(1)
proof induction
  case start
  then show ?case using assms(3) by (simp add: conn_inv_def conns_def)
next
  case (probe sw ps al out s p s' r)
  then show ?case using probe_frame [OF probe(2)] conn_inv_frame [of s' s sw] by blast
next
  case (find sw ps al out s p)
  then show ?case using conn_inv_frame [of "base_find_and_dial L s p" s sw] find_and_dial_frame(2) by blast
next
  case (allow sw ps al out s p)
  then show ?case by (simp add: conn_inv_def conns_def base_allow_peer_def)
next
  case (topics sw ps al out s f)
  then show ?case using on_pubsub_frame(1) [of s f] by (simp add: conn_inv_def conns_def same_peers_def)
next
  case (swarm sw ps al out s ev s' evs)
  from conn_inv_step [where 'cmd = 'cmd, OF swarm.IH [OF swarm_wf_snoc] swarm.prems, OF swarm.prems, of L] swarm(2) show ?case by auto
next
  case (inner sw ps al out s iev s' evs)
  then show ?case using inner_event_frame(5) [OF inner(2)] by (simp add: conn_inv_def conns_def)
next
  case (polled sw ps al out s now s' r)
  then show ?case using poll_frame(1) [OF polled(2)] by (simp add: conn_inv_def conns_def)
qed

lemma base_run_allow_inv:
  assumes "base_run L s0 sw ps al out s" and laws: "futures_map_laws (l_timers L) cap" "peer_order_laws (l_order L)"
    and "allow_inv X s0"
  shows "allow_inv (X \<union> set al) s"
  using assms(1)
proof induction
  case start
  then show ?case using assms(4) by simp
next
  case (probe sw ps al out s p s' r)
  then show ?case using probe_frame [OF probe(2)] allow_inv_same by blast
next
  case (find sw ps al out s p)
  then show ?case using allow_inv_same [OF find_and_dial_frame(1)] by blast
next
  case (allow sw ps al out s p)
  then show ?case by (auto simp: allow_inv_def base_allow_peer_def allow_peer_call_def)
next
  case (topics sw ps al out s f)
  then show ?case using allow_inv_same [OF on_pubsub_frame(2)] by blast
next
  case (swarm sw ps al out s ev s' evs)
  have "same_allow s s'"
    using swarm(2)
    by (auto simp: base_on_swarm_event_def base_on_connection_established_def base_on_connection_closed_def same_allow_def Let_def
        case_prod_beta split: swarm_event.splits endpoint.splits option.splits if_splits)
  with swarm allow_inv_same show ?case by blast
next
  case (inner sw ps al out s iev s' evs)
  then show ?case using allow_inv_same [OF inner_event_frame(2) [OF inner(2)]] by blast
next
  case (polled sw ps al out s now s' r)
  from poll_frame(2) [OF polled(2)] obtain s1 where "updates L s s1" "same_allow s1 s'" by blast
  with polled updates_inv [OF laws(2)] allow_inv_same show ?case by blast
qed

section \<open>Properties\<close>

text \<open>Library instances for the witnesses.\<close>

definition demo_bimap :: "(query_id, peer_id) fmap bi_map" where
  "demo_bimap = \<lparr>bm_new = fmempty, bm_contains_left = \<lambda>m p. p |\<in>| fmran m,
     bm_get_by_right = fmlookup,
     bm_insert = \<lambda>m p q. fmupd q p (fmfilter (\<lambda>q. fmlookup m q \<noteq> Some p) m),
     bm_remove_by_right = \<lambda>m q. fmdrop q m\<rparr>"

lemma demo_bimap_laws: "bi_map_laws demo_bimap"
proof -
  have "bm_pairs demo_bimap m = {(p, q). fmlookup m q = Some p}" for m
    by (simp add: bm_pairs_def demo_bimap_def)
  then show ?thesis
    unfolding bi_map_laws_def
    by (auto simp: demo_bimap_def fmlookup_ran_iff image_iff split: if_splits)
qed

definition demo_lru :: "(peer_id \<Rightarrow> multiaddr set option) lru_cache" where
  "demo_lru = \<lparr>lru_new = \<lambda>_ _. None, lru_get = \<lambda>l p. (l, l p),
     lru_get_or_insert_mut = \<lambda>l p d f. l(p := Some (f (case l p of Some v \<Rightarrow> v | None \<Rightarrow> d)))\<rparr>"

definition demo_libs ::
    "(peer_id \<Rightarrow> multiaddr set option, nat \<times> peer_id list, (query_id, peer_id) fmap, (unit + peer_id fset) list, unit) libs" where
  "demo_libs = \<lparr>l_kad_id = length, l_lru = demo_lru, l_timers = demo_timers, l_bimap = demo_bimap,
     l_stream_poll = \<lambda>st. (case st of [] \<Rightarrow> ([], Pending) | x # xs \<Rightarrow> (xs, Ready (Some x))),
     l_gossip = demo_gossip, l_crypto = demo_crypto, l_protobuf = demo_protobuf,
     l_order = \<lambda>ps. map PeerId (sorted_list_of_fset (to_bytes |`| ps)), l_env = \<lambda>_. None, l_chk = True\<rparr>"

definition demo_base ::
    "(peer_id \<Rightarrow> multiaddr set option, nat \<times> peer_id list, (query_id, peer_id) fmap, (unit + peer_id fset) list) base" where
  "demo_base = base_new demo_libs (Keypair []) (\<lambda>_. []) base_config_default
     [\<lparr>bn_peer_id = PeerId [1], bn_address = []\<rparr>] (dht_protocol Tethys) metrics_init"

lemma demo_lru_laws: "lru_laws demo_lru"
  by (simp add: lru_laws_def demo_lru_def)

lemma demo_order_peers: "peer_order_laws (l_order demo_libs)"
proof -
  have "PeerId ` to_bytes ` A = A" for A by (auto simp: image_image)
  then show ?thesis by (simp add: peer_order_laws_def demo_libs_def)
qed

lemma demo_timers_laws_libs: "futures_map_laws (l_timers demo_libs) fst"
  by (simp add: demo_libs_def demo_timers_laws)

lemma demo_base_fields:
  "bb_outbound_conns demo_base = fmempty" "fm_keys (l_timers demo_libs) (bb_probe_timeouts demo_base) = {}"
  "bb_registered_nodes demo_base = {||}" "ib_allow (bb_inner demo_base) = [AllowPeer (PeerId [1])]"
  "ongoing_probes (bb_metrics demo_base) = 0" "bb_ongoing_queries demo_base = fmempty" "ib_kademlia (bb_inner demo_base) = []"
  by (simp_all add: demo_base_def base_new_def Let_def demo_libs_def demo_timers_def fm_keys_def metrics_init_def demo_bimap_def
      add_boot_node_def allow_peer_call_def)

text \<open>
  C33. Bundling: no message is lost except those that are larger than the limit, the order is
  kept, every bundle is non-empty and its messages add up to at most the limit, and bundles
  are as large as possible: the first message of a bundle would not have fitted into the one before.
\<close>

theorem bundle_messages_bounds:
  "concat (bundle_messages len msgs limit) = filter (\<lambda>m. len m \<le> limit) msgs \<and>
   (\<forall>b\<in>set (bundle_messages len msgs limit). b \<noteq> [] \<and> sum_list (map len b) \<le> limit) \<and>
   (\<forall>i. Suc i < length (bundle_messages len msgs limit) \<longrightarrow>
      limit < sum_list (map len (bundle_messages len msgs limit ! i)) + len (hd (bundle_messages len msgs limit ! Suc i)))"
  using bundle_messages_correct by blast

theorem bundle_messages_bounds_witness:
  "concat (bundle_messages id [40, 40, 200, 90] 100) = [40, 40, 90 :: nat]"
  using bundle_messages_bounds [of id "[40, 40, 200, 90]" 100] by simp

text \<open>
  C25. The counters of outbound connections are right: in every run in which the swarm closes
  only connections that it has opened (and never keeps \<open>2 ^ 32\<close> of them to one peer), the counter
  of each peer is the number of its open outbound connections, no connection event makes the
  behaviour panic, and a probe is answered with \<open>Ok(true)\<close> exactly for the peers with an
  open outbound connection.
\<close>

theorem base_connection_counts:
  assumes "base_run L s0 sw ps al (out :: 'cmd base_out) s" and "swarm_wf sw"
    and "bb_outbound_conns s0 = fmempty" and "futures_map_laws (l_timers L) cap"
  shows "unat (conns s p) = opened sw p - closed sw p \<and>
    (swarm_wf (sw @ [ev]) \<longrightarrow> (\<exists>s' evs. base_on_swarm_event L s ev = (Done (s', evs) :: (_ \<times> 'cmd base_out) run))) \<and>
    (snd (base_try_probe_peer L s p) = Inr True \<longleftrightarrow> closed sw p < opened sw p)"
proof -
  have inv: "conn_inv sw s" using base_run_conn_inv [OF assms(1,4,3,2)] .
  then have c: "unat (conns s p) = opened sw p - closed sw p" by (simp add: conn_inv_def)
  have "snd (base_try_probe_peer L s p) = Inr True \<longleftrightarrow> 0 < conns s p"
    by (auto simp: base_try_probe_peer_def conns_def split: option.splits prod.splits bool.splits)
  also have "\<dots> \<longleftrightarrow> closed sw p < opened sw p" using c by (simp add: word_less_nat_alt)
  finally have "snd (base_try_probe_peer L s p) = Inr True \<longleftrightarrow> closed sw p < opened sw p" .
  with c conn_inv_step [OF inv, where 'cmd = 'cmd] show ?thesis by blast
qed

lemma demo_base_run:
  "\<exists>s. base_run demo_libs demo_base [ConnectionEstablished (PeerId [3]) Dialer] [PeerId [3]] []
     ([GenerateEvent (EvPeerProbed (PeerId [3]) True)] :: unit base_out) s"
proof -
  let ?p = "PeerId [3]"
  obtain s1 where s1: "base_try_probe_peer demo_libs demo_base ?p = (s1, Inr False)"
    and t1: "bb_probe_timeouts s1 = (1000, [?p])" "bb_outbound_conns s1 = fmempty"
    by (simp add: base_try_probe_peer_def demo_base_fields find_and_dial_frame)
       (simp add: demo_base_def base_new_def Let_def demo_libs_def demo_timers_def base_config_default_def find_and_dial_frame)
  have "\<not> fm_contains (l_timers demo_libs) (bb_probe_timeouts demo_base) ?p"
    using demo_base_fields(2) by (auto simp: fm_contains_keys)
  with base_run.probe [OF base_run.start s1]
  have r1: "base_run demo_libs demo_base [] ([] @ [?p]) [] ([] :: unit base_out) s1" by simp
  obtain s2 where "base_on_swarm_event demo_libs s1 (ConnectionEstablished ?p Dialer) =
      (Done (s2, [GenerateEvent (EvPeerProbed ?p True)]) :: (_ \<times> unit base_out) run)"
    by (simp add: base_on_swarm_event_def base_on_connection_established_def Let_def t1 add_chk_def demo_libs_def demo_timers_def)
  from base_run.swarm [OF r1 this] show ?thesis by auto
qed

lemma demo_swarm_wf: "swarm_wf [ConnectionEstablished (PeerId [3]) Dialer]"
  unfolding swarm_wf_def
proof (intro allI)
  fix n p
  show "closed (take n [ConnectionEstablished (PeerId [3]) Dialer]) p \<le> opened (take n [ConnectionEstablished (PeerId [3]) Dialer]) p \<and>
    opened (take n [ConnectionEstablished (PeerId [3]) Dialer]) p - closed (take n [ConnectionEstablished (PeerId [3]) Dialer]) p < 2 ^ 32"
    by (cases n) (simp_all add: opened_def closed_def)
qed

theorem base_connection_counts_witness:
  "\<exists>s. base_run demo_libs demo_base [ConnectionEstablished (PeerId [3]) Dialer] [PeerId [3]] []
       ([GenerateEvent (EvPeerProbed (PeerId [3]) True)] :: unit base_out) s \<and>
     unat (conns s (PeerId [3])) = 1 \<and> snd (base_try_probe_peer demo_libs s (PeerId [3])) = Inr True"
proof -
  obtain s where s: "base_run demo_libs demo_base [ConnectionEstablished (PeerId [3]) Dialer] [PeerId [3]] []
      ([GenerateEvent (EvPeerProbed (PeerId [3]) True)] :: unit base_out) s" using demo_base_run by blast
  from base_connection_counts [OF s demo_swarm_wf demo_base_fields(1) demo_timers_laws_libs, of "PeerId [3]" OtherSwarmEvent] s
  show ?thesis by (auto simp: opened_def closed_def)
qed

text \<open>
  Every probe gets exactly one result. In every run, the number of probes scheduled for a
  peer is the number of \<open>PeerProbed\<close> events emitted for it, plus one if its probe is still
  running (so at most one is), and the gauge of ongoing probes counts the running ones.
\<close>

lemma base_probe_accounting:
  assumes "base_run L s0 sw ps al out s" and "futures_map_laws (l_timers L) cap"
    and "fm_keys (l_timers L) (bb_probe_timeouts s0) = {}"
  shows "count_list ps p = count_list (probed out) p + (if p \<in> fm_keys (l_timers L) (bb_probe_timeouts s) then 1 else 0) \<and>
    ongoing_probes (bb_metrics s) = ongoing_probes (bb_metrics s0) + of_nat (card (fm_keys (l_timers L) (bb_probe_timeouts s)))"
  using base_run_probe_inv [OF assms] by (simp add: probe_inv_def)

text \<open>
  C26. A poll of the base behaviour returns. If the stream of node lists has finitely many items ready, \<open>poll\<close> comes to an end without panic: it
  handles all of them, in order, and ends with the last list that could be read as the registered nodes, and with the stream waiting. Then it reports
  at most one probe, which was running and is not any more, as unreachable; if it reports none, all probes go on.
\<close>

theorem base_poll_returns:
  assumes "stream_yields (l_stream_poll L) (bb_active_nodes_stream s) rs st" and "futures_map_laws (l_timers L) cap"
  shows "\<exists>s' r. base_poll L now s = Some (Done (s', r :: 'cmd base_out poll)) \<and> bb_active_nodes_stream s' = st \<and>
    bb_registered_nodes s' = fold (\<lambda>r n. case r of Inl e \<Rightarrow> n | Inr nodes \<Rightarrow> nodes) rs (bb_registered_nodes s) \<and>
    bb_inner s' = bb_inner (handle_updates L rs s) \<and>
    (case r of
       Pending \<Rightarrow> fm_keys (l_timers L) (bb_probe_timeouts s') = fm_keys (l_timers L) (bb_probe_timeouts s)
     | Ready evs \<Rightarrow> \<exists>p. p \<in> fm_keys (l_timers L) (bb_probe_timeouts s) \<and> evs = [GenerateEvent (EvPeerProbed p False)] \<and>
         fm_keys (l_timers L) (bb_probe_timeouts s') = fm_keys (l_timers L) (bb_probe_timeouts s) - {p})"
proof -
  obtain ts r where p: "fm_poll (l_timers L) now (bb_probe_timeouts s) = (ts, r)" by force
  note law = fm_poll_law [OF assms(2) p]
  show ?thesis
  proof (cases r)
    case Pending
    with law(2) p base_poll_yields [OF assms(1), of now, where 'cmd = 'cmd] show ?thesis
      by (simp add: Let_def handle_updates_registered)
  next
    case (Ready pr)
    obtain q res where pr: "pr = (q, res)" by force
    with law(3) Ready have "res = Inl ()" "q \<in> fm_keys (l_timers L) (bb_probe_timeouts s)"
      "fm_keys (l_timers L) ts = fm_keys (l_timers L) (bb_probe_timeouts s) - {q}" by blast+
    with p pr Ready base_poll_yields [OF assms(1), of now, where 'cmd = 'cmd] show ?thesis
      by (simp add: Let_def handle_updates_registered)
  qed
qed

lemma demo_stream_yields: "stream_yields (l_stream_poll demo_libs) xs xs []"
  by (induction xs) (auto intro: stream_yields.intros simp: demo_libs_def)

theorem base_poll_returns_witness:
  "\<exists>s' r. base_poll demo_libs 0 (demo_base\<lparr>bb_active_nodes_stream := [Inr {|PeerId [5]|}, Inl ()]\<rparr>) = Some (Done (s', r :: unit base_out poll)) \<and>
     bb_registered_nodes s' = {|PeerId [5]|} \<and> r = Pending"
proof -
  let ?s = "demo_base\<lparr>bb_active_nodes_stream := [Inr {|PeerId [5]|}, Inl ()]\<rparr>"
  have "stream_yields (l_stream_poll demo_libs) (bb_active_nodes_stream ?s) [Inr {|PeerId [5]|}, Inl ()] []"
    by (simp add: demo_stream_yields)
  from base_poll_returns [OF this demo_timers_laws_libs, of 0, where 'cmd = unit] obtain s' and r :: "unit base_out poll" where
    s': "base_poll demo_libs 0 ?s = Some (Done (s', r))" "bb_registered_nodes s' = {|PeerId [5]|}"
    and r: "case r of
       Pending \<Rightarrow> fm_keys (l_timers demo_libs) (bb_probe_timeouts s') = fm_keys (l_timers demo_libs) (bb_probe_timeouts ?s)
     | Ready evs \<Rightarrow> \<exists>p. p \<in> fm_keys (l_timers demo_libs) (bb_probe_timeouts ?s) \<and> evs = [GenerateEvent (EvPeerProbed p False)] \<and>
         fm_keys (l_timers demo_libs) (bb_probe_timeouts s') = fm_keys (l_timers demo_libs) (bb_probe_timeouts ?s) - {p}"
    by - (elim exE conjE, rule that, assumption, simp, assumption)
  have "r = Pending" using r by (cases r) (simp_all add: demo_base_fields)
  with s' show ?thesis by blast
qed

text \<open>
  The allow list: in every run, every registered node is allowed, and every allowed peer is
  registered, was allowed at the start (a boot node), or was allowed explicitly. An update of
  the node list allows exactly the new nodes and revokes exactly the ones that left; an
  error of the contract client changes nothing.
\<close>

lemma base_allow_list:
  assumes "base_run L s0 sw ps al out s" and "futures_map_laws (l_timers L) cap" and "peer_order_laws (l_order L)"
    and "bb_registered_nodes s0 = {||}"
  shows "fset (bb_registered_nodes s) \<subseteq> allowed (ib_allow (bb_inner s)) \<and>
    allowed (ib_allow (bb_inner s)) \<subseteq> fset (bb_registered_nodes s) \<union> allowed (ib_allow (bb_inner s0)) \<union> set al \<and>
    (\<forall>nodes. nodes \<noteq> bb_registered_nodes s \<longrightarrow>
       allowed (ib_allow (bb_inner (base_on_nodes_update L s (Inr nodes)))) =
         allowed (ib_allow (bb_inner s)) - (fset (bb_registered_nodes s) - fset nodes) \<union>
         (fset nodes - fset (bb_registered_nodes s))) \<and>
    base_on_nodes_update L s (Inl e) = s"
proof -
  have "allow_inv (allowed (ib_allow (bb_inner s0))) s0" using assms(4) by (simp add: allow_inv_def)
  from base_run_allow_inv [OF assms(1,2,3) this] show ?thesis
    using nodes_update_allowed [OF assms(3)] by (auto simp: allow_inv_def)
qed

text \<open>
  Looking a peer up: \<open>find_and_dial\<close> starts one kademlia query and, as long as it is
  running, no second one. When the result of the query contains the peer, the behaviour dials
  it (also if there is an inbound connection), having stored the addresses found, so that
  they are offered for the dial; and the peer can be looked up again.
\<close>

lemma base_lookup_dial:
  assumes "bi_map_laws (l_bimap L)" and "lru_laws (l_lru L)"
    and "\<not> bm_contains_left (l_bimap L) (bb_ongoing_queries s) p"
    and "query_id = l_kad_id L (ib_kademlia (bb_inner s) @ [KadGetClosestPeers p])"
    and "s1 = base_find_and_dial L s p" and "List.find (\<lambda>pi. fst pi = p) peers = Some (p, addrs)"
  shows "ib_kademlia (bb_inner s1) = ib_kademlia (bb_inner s) @ [KadGetClosestPeers p] \<and>
    base_find_and_dial L s1 p = s1 \<and>
    (\<exists>s2. base_on_inner_event L s1 (KadClosestPeers query_id complete peers) =
            (Done (s2, [Dial p NotDialing]) :: (_ \<times> 'cmd base_out) run) \<and>
          cached (l_lru L) (ib_address_cache (bb_inner s2)) p \<supseteq> set addrs \<and>
          \<not> bm_contains_left (l_bimap L) (bb_ongoing_queries s2) p)"
proof -
  let ?bm = "l_bimap L" and ?m = "bb_ongoing_queries s"
  have s1: "s1 = s\<lparr>bb_inner := (bb_inner s)\<lparr>ib_kademlia := ib_kademlia (bb_inner s) @ [KadGetClosestPeers p]\<rparr>,
      bb_ongoing_queries := bm_insert ?bm ?m p query_id, bb_metrics := inc_ongoing_queries (bb_metrics s)\<rparr>"
    using assms(3-5) by (simp add: base_find_and_dial_def Let_def)
  have left: "bm_contains_left ?bm m' p' \<longleftrightarrow> p' \<in> fst ` bm_pairs ?bm m'" for m' p'
    using assms(1) by (simp add: bi_map_laws_def)
  have pairs: "bm_pairs ?bm (bm_insert ?bm ?m p query_id) = insert (p, query_id) {(p', q'). (p', q') \<in> bm_pairs ?bm ?m \<and> p' \<noteq> p \<and> q' \<noteq> query_id}"
    using assms(1) by (auto simp: bi_map_laws_def)
  then have "bm_get_by_right ?bm (bm_insert ?bm ?m p query_id) query_id = Some p" by (auto simp: bm_pairs_def)
  then have ev: "base_on_inner_event L s1 (KadClosestPeers query_id complete peers) =
      (Done (s1\<lparr>bb_inner := put_addrs L p addrs (bb_inner s1),
                bb_ongoing_queries := bm_remove_by_right ?bm (bb_ongoing_queries s1) query_id,
                bb_metrics := dec_ongoing_queries (bb_metrics s1)\<rparr>, [Dial p NotDialing]) :: (_ \<times> 'cmd base_out) run)"
      (is "_ = Done (?s2, _)")
    using assms(6) by (simp add: base_on_inner_event_def base_on_closest_peers_def s1)
  have rem: "bm_pairs ?bm (bm_remove_by_right ?bm m' query_id) = {(p', q'). (p', q') \<in> bm_pairs ?bm m' \<and> q' \<noteq> query_id}" for m'
    using assms(1) by (auto simp: bi_map_laws_def)
  have "bm_pairs ?bm (bb_ongoing_queries ?s2) = {(p', q'). (p', q') \<in> bm_pairs ?bm ?m \<and> p' \<noteq> p \<and> q' \<noteq> query_id}"
    by (simp add: s1 rem pairs) blast
  then have gone: "\<not> bm_contains_left ?bm (bb_ongoing_queries ?s2) p" unfolding left by auto
  have "cached (l_lru L) (ib_address_cache (bb_inner ?s2)) p = cached (l_lru L) (ib_address_cache (bb_inner s1)) p \<union> set addrs"
    using cached_put [OF assms(2)] by (simp add: put_addrs_def)
  moreover have "base_find_and_dial L s1 p = s1" using left pairs by (simp add: base_find_and_dial_def s1)
  moreover have "ib_kademlia (bb_inner s1) = ib_kademlia (bb_inner s) @ [KadGetClosestPeers p]" by (simp add: s1)
  ultimately show ?thesis using ev gone by (intro conjI exI [of _ ?s2]) simp_all
qed

text \<open>
  C34. If the result of a query does not contain the peer, it is ignored altogether: the query
  stays recorded as ongoing, although it is over, and from then on \<open>find_and_dial\<close> for this
  peer does nothing, in every later state in which the record is still there.
\<close>

theorem base_lookup_stuck:
  assumes "bi_map_laws (l_bimap L)" and "bm_get_by_right (l_bimap L) (bb_ongoing_queries s) query_id = Some p"
    and "p \<notin> fst ` set peers"
  shows "base_on_inner_event L s (KadClosestPeers query_id complete peers) = (Done (s, []) :: (_ \<times> 'cmd base_out) run) \<and>
    (\<forall>s'. bb_ongoing_queries s' = bb_ongoing_queries s \<longrightarrow> base_find_and_dial L s' p = s')"
proof -
  have "List.find (\<lambda>pi. fst pi = p) peers = None" using assms(3) by (force simp: find_None_iff)
  moreover have "p \<in> fst ` bm_pairs (l_bimap L) (bb_ongoing_queries s)" using assms(2) by (force simp: bm_pairs_def)
  ultimately show ?thesis
    using assms(1,2) by (simp add: base_on_inner_event_def base_on_closest_peers_def base_find_and_dial_def bi_map_laws_def)
qed

theorem base_lookup_stuck_witness:
  "let s = base_find_and_dial demo_libs demo_base (PeerId [4]) in
   base_on_inner_event demo_libs s (KadClosestPeers 1 True [(PeerId [9], [])]) = (Done (s, []) :: (_ \<times> unit base_out) run)"
proof -
  let ?s = "base_find_and_dial demo_libs demo_base (PeerId [4])"
  have "bm_get_by_right (l_bimap demo_libs) (bb_ongoing_queries ?s) 1 = Some (PeerId [4])"
    by (simp add: base_find_and_dial_def demo_base_fields demo_libs_def demo_bimap_def)
  moreover have "bi_map_laws (l_bimap demo_libs)" by (simp add: demo_libs_def demo_bimap_laws)
  ultimately show ?thesis
    using base_lookup_stuck [of demo_libs ?s 1 "PeerId [4]" "[(PeerId [9], [])]" True, where 'cmd = unit] by simp
qed

text \<open>
  Pings are authentic: a \<open>Ping\<close> event is emitted only for a message on the ping topic that
  decodes to that ping, carries the sender of the message as its peer, and has a signature that
  the public key inside the sender's peer ID verifies over the ping without its signature.
\<close>

theorem base_ping_authentic:
  assumes "base_on_pubsub_event L msg = Done (evs :: 'cmd base_out)" and "GenerateEvent (EvPing peer pg) \<in> set evs"
  shows "peer = pm_peer_id msg \<and> pm_topic msg = ping_topic \<and> dec_ping (l_protobuf L) (pm_data msg) = Some pg \<and>
    (\<exists>pk. pubkey_decode (l_crypto L) (drop 2 (to_bytes peer)) = Some pk \<and>
          pubkey_verify (l_crypto L) pk (enc_ping (l_protobuf L) (pg\<lparr>ping_signature := []\<rparr>)) (ping_signature pg))"
proof -
  let ?cr = "l_crypto L" and ?pb = "l_protobuf L"
  from assms have t: "pm_topic msg = ping_topic"
    and d: "decode_ping ?cr ?pb (pm_peer_id msg) (pm_data msg) = Done (Some (EvPing peer pg))"
    by (auto simp: base_on_pubsub_event_def decode_worker_logs_msg_def decode_logs_collected_def
        split: if_splits option.splits worker_logs_kind.splits)
  from d obtain p where p: "dec_ping ?pb (pm_data msg) = Some p" "peer = pm_peer_id msg"
    and v: "verify_signature ?cr (ping_signed ?pb) (pm_peer_id msg) p = Done (True, pg)"
    by (auto simp: decode_ping_def split: option.splits if_splits)
  from ping_sig.verify_keeps_message [OF v] have "pg = p" .
  with v have "\<exists>pk. pubkey_decode ?cr (drop 2 (to_bytes peer)) = Some pk \<and>
      pubkey_verify ?cr pk (enc_ping ?pb (pg\<lparr>ping_signature := []\<rparr>)) (ping_signature pg)"
    by (auto simp: verify_signature_def ping_signed_def p(2) split: if_splits option.splits)
  with t p \<open>pg = p\<close> show ?thesis by simp
qed

text \<open>A protobuf instance in which pings and logs survive encoding, for the witnesses.\<close>

definition demo_ping_protobuf :: protobuf where
  "demo_ping_protobuf = demo_protobuf\<lparr>enc_ping := \<lambda>p. ping_signature p,
     dec_ping := \<lambda>b. Some (demo_ping\<lparr>ping_signature := b\<rparr>)\<rparr>"

theorem base_ping_authentic_witness:
  "\<exists>evs. base_on_pubsub_event (demo_libs\<lparr>l_protobuf := demo_ping_protobuf\<rparr>)
       \<lparr>pm_peer_id = PeerId [0, 1, 7], pm_topic = ping_topic, pm_data = [7]\<rparr> = Done (evs :: unit base_out) \<and>
     evs = [GenerateEvent (EvPing (PeerId [0, 1, 7]) (demo_ping\<lparr>ping_signature := [7]\<rparr>))] \<and>
     (\<exists>pk. pubkey_verify demo_crypto pk (enc_ping demo_ping_protobuf demo_ping) [7])"
proof -
  let ?L = "demo_libs\<lparr>l_protobuf := demo_ping_protobuf\<rparr>"
  let ?m = "\<lparr>pm_peer_id = PeerId [0, 1, 7], pm_topic = ping_topic, pm_data = [7]\<rparr>"
  have 1: "base_on_pubsub_event ?L ?m = Done ([GenerateEvent (EvPing (PeerId [0, 1, 7]) (demo_ping\<lparr>ping_signature := [7]\<rparr>))] :: unit base_out)"
    by (simp add: base_on_pubsub_event_def decode_ping_def demo_libs_def demo_ping_protobuf_def verify_signature_def
        ping_signed_def demo_crypto_def)
  from base_ping_authentic [OF 1] have "\<exists>pk. pubkey_verify demo_crypto pk (enc_ping demo_ping_protobuf demo_ping) [7]"
    by (auto simp: demo_libs_def)
  with 1 show ?thesis by blast
qed

subsection \<open>Publishing worker logs\<close>

abbreviation base_gossip :: "('lru, 'fm, 'bm, 'ns) base \<Rightarrow> pubsub" where
  "base_gossip s \<equiv> wrapper (ib_pubsub (bb_inner s))"

definition subscribed :: "('lru, 'fm, 'bm, 'ns, 'err) libs \<Rightarrow> ('lru, 'fm, 'bm, 'ns) base \<Rightarrow> string \<Rightarrow> bool" where
  "subscribed L s topic \<longleftrightarrow> sha256_topic (l_gossip L) topic |\<in>| fmdom (ps_topics (base_gossip s))"

lemma publish_subscribed:
  assumes "subscribed L s topic"
  shows "ps_inner (base_gossip (base_publish L now s topic data)) =
      ps_inner (base_gossip s) @ [GsPublish (sha256_topic (l_gossip L) topic) data]"
    and "subscribed L (base_publish L now s topic data) topic"
  using assms
  by (auto simp: base_publish_def on_pubsub_frame pubsub_publish_def subscribed_def Let_def split: option.splits)

lemma publish_fold:
  assumes "subscribed L s topic"
  shows "ps_inner (base_gossip (fold (\<lambda>b s. base_publish L now s topic (f b)) bs s)) =
    ps_inner (base_gossip s) @ map (\<lambda>b. GsPublish (sha256_topic (l_gossip L) topic) (f b)) bs"
  using assms
proof (induction bs arbitrary: s)
  case (Cons b bs)
  from publish_subscribed [OF Cons.prems] Cons.IH show ?case by simp
qed simp

lemma sign_all_verifies:
  assumes "key_of_peer cr kp peer"
  shows "\<exists>ms. sign_all (sign cr (query_executed_signed pb) kp) logs = Done ms \<and>
    list_all2 (\<lambda>l m. m\<lparr>qe_signature := []\<rparr> = l\<lparr>qe_signature := []\<rparr> \<and>
       verify_signature cr (query_executed_signed pb) peer m = Done (True, m)) logs ms"
proof (induction logs)
  case (Cons l logs)
  then obtain ms where ms: "sign_all (sign cr (query_executed_signed pb) kp) logs = Done ms"
    "list_all2 (\<lambda>l m. m\<lparr>qe_signature := []\<rparr> = l\<lparr>qe_signature := []\<rparr> \<and>
       verify_signature cr (query_executed_signed pb) peer m = Done (True, m)) logs ms" by blast
  from query_executed_sig.verify_sign [OF assms, of pb l] obtain m where
    m: "sign cr (query_executed_signed pb) kp l = Done m" "verify_signature cr (query_executed_signed pb) peer m = Done (True, m)"
    by blast
  from m(1) have "m\<lparr>qe_signature := []\<rparr> = l\<lparr>qe_signature := []\<rparr>"
    by (auto simp: sign_def query_executed_signed_def)
  with ms m show ?case by simp
qed simp

text \<open>The logs that a receiver of the given gossipsub calls decodes, in order.\<close>

definition received_logs :: "protobuf \<Rightarrow> peer_id \<Rightarrow> gossip_call list \<Rightarrow> query_executed list" where
  "received_logs pb peer calls = concat (map (\<lambda>c. case c of
     GsPublish t data \<Rightarrow> (case decode_worker_logs_msg pb peer data of
                            Some (EvWorkerQueryLogs _ logs) \<Rightarrow> queries_executed logs | _ \<Rightarrow> [])
   | _ \<Rightarrow> []) calls)"

text \<open>Lists of the logs in \<open>Q\<close> survive the encoding as a worker-log message.\<close>

definition logs_codec :: "protobuf \<Rightarrow> query_executed set \<Rightarrow> bool" where
  "logs_codec pb Q \<longleftrightarrow> (\<forall>qs. set qs \<subseteq> Q \<longrightarrow>
     dec_worker_logs_msg pb (enc_worker_logs_msg pb (worker_logs_msg_from_queries qs)) = Some (worker_logs_msg_from_queries qs))"

lemma sign_all_set: "sign_all f logs = Done ms \<Longrightarrow> m \<in> set ms \<Longrightarrow> \<exists>l\<in>set logs. f l = Done m"
  by (induction logs arbitrary: ms) auto

lemma decode_bundle:
  assumes "logs_codec pb Q" and "set b \<subseteq> Q"
  shows "decode_worker_logs_msg pb peer (enc_worker_logs_msg pb (worker_logs_msg_from_queries b)) =
    Some (EvWorkerQueryLogs peer (query_logs_from b))"
  using assms
  by (simp add: decode_worker_logs_msg_def logs_codec_def)
     (simp add: worker_logs_msg_from_queries_def worker_logs_msg_from_msg_def)

lemma received_bundles:
  assumes "logs_codec pb Q" and "\<forall>b\<in>set bs. set b \<subseteq> Q"
  shows "received_logs pb peer (map (\<lambda>b. GsPublish h (enc_worker_logs_msg pb (worker_logs_msg_from_queries b))) bs) = concat bs"
  using assms(2) decode_bundle [OF assms(1)] by (induction bs) (auto simp: received_logs_def query_logs_from_def)

text \<open>
  Publishing logs: every log is signed, with a signature that verifies for the peer of the
  key; what is published on the worker-log topic are the signed logs whose encoding is within the size
  limit, in order and without loss or repetition, in bundles; and it decodes to these logs.
\<close>

lemma publish_logs_bundles:
  assumes "key_of_peer (l_crypto L) (bb_keypair s) peer" and "subscribed L s worker_logs_topic"
  shows "\<exists>s' signed_logs bs. base_publish_worker_logs L now s logs = Done s' \<and>
    list_all2 (\<lambda>l m. m\<lparr>qe_signature := []\<rparr> = l\<lparr>qe_signature := []\<rparr> \<and>
       verify_signature (l_crypto L) (query_executed_signed (l_protobuf L)) peer m = Done (True, m)) logs signed_logs \<and>
    ps_inner (base_gossip s') = ps_inner (base_gossip s) @
      map (\<lambda>b. GsPublish (sha256_topic (l_gossip L) worker_logs_topic)
                 (enc_worker_logs_msg (l_protobuf L) (worker_logs_msg_from_queries b))) bs \<and>
    concat bs = filter (\<lambda>m. len_query_executed (l_protobuf L) m \<le> bb_max_pubsub_msg_size s) signed_logs \<and>
    (\<forall>b\<in>set bs. set b \<subseteq> {m. \<exists>l\<in>set logs. base_sign L s (query_executed_signed (l_protobuf L)) l = Done m})"
proof -
  let ?pb = "l_protobuf L" and ?h = "sha256_topic (l_gossip L) worker_logs_topic"
  from sign_all_verifies [OF assms(1)] obtain ms where
    ms: "sign_all (sign (l_crypto L) (query_executed_signed ?pb) (bb_keypair s)) logs = Done ms"
      "list_all2 (\<lambda>l m. m\<lparr>qe_signature := []\<rparr> = l\<lparr>qe_signature := []\<rparr> \<and>
         verify_signature (l_crypto L) (query_executed_signed ?pb) peer m = Done (True, m)) logs ms" by blast
  let ?bs = "bundle_messages (len_query_executed ?pb) ms (bb_max_pubsub_msg_size s)"
  let ?enc = "\<lambda>b. enc_worker_logs_msg ?pb (worker_logs_msg_from_queries b)"
  have "base_publish_worker_logs L now s logs = Done (fold (\<lambda>b s. base_publish L now s worker_logs_topic (?enc b)) ?bs s)"
    using ms(1) by (simp add: base_publish_worker_logs_def base_sign_def [abs_def] Let_def del: run_bind_eq_Done)
  moreover note publish_fold [OF assms(2), of now ?enc ?bs]
  moreover note concat = bundle_messages_correct(1) [of "len_query_executed ?pb" ms "bb_max_pubsub_msg_size s"]
  moreover have "set b \<subseteq> {m. \<exists>l\<in>set logs. base_sign L s (query_executed_signed ?pb) l = Done m}" if "b \<in> set ?bs" for b
  proof -
    have "set b \<subseteq> set (concat ?bs)" using that by auto
    then show ?thesis using concat sign_all_set [OF ms(1)] by (auto simp: base_sign_def)
  qed
  ultimately show ?thesis using ms(2) by blast
qed

theorem base_worker_logs_published:
  assumes "key_of_peer (l_crypto L) (bb_keypair s) peer" and "subscribed L s worker_logs_topic"
    and "logs_codec (l_protobuf L) {m. \<exists>l\<in>set logs. base_sign L s (query_executed_signed (l_protobuf L)) l = Done m}"
  shows "\<exists>s' signed_logs calls. base_publish_worker_logs L now s logs = Done s' \<and>
    list_all2 (\<lambda>l m. m\<lparr>qe_signature := []\<rparr> = l\<lparr>qe_signature := []\<rparr> \<and>
       verify_signature (l_crypto L) (query_executed_signed (l_protobuf L)) peer m = Done (True, m)) logs signed_logs \<and>
    ps_inner (base_gossip s') = ps_inner (base_gossip s) @ calls \<and>
    received_logs (l_protobuf L) peer calls =
      filter (\<lambda>m. len_query_executed (l_protobuf L) m \<le> bb_max_pubsub_msg_size s) signed_logs"
proof -
  from publish_logs_bundles [OF assms(1,2), of now logs] obtain s' sl bs where
    r: "base_publish_worker_logs L now s logs = Done s'"
      "list_all2 (\<lambda>l m. m\<lparr>qe_signature := []\<rparr> = l\<lparr>qe_signature := []\<rparr> \<and>
       verify_signature (l_crypto L) (query_executed_signed (l_protobuf L)) peer m = Done (True, m)) logs sl"
      "ps_inner (base_gossip s') = ps_inner (base_gossip s) @
      map (\<lambda>b. GsPublish (sha256_topic (l_gossip L) worker_logs_topic)
                 (enc_worker_logs_msg (l_protobuf L) (worker_logs_msg_from_queries b))) bs"
      "concat bs = filter (\<lambda>m. len_query_executed (l_protobuf L) m \<le> bb_max_pubsub_msg_size s) sl"
    and sub: "\<forall>b\<in>set bs. set b \<subseteq> {m. \<exists>l\<in>set logs. base_sign L s (query_executed_signed (l_protobuf L)) l = Done m}"
    by blast
  from received_bundles [OF assms(3) sub, of peer "sha256_topic (l_gossip L) worker_logs_topic"] r(4)
  have "received_logs (l_protobuf L) peer (map (\<lambda>b. GsPublish (sha256_topic (l_gossip L) worker_logs_topic)
                 (enc_worker_logs_msg (l_protobuf L) (worker_logs_msg_from_queries b))) bs) =
      filter (\<lambda>m. len_query_executed (l_protobuf L) m \<le> bb_max_pubsub_msg_size s) sl" by (rule trans)
  with r(1-3) show ?thesis by blast
qed

text \<open>
  For the witness: a subscribed behaviour whose key belongs to the peer \<open>[0, 1]\<close>, and an encoding
  of the messages with copies of one signed log by their number.
\<close>

definition demo_sub_base ::
    "(peer_id \<Rightarrow> multiaddr set option, nat \<times> peer_id list, (query_id, peer_id) fmap, (unit + peer_id fset) list) base" where
  "demo_sub_base = base_subscribe_worker_logs demo_libs 0 demo_base"

lemma demo_sub_base_subscribed: "subscribed demo_libs demo_sub_base worker_logs_topic"
  by (simp add: subscribed_def demo_sub_base_def base_subscribe_worker_logs_def on_pubsub_frame)
     (simp add: demo_base_def base_new_def Let_def demo_libs_def demo_gossip_def pubsub_subscribe_def topic_state_new_def
       add_boot_node_def allow_peer_call_def wrapped_from_def pubsub_new_def)

definition demo_logs_libs ::
    "(peer_id \<Rightarrow> multiaddr set option, nat \<times> peer_id list, (query_id, peer_id) fmap, (unit + peer_id fset) list, unit) libs" where
  "demo_logs_libs = demo_libs\<lparr>l_protobuf := demo_protobuf\<lparr>
     enc_worker_logs_msg := \<lambda>m. case wl_msg m of Some (WL_QueryLogs l) \<Rightarrow> replicate (length (queries_executed l)) 0 | _ \<Rightarrow> [],
     dec_worker_logs_msg := \<lambda>b. Some (worker_logs_msg_from_queries (replicate (length b) (demo_log\<lparr>qe_signature := [0, 1, 7, 119]\<rparr>)))\<rparr>\<rparr>"

lemma demo_logs_sign:
  "base_sign demo_logs_libs demo_sub_base (query_executed_signed (l_protobuf demo_logs_libs)) demo_log =
     Done (demo_log\<lparr>qe_signature := [0, 1, 7, 119]\<rparr>)"
  by (simp add: base_sign_def demo_sub_base_def base_subscribe_worker_logs_def on_pubsub_frame sign_def)
     (simp add: demo_base_def base_new_def Let_def demo_logs_libs_def demo_libs_def query_executed_signed_def demo_crypto_def demo_protobuf_def)

lemma demo_logs_codec:
  "logs_codec (l_protobuf demo_logs_libs)
     {m. \<exists>l\<in>set [demo_log]. base_sign demo_logs_libs demo_sub_base (query_executed_signed (l_protobuf demo_logs_libs)) l = Done m}"
proof -
  have "qs = replicate (length qs) x" if "set qs \<subseteq> {x}" for qs and x :: query_executed
    using that by (metis replicate_eqI singletonD subsetD)
  then show ?thesis
    by (simp add: logs_codec_def demo_logs_sign)
       (simp add: demo_logs_libs_def worker_logs_msg_from_queries_def worker_logs_msg_from_msg_def query_logs_from_def)
qed

theorem base_worker_logs_published_witness:
  "\<exists>s' signed_logs calls. base_publish_worker_logs demo_logs_libs 0 demo_sub_base [demo_log] = Done s' \<and>
     length signed_logs = 1 \<and> received_logs (l_protobuf demo_logs_libs) (PeerId [0, 1]) calls = signed_logs"
proof -
  have key: "key_of_peer (l_crypto demo_logs_libs) (bb_keypair demo_sub_base) (PeerId [0, 1])"
    using demo_key_of_peer [of "[]" 0 1]
    by (simp add: demo_logs_libs_def demo_libs_def demo_sub_base_def base_subscribe_worker_logs_def on_pubsub_frame)
       (simp add: demo_base_def base_new_def Let_def)
  have sub: "subscribed demo_logs_libs demo_sub_base worker_logs_topic"
    using demo_sub_base_subscribed by (simp add: subscribed_def demo_logs_libs_def)
  from base_worker_logs_published [OF key sub demo_logs_codec, of 0] obtain s' sl calls where
    r: "base_publish_worker_logs demo_logs_libs 0 demo_sub_base [demo_log] = Done s'"
      "list_all2 (\<lambda>l m. m\<lparr>qe_signature := []\<rparr> = l\<lparr>qe_signature := []\<rparr> \<and>
       verify_signature (l_crypto demo_logs_libs) (query_executed_signed (l_protobuf demo_logs_libs)) (PeerId [0, 1]) m = Done (True, m)) [demo_log] sl"
      "received_logs (l_protobuf demo_logs_libs) (PeerId [0, 1]) calls =
        filter (\<lambda>m. len_query_executed (l_protobuf demo_logs_libs) m \<le> bb_max_pubsub_msg_size demo_sub_base) sl" by blast
  from r(2) obtain m where m: "sl = [m]" "m\<lparr>qe_signature := []\<rparr> = demo_log" by (auto simp: list_all2_Cons1)
  then have "qe_client_id m = qe_client_id demo_log" "qe_worker_id m = qe_worker_id demo_log" by (cases m; simp)+
  then have "filter (\<lambda>m. len_query_executed (l_protobuf demo_logs_libs) m \<le> bb_max_pubsub_msg_size demo_sub_base) sl = sl"
    by (simp add: m demo_logs_libs_def demo_protobuf_def demo_sub_base_def base_subscribe_worker_logs_def on_pubsub_frame)
       (simp add: demo_base_def base_new_def Let_def base_config_default_def max_pubsub_msg_size_def)
  with r(3) have "received_logs (l_protobuf demo_logs_libs) (PeerId [0, 1]) calls = sl" by (rule trans)
  moreover have "length sl = 1" by (simp add: m(1))
  ultimately show ?thesis using r(1) by blast
qed



end
