(* ===== verification/Task_Manager.thy ===== *)
theory Task_Manager
  imports Prelude
begin

text \<open>
  The task manager (transport/src/util/task_manager.rs): it spawns background tasks, each
  with a child of its cancellation token, and stops them, waiting at most the shutdown
  timeout, when it is dropped. Times are milliseconds.

  Tokens and the join handles of tasks belong to tokio. A child token is cancelled if it or its
  parent has been; a task is known by its number, and \<open>finish\<close> gives what tokio reports
  about it: how long after the cancellation it ends, if it does, and whether it panicked.
\<close>

section \<open>The manager\<close>

datatype runtime_flavor = CurrentThread | MultiThread

definition default_shutdown_timeout :: nat where
  "default_shutdown_timeout = 1000"

text \<open>A spawned task: its future, and whether its own child token has been cancelled.\<close>

record 'f task =
  tk_future :: 'f
  tk_child_cancelled :: bool

record 'f task_manager =
  tm_shutdown_timeout :: nat
  tm_cancel_token :: bool \<comment> \<open>the token has been cancelled\<close>
  tm_tasks :: "'f task list"

text \<open>\<open>flavor\<close> is the flavour of the current runtime, \<open>None\<close> outside of any.\<close>

definition task_manager_new :: "runtime_flavor option \<Rightarrow> nat \<Rightarrow> 'f task_manager run" where
  "task_manager_new flavor shutdown_timeout =
     (case flavor of
        Some MultiThread \<Rightarrow> Done \<lparr>tm_shutdown_timeout = shutdown_timeout, tm_cancel_token = False, tm_tasks = []\<rparr>
      | _ \<Rightarrow> Panic)"

definition task_manager_default :: "runtime_flavor option \<Rightarrow> 'f task_manager run" where
  "task_manager_default flavor = task_manager_new flavor default_shutdown_timeout"

definition task_manager_spawn :: "'f task_manager \<Rightarrow> 'f \<Rightarrow> 'f task_manager run" where
  "task_manager_spawn self future =
     (if tm_cancel_token self then Panic
      else Done (self\<lparr>tm_tasks := tm_tasks self @ [\<lparr>tk_future = future, tk_child_cancelled = False\<rparr>]\<rparr>))"

definition task_manager_cancel :: "'f task_manager \<Rightarrow> 'f task_manager" where
  "task_manager_cancel self = self\<lparr>tm_cancel_token := True\<rparr>"

definition token_cancelled :: "'f task_manager \<Rightarrow> 'f task \<Rightarrow> bool" where
  "token_cancelled self t \<longleftrightarrow> tm_cancel_token self \<or> tk_child_cancelled t"

datatype join_result = Joined | JoinError | Elapsed

text \<open>
  \<open>tokio::time::timeout\<close> on a join handle: the task is looked at first, so that a task that ends at
  the deadline is in time. The second component is the time waited.
\<close>

definition join_timeout :: "('f \<Rightarrow> (nat \<times> bool) option) \<Rightarrow> nat \<Rightarrow> 'f task \<Rightarrow> join_result \<times> nat" where
  "join_timeout finish limit t =
     (case finish (tk_future t) of
        Some (d, panicked) \<Rightarrow> if d \<le> limit then (if panicked then JoinError else Joined, d) else (Elapsed, limit)
      | None \<Rightarrow> (Elapsed, limit))"

text \<open>The tasks are joined concurrently; the result has the outcome of each and the total time waited.\<close>

definition task_manager_await_stop ::
    "('f \<Rightarrow> (nat \<times> bool) option) \<Rightarrow> 'f task_manager \<Rightarrow> 'f task_manager \<times> join_result list \<times> nat" where
  "task_manager_await_stop finish self =
     (let self = task_manager_cancel self;
          results = map (join_timeout finish (tm_shutdown_timeout self)) (tm_tasks self) in
      (self\<lparr>tm_tasks := []\<rparr>, map fst results, fold max (map snd results) 0))"

text \<open>\<open>Drop\<close>: the current thread blocks on \<open>await_stop\<close>, which needs a runtime with several threads.\<close>

definition task_manager_drop ::
    "runtime_flavor option \<Rightarrow> ('f \<Rightarrow> (nat \<times> bool) option) \<Rightarrow> 'f task_manager \<Rightarrow> (join_result list \<times> nat) run" where
  "task_manager_drop flavor finish self =
     (if flavor = Some MultiThread then Done (snd (task_manager_await_stop finish self)) else Panic)"

section \<open>Periodic tasks\<close>

text \<open>
  The driving loop of a periodic task that was spawned at time \<open>t0\<close>: it waits for the next
  tick or for the cancellation, whichever comes first; if both are ready, \<open>select!\<close> takes
  either. Ticks that are missed while the task runs are caught up (tokio's default). \<open>c\<close> is
  the time of the cancellation as far as it has happened or is due; the task may cancel its
  token while it runs. In \<open>periodic t0 iv c0 calls now c\<close> the task has been called at the times \<open>calls\<close>,
  and the loop is waiting again since \<open>now\<close>.
\<close>

definition next_tick :: "nat \<Rightarrow> nat \<Rightarrow> nat list \<Rightarrow> nat \<Rightarrow> nat" where
  "next_tick t0 iv calls now = max now (t0 + (length calls + 1) * iv)"

definition tick_allowed :: "nat option \<Rightarrow> nat \<Rightarrow> nat \<Rightarrow> bool" where
  "tick_allowed c now tick \<longleftrightarrow> (case c of None \<Rightarrow> True | Some t \<Rightarrow> tick \<le> max now t)"

inductive periodic :: "nat \<Rightarrow> nat \<Rightarrow> nat option \<Rightarrow> nat list \<Rightarrow> nat \<Rightarrow> nat option \<Rightarrow> bool" for t0 iv c0 where
  start: "periodic t0 iv c0 [] t0 c0"
| run: "periodic t0 iv c0 calls now c \<Longrightarrow> tick = next_tick t0 iv calls now \<Longrightarrow> tick_allowed c now tick \<Longrightarrow>
    tick \<le> now' \<Longrightarrow> c' = c \<or> (c = None \<and> (\<exists>t. tick \<le> t \<and> t \<le> now' \<and> c' = Some t)) \<Longrightarrow>
    periodic t0 iv c0 (calls @ [tick]) now' c'"

text \<open>The loop ends when it sees the cancellation.\<close>

definition periodic_stops :: "nat \<Rightarrow> nat \<Rightarrow> nat list \<Rightarrow> nat \<Rightarrow> nat option \<Rightarrow> bool" where
  "periodic_stops t0 iv calls now c \<longleftrightarrow> (case c of None \<Rightarrow> False | Some t \<Rightarrow> max now t \<le> next_tick t0 iv calls now)"

text \<open>\<open>interval_at\<close> panics on a period of zero. The future is the driving loop above.\<close>

definition task_manager_spawn_periodic ::
    "'f task_manager \<Rightarrow> (nat \<Rightarrow> nat \<Rightarrow> 'f) \<Rightarrow> nat \<Rightarrow> nat \<Rightarrow> 'f task_manager run" where
  "task_manager_spawn_periodic self driving_loop now interval =
     (if interval = 0 then Panic else task_manager_spawn self (driving_loop now interval))"

lemma periodic_times:
  assumes "periodic t0 iv c0 calls now c"
  shows "\<forall>k < length calls. t0 + Suc k * iv \<le> calls ! k \<and> calls ! k \<le> now" "sorted calls"
  using assms
proof induction
  case (run calls now c tick now' c')
  { case 1
    show ?case using run by (auto simp: nth_append less_Suc_eq next_tick_def) }
  { case 2
    have "\<forall>x\<in>set calls. x \<le> now" using run.IH(1) by (auto simp: in_set_conv_nth)
    then have "\<forall>x\<in>set calls. x \<le> tick" using run.hyps(2) by (auto simp: next_tick_def le_max_iff_disj)
    then show ?case using run by (simp add: sorted_append) }
qed simp_all

text \<open>
  A call that starts after the cancellation has happened is one whose tick was due when the
  loop looked: at most the calls that were missed while the task was running. In particular
  a cancellation before the first tick is due prevents all calls.
\<close>

lemma periodic_cancelled_early:
  assumes "periodic t0 iv (Some t) calls now c" and "t < t0 + iv" and "0 < iv"
  shows "calls = []"
  using assms(1)
proof cases
  case (run calls0 now0 c1 tick)
  have "False" if "periodic t0 iv (Some t) xs n c2" "tick_allowed c2 n (next_tick t0 iv xs n)" for xs n c2
    using that
  proof (induction xs n c2 rule: periodic.induct)
    case start
    with assms(2,3) show ?case by (auto simp: tick_allowed_def next_tick_def)
  qed auto
  with run show ?thesis by blast
qed simp

lemma join_timeout_le: "snd (join_timeout finish limit t) \<le> limit"
  by (simp add: join_timeout_def split: option.split prod.split)

lemma fold_max_le: "\<forall>x\<in>set xs. x \<le> n \<Longrightarrow> m \<le> n \<Longrightarrow> fold max xs (m :: nat) \<le> n"
  by (induction xs arbitrary: m) auto

section \<open>Properties\<close>



end
