(* ===== verification/Actor.thy ===== *)
theory Actor
  imports Request_Client Base Task_Manager
begin

text \<open>
  What the transports of the actors share. A transport owns the swarm with the actor's
  behaviour and the receiving ends of the queues; the application holds a handle with the
  sending ends, and the task manager whose one task runs the transport. Each transport
  loops over a \<open>select!\<close> of its token, the next event of the swarm and the messages of its queues.

  The swarm belongs to libp2p: \<open>sw b b' e\<close> says that, starting with the behaviour \<open>b\<close>, it may
  produce its next event \<open>e\<close> and leave the behaviour as \<open>b'\<close>.
\<close>

section \<open>Events of the swarm\<close>

datatype 'ev swarm_out = Behaviour 'ev | OtherSwarmOut

text \<open>
  \<open>on_swarm_event\<close> of every transport: events of the behaviour go to the events queue, which
  drops them if it is full; libp2p's own metrics are not modelled.
\<close>

definition forward_event ::
    "('ch, 'ev) mpsc \<Rightarrow> 'ch queue \<Rightarrow> metrics \<Rightarrow> 'ev swarm_out \<Rightarrow> 'ch queue \<times> metrics" where
  "forward_event mp q m ev = (case ev of Behaviour e \<Rightarrow> queue_send_lossy mp q m e | OtherSwarmOut \<Rightarrow> (q, m))"

text \<open>The handle's task manager with the task that runs the transport.\<close>

definition spawn_transport :: "runtime_flavor option \<Rightarrow> nat \<Rightarrow> unit task_manager run" where
  "spawn_transport flavor shutdown_timeout =
     run_bind (task_manager_new flavor shutdown_timeout) (\<lambda>tm. task_manager_spawn tm ())"

section \<open>Messages from the network\<close>

text \<open>
  What an actor does with a gossipsub message that its pub-sub behaviour has accepted: the base
  behaviour decodes it, and the actor's \<open>on_inner_event\<close> (here \<open>h\<close>) handles the resulting events.
\<close>

fun feed :: "('s \<Rightarrow> 'e \<Rightarrow> ('s \<times> 'o list) run) \<Rightarrow> 's \<Rightarrow> ('e, 'cmd) to_swarm list \<Rightarrow> ('s \<times> 'o list) run" where
  "feed h s [] = Done (s, [])"
| "feed h s (c # cs) =
     run_bind (case c of GenerateEvent e \<Rightarrow> h s e | _ \<Rightarrow> Done (s, [])) (\<lambda>(s, out).
       run_bind (feed h s cs) (\<lambda>(s, out'). Done (s, out @ out')))"

definition receive ::
    "('lru, 'fm, 'bm, 'ns, 'err) libs \<Rightarrow> ('s \<Rightarrow> base_event \<Rightarrow> ('s \<times> 'o list) run) \<Rightarrow> 's \<Rightarrow> pubsub_msg \<Rightarrow> ('s \<times> 'o list) run" where
  "receive L h s msg = run_bind (base_on_pubsub_event L msg :: unit base_out run) (feed h s)"

fun receive_all ::
    "('lru, 'fm, 'bm, 'ns, 'err) libs \<Rightarrow> ('s \<Rightarrow> base_event \<Rightarrow> ('s \<times> 'o list) run) \<Rightarrow> 's \<Rightarrow> pubsub_msg list \<Rightarrow> ('s \<times> 'o list) run" where
  "receive_all L h s [] = Done (s, [])"
| "receive_all L h s (msg # msgs) =
     run_bind (receive L h s msg) (\<lambda>(s, out). run_bind (receive_all L h s msgs) (\<lambda>(s, out'). Done (s, out @ out')))"

text \<open>The messages that the gossipsub calls of \<open>peer\<close> deliver to the subscribers of \<open>topic\<close>.\<close>

definition published :: "gossip \<Rightarrow> peer_id \<Rightarrow> string \<Rightarrow> gossip_call list \<Rightarrow> pubsub_msg list" where
  "published g peer topic = List.map_filter (\<lambda>c. case c of
     GsPublish h data \<Rightarrow> if h = sha256_topic g topic then Some \<lparr>pm_peer_id = peer, pm_topic = topic, pm_data = data\<rparr> else None
   | _ \<Rightarrow> None)"

lemma published_map:
  "published g peer topic (map (\<lambda>b. GsPublish (sha256_topic g topic) (f b)) bs) =
     map (\<lambda>b. \<lparr>pm_peer_id = peer, pm_topic = topic, pm_data = f b\<rparr>) bs"
  by (induction bs) (simp_all add: published_def List.map_filter_simps)

lemma feed_event [simp]: "feed h s [GenerateEvent e] = h s e"
  by (cases "h s e") auto

text \<open>An accepted message on the ping topic, with a peer ID that the signature check can slice.\<close>

lemma receive_ping:
  assumes "pm_topic msg = ping_topic" and "2 \<le> length (to_bytes (pm_peer_id msg))"
  shows "receive L h s msg =
    (case dec_ping (l_protobuf L) (pm_data msg) of
       Some p \<Rightarrow> if verify_signature (l_crypto L) (ping_signed (l_protobuf L)) (pm_peer_id msg) p = Done (True, p)
                 then h s (EvPing (pm_peer_id msg) p) else Done (s, [])
     | None \<Rightarrow> Done (s, []))"
  using assms
  by (simp add: receive_def base_on_pubsub_event_def decode_ping_def ping_sig.verify_signature_eq
      del: feed.simps(2) split: option.split)

lemma receive_worker_logs:
  assumes "pm_topic msg = worker_logs_topic"
    and "decode_worker_logs_msg (l_protobuf L) (pm_peer_id msg) (pm_data msg) = Some ev"
  shows "receive L h s msg = h s ev"
  using assms by (simp add: receive_def base_on_pubsub_event_def del: feed.simps(2))

end
