(* ===== verification/Transport_Loop.thy ===== *)
theory Transport_Loop
  imports Actor "HOL-Library.Sublist" "HOL-Library.Multiset"
begin

text \<open>
  What the transports of the actors guarantee to the application. The application and the task of the
  transport run side by side: the application submits messages to the queues of the handle and takes events
  from the events queue, while the task takes any branch of its \<open>select!\<close> that is ready. A history of both is a sequence of
  actions, in any order that the runtime chooses; each operation on a queue is one action (Queue looks at the
  steps inside it).

  The interface is the locale \<open>transport_loop\<close>: every action conserves the messages and the events, and changes the behaviour as
  its handler for a message, or the swarm, does. The actors interpret it on their own transports.
\<close>

section \<open>Actions\<close>

text \<open>
  \<open>Submitted m ok\<close>: a method of the handle was called, and the queue took the message (\<open>ok\<close>) or was full.
  \<open>Served m es\<close>: the task received a message and handled it, offering the events \<open>es\<close> to the events queue.
  \<open>FromSwarm ev\<close>: the task took the next event of the swarm. \<open>Received e\<close>: the application took an event.
  \<open>Stopped\<close>: the task left its loop.
\<close>

datatype ('m, 'e) act =
    Submitted 'm bool
  | Served 'm "'e list"
  | FromSwarm "'e swarm_out"
  | Received 'e
  | Stopped

definition submitted :: "('m, 'e) act list \<Rightarrow> 'm list" where
  "submitted = List.map_filter (\<lambda>a. case a of Submitted m ok \<Rightarrow> if ok then Some m else None | _ \<Rightarrow> None)"

definition served :: "('m, 'e) act list \<Rightarrow> 'm list" where
  "served = List.map_filter (\<lambda>a. case a of Served m es \<Rightarrow> Some m | _ \<Rightarrow> None)"

definition offered :: "('m, 'e) act list \<Rightarrow> 'e list" where
  "offered as = concat (map (\<lambda>a. case a of Served m es \<Rightarrow> es | FromSwarm (Behaviour e) \<Rightarrow> [e] | _ \<Rightarrow> []) as)"

definition received :: "('m, 'e) act list \<Rightarrow> 'e list" where
  "received = List.map_filter (\<lambda>a. case a of Received e \<Rightarrow> Some e | _ \<Rightarrow> None)"

lemma map_filter_append [simp]: "List.map_filter f (xs @ ys) = List.map_filter f xs @ List.map_filter f ys"
  by (simp add: List.map_filter_def)

lemma subseq_mset: "subseq xs ys \<Longrightarrow> mset xs \<subseteq># mset ys"
proof (induction rule: list_emb.induct)
  case (list_emb_Cons xs ys y)
  then show ?case by (metis add_mset_add_single mset.simps(2) mset_subset_eq_add_left subset_mset.order_trans)
qed auto

lemma msubset_eq_of_size:
  assumes "A \<subseteq># B" and "size A = size B"
  shows "A = B"
  using assms mset_subset_size [of A B] subset_mset.le_neq_trans [of A B] by auto

lemma subseq_set: "subseq xs ys \<Longrightarrow> set xs \<subseteq> set ys"
  using set_mset_mono [OF subseq_mset, of xs ys] by simp

lemma subseq_map_filter: "subseq xs ys \<Longrightarrow> subseq (List.map_filter f xs) (List.map_filter f ys)"
  by (induction rule: list_emb.induct) (auto simp: List.map_filter_simps split: option.split)

lemma acts_append [simp]:
  "submitted (as @ bs) = submitted as @ submitted bs" "served (as @ bs) = served as @ served bs"
  "offered (as @ bs) = offered as @ offered bs" "received (as @ bs) = received as @ received bs"
  by (simp_all add: submitted_def served_def offered_def received_def)

lemma acts_Nil [simp]: "submitted [] = []" "served [] = []" "offered [] = []" "received [] = []"
  by (simp_all add: submitted_def served_def offered_def received_def List.map_filter_simps)

lemma acts_single [simp]:
  "submitted [Submitted m ok] = (if ok then [m] else [])" "submitted [Served m es] = []" "submitted [FromSwarm ev] = []"
  "submitted [Received e] = []" "submitted [Stopped] = []"
  "served [Submitted m ok] = []" "served [Served m es] = [m]" "served [FromSwarm ev] = []" "served [Received e] = []" "served [Stopped] = []"
  "offered [Submitted m ok] = []" "offered [Served m es] = es" "offered [FromSwarm ev] = (case ev of Behaviour e \<Rightarrow> [e] | OtherSwarmOut \<Rightarrow> [])"
  "offered [Received e] = []" "offered [Stopped] = []"
  "received [Submitted m ok] = []" "received [Served m es] = []" "received [FromSwarm ev] = []" "received [Received e] = [e]"
  "received [Stopped] = []"
  by (simp_all add: submitted_def served_def offered_def received_def List.map_filter_simps)

text \<open>The messages of one queue, in order.\<close>

abbreviation on_queue :: "('m \<Rightarrow> string) \<Rightarrow> string \<Rightarrow> 'm list \<Rightarrow> 'm list" where
  "on_queue queue n \<equiv> filter (\<lambda>m. queue m = n)"

lemma Done_eq_run_bind [simp]: "Done y = run_bind m f \<longleftrightarrow> (\<exists>x. m = Done x \<and> f x = Done y)"
  by (cases m) auto

section \<open>Histories\<close>

inductive trace :: "('t \<Rightarrow> 'a \<Rightarrow> 't \<Rightarrow> bool) \<Rightarrow> 't \<Rightarrow> 'a list \<Rightarrow> 't \<Rightarrow> bool" for step where
  start: "trace step t [] t"
| act: "trace step t as t1 \<Longrightarrow> step t1 a t' \<Longrightarrow> trace step t (as @ [a]) t'"

lemma trace_invariant:
  assumes "trace step t as t'" and "I t" and "\<And>t a t'. step t a t' \<Longrightarrow> I t \<Longrightarrow> I t'"
  shows "I t'"
  using assms by (induction rule: trace.induct) blast+

text \<open>
  The behaviour alone, without queues: it handles messages at once and is otherwise driven by the swarm \<open>sw\<close>.
  \<open>handle m b b' es\<close> says that handling \<open>m\<close> may turn \<open>b\<close> into \<open>b'\<close> and report the events \<open>es\<close>.
\<close>

definition behaves ::
    "('m \<Rightarrow> 'b \<Rightarrow> 'b \<Rightarrow> 'e list \<Rightarrow> bool) \<Rightarrow> ('b \<Rightarrow> 'b \<Rightarrow> 'e swarm_out \<Rightarrow> bool) \<Rightarrow> 'b \<Rightarrow> ('m, 'e) act \<Rightarrow> 'b \<Rightarrow> bool" where
  "behaves handle sw b a b' =
     (case a of Served m es \<Rightarrow> handle m b b' es | FromSwarm ev \<Rightarrow> sw b b' ev | _ \<Rightarrow> b' = b)"

lemma behaves_simps [simp]:
  "behaves handle sw b (Submitted m ok) b' \<longleftrightarrow> b' = b" "behaves handle sw b (Received e) b' \<longleftrightarrow> b' = b"
  "behaves handle sw b (Served m es) b' \<longleftrightarrow> handle m b b' es" "behaves handle sw b (FromSwarm ev) b' \<longleftrightarrow> sw b b' ev"
  "behaves handle sw b Stopped b' \<longleftrightarrow> b' = b"
  by (simp_all add: behaves_def)

section \<open>The contract of a transport\<close>

text \<open>
  \<open>queue m\<close> is the queue for the message \<open>m\<close>, \<open>queued t n\<close> the messages waiting in queue \<open>n\<close>, \<open>events t\<close> the events waiting for the application,
  \<open>drops t\<close> the counter of dropped events. \<open>laws\<close> is what the transport relies on (the channels), \<open>bounded t\<close> says that no queue is over its size.
\<close>

definition conserved :: "('m, 'e) act list \<Rightarrow> ('m \<Rightarrow> string) \<Rightarrow> (string \<Rightarrow> 'm list) \<Rightarrow> (string \<Rightarrow> 'm list) \<Rightarrow> bool" where
  "conserved as queue before after \<longleftrightarrow>
     (\<forall>n. on_queue queue n (served as) @ after n = before n @ on_queue queue n (submitted as))"

definition events_conserved :: "('m, 'e) act list \<Rightarrow> 'e list \<times> u64 \<Rightarrow> 'e list \<times> u64 \<Rightarrow> bool" where
  "events_conserved as before after \<longleftrightarrow>
     subseq (received as @ fst after) (fst before @ offered as) \<and>
     snd after + of_nat (length (received as @ fst after)) = snd before + of_nat (length (fst before @ offered as))"

lemma conserved_append:
  assumes "conserved as queue q0 q1" and "conserved bs queue q1 q2"
  shows "conserved (as @ bs) queue q0 q2"
  unfolding conserved_def
proof
  fix n
  let ?f = "on_queue queue n"
  from assms have "?f (served as) @ q1 n = q0 n @ ?f (submitted as)" "?f (served bs) @ q2 n = q1 n @ ?f (submitted bs)"
    by (simp_all add: conserved_def)
  then show "?f (served (as @ bs)) @ q2 n = q0 n @ ?f (submitted (as @ bs))" by (metis acts_append(1,2) append.assoc filter_append)
qed

lemma events_conserved_append:
  assumes "events_conserved as q0 q1" and "events_conserved bs q1 q2"
  shows "events_conserved (as @ bs) q0 q2"
proof -
  from assms have s: "subseq (received as @ fst q1) (fst q0 @ offered as)" "subseq (received bs @ fst q2) (fst q1 @ offered bs)"
    and c: "snd q1 + of_nat (length (received as @ fst q1)) = snd q0 + of_nat (length (fst q0 @ offered as))"
      "snd q2 + of_nat (length (received bs @ fst q2)) = snd q1 + of_nat (length (fst q1 @ offered bs))"
    by (simp_all add: events_conserved_def)
  have "subseq (received as @ received bs @ fst q2) (received as @ fst q1 @ offered bs)"
    using s(2) by (simp only: subseq_append')
  moreover have "subseq ((received as @ fst q1) @ offered bs) ((fst q0 @ offered as) @ offered bs)"
    using s(1) by (rule list_emb_append_mono) simp
  ultimately have seq: "subseq (received as @ received bs @ fst q2) (fst q0 @ offered as @ offered bs)"
    unfolding append.assoc by (rule subseq_order.order_trans)
  have "snd q2 + of_nat (length (received as @ received bs @ fst q2)) =
      (snd q2 + of_nat (length (received bs @ fst q2))) + (of_nat (length (received as)) :: u64)" by simp
  also have "\<dots> = (snd q1 + of_nat (length (received as @ fst q1))) + of_nat (length (offered bs))" unfolding c(2) by simp
  also have "\<dots> = snd q0 + of_nat (length (fst q0 @ offered as @ offered bs))" unfolding c(1) by simp
  finally show ?thesis using seq by (simp only: events_conserved_def acts_append append.assoc simp_thms)
qed

text \<open>What a step keeps: no message and no event is lost, and the queues stay within their sizes.\<close>

definition step_keeps ::
    "('m \<Rightarrow> string) \<Rightarrow> ('t \<Rightarrow> string \<Rightarrow> 'm list) \<Rightarrow> ('t \<Rightarrow> 'e list) \<Rightarrow> ('t \<Rightarrow> u64) \<Rightarrow> ('t \<Rightarrow> bool) \<Rightarrow> 't \<Rightarrow> ('m, 'e) act \<Rightarrow> 't \<Rightarrow> bool" where
  "step_keeps queue queued events drops bounded t a t' \<longleftrightarrow>
     conserved [a] queue (queued t) (queued t') \<and> events_conserved [a] (events t, drops t) (events t', drops t') \<and>
     (bounded t \<longrightarrow> bounded t')"

locale transport_loop =
  fixes step :: "'t \<Rightarrow> ('m, 'e) act \<Rightarrow> 't \<Rightarrow> bool"
    and queue :: "'m \<Rightarrow> string"
    and queued :: "'t \<Rightarrow> string \<Rightarrow> 'm list"
    and events :: "'t \<Rightarrow> 'e list"
    and drops :: "'t \<Rightarrow> u64"
    and swarm :: "'t \<Rightarrow> 'b"
    and bounded :: "'t \<Rightarrow> bool"
    and handle :: "'m \<Rightarrow> 'b \<Rightarrow> 'b \<Rightarrow> 'e list \<Rightarrow> bool"
    and sw :: "'b \<Rightarrow> 'b \<Rightarrow> 'e swarm_out \<Rightarrow> bool"
    and laws :: bool
  assumes step_keeps: "laws \<Longrightarrow> step t a t' \<Longrightarrow> step_keeps queue queued events drops bounded t a t'"
    and step_behaviour: "step t a t' \<Longrightarrow> behaves handle sw (swarm t) a (swarm t')"
begin

lemmas step_kept = step_keeps [unfolded step_keeps_def]

lemma trace_messages: "trace step t as t' \<Longrightarrow> laws \<Longrightarrow> conserved as queue (queued t) (queued t')"
proof (induction rule: trace.induct)
  case (act t as t1 a t')
  then show ?case using conserved_append step_kept by fast
qed (simp add: conserved_def)

lemma trace_events: "trace step t as t' \<Longrightarrow> laws \<Longrightarrow> events_conserved as (events t, drops t) (events t', drops t')"
proof (induction rule: trace.induct)
  case (act t as t1 a t')
  then show ?case using events_conserved_append step_kept by fast
qed (simp add: events_conserved_def)

lemma trace_behaviour: "trace step t as t' \<Longrightarrow> trace (behaves handle sw) (swarm t) as (swarm t')"
  by (induction rule: trace.induct) (auto intro: trace.intros step_behaviour)

lemma trace_bounded: "trace step t as t' \<Longrightarrow> laws \<Longrightarrow> bounded t \<Longrightarrow> bounded t'"
  by (erule trace_invariant) (auto dest: step_kept)

text \<open>Starting with empty queues: what is served and what is received are parts of what was submitted and offered.\<close>

lemma delivery:
  assumes "trace step t as t'" and "laws" and "bounded t" and "\<And>n. queued t n = []" and "events t = []"
  shows "\<forall>n. on_queue queue n (served as) @ queued t' n = on_queue queue n (submitted as)"
    and "subseq (received as @ events t') (offered as)"
    and "drops t' = drops t + of_nat (length (offered as) - length (received as @ events t'))"
    and "trace (behaves handle sw) (swarm t) as (swarm t')"
    and "bounded t'"
proof -
  note c = trace_messages [OF assms(1,2)] and e = trace_events [OF assms(1,2)]
  from c show "\<forall>n. on_queue queue n (served as) @ queued t' n = on_queue queue n (submitted as)"
    by (simp add: conserved_def assms(4))
  from e show s: "subseq (received as @ events t') (offered as)" by (simp add: events_conserved_def assms(5))
  have "drops t' + of_nat (length (received as @ events t')) = drops t + of_nat (length (offered as))"
    using e by (simp add: events_conserved_def assms(5))
  with list_emb_length [OF s] show "drops t' = drops t + of_nat (length (offered as) - length (received as @ events t'))"
    by (simp add: of_nat_diff algebra_simps)
  show "trace (behaves handle sw) (swarm t) as (swarm t')" by (rule trace_behaviour [OF assms(1)])
  show "bounded t'" by (rule trace_bounded [OF assms(1-3)])
qed

end

section \<open>The operations on the queues\<close>

text \<open>What a queue does in terms of its messages, and that it keeps its name and its size.\<close>

definition fits :: "('ch \<Rightarrow> 'a list) \<Rightarrow> ('ch \<Rightarrow> nat) \<Rightarrow> nat \<Rightarrow> string \<Rightarrow> 'ch queue \<Rightarrow> bool" where
  "fits items cap sz name q \<longleftrightarrow> q_name q = name \<and> cap (q_chan q) = sz \<and> length (items (q_chan q)) \<le> sz"

lemma new_queue_fits:
  assumes "mpsc_laws mp items cap"
  shows "fits items cap sz name (new_queue mp sz name)" "items (q_chan (new_queue mp sz name)) = []"
  using assms by (simp_all add: fits_def new_queue_def mpsc_laws_def)

lemma queue_try_send_items:
  assumes "mpsc_laws mp items cap" and "queue_try_send mp q m x = (q', m', r)"
  shows "items (q_chan q') = items (q_chan q) @ (if r = Inr () then [x] else [])"
    and "fits items cap sz name q \<Longrightarrow> fits items cap sz name q'" and "dropped m' = dropped m" and "q_name q' = q_name q"
proof -
  obtain ch e where ch: "ch_try_send mp (q_chan q) x = (ch, e)" by fastforce
  have "items ch = items (q_chan q) @ (if e = None then [x] else []) \<and> cap ch = cap (q_chan q) \<and>
      (e = None \<longrightarrow> length (items (q_chan q)) < cap (q_chan q))"
    using assms(1) ch unfolding mpsc_laws_def by (cases e) auto
  with assms(2) ch show "items (q_chan q') = items (q_chan q) @ (if r = Inr () then [x] else [])"
    and "fits items cap sz name q \<Longrightarrow> fits items cap sz name q'" and "dropped m' = dropped m" and "q_name q' = q_name q"
    by (auto simp: queue_try_send_def fits_def inc_queue_size_def split: option.splits)
qed

lemma queue_recv_items:
  assumes "mpsc_laws mp items cap" and "queue_recv mp q m = (q', m', Ready (Some x))"
  shows "items (q_chan q) = x # items (q_chan q')"
    and "fits items cap sz name q \<Longrightarrow> fits items cap sz name q'" and "dropped m' = dropped m" and "q_name q' = q_name q"
proof -
  from assms(2) obtain ch where ch: "ch_recv mp (q_chan q) = (ch, Ready (Some x))" and q': "q' = q\<lparr>q_chan := ch\<rparr>"
    and m': "m' = dec_queue_size (q_name q) m"
    by (auto simp: queue_recv_def split: prod.splits poll.splits option.splits)
  have "items (q_chan q) = x # items ch \<and> cap ch = cap (q_chan q)" using assms(1) ch unfolding mpsc_laws_def by blast
  then show "items (q_chan q) = x # items (q_chan q')"
    and "fits items cap sz name q \<Longrightarrow> fits items cap sz name q'" and "dropped m' = dropped m" and "q_name q' = q_name q"
    by (simp_all add: q' m' fits_def dec_queue_size_def)
qed

lemma subseq_append_le: "subseq xs (xs @ ys)"
  by (rule list_emb_prefix) simp

lemma queue_send_lossy_items:
  assumes "mpsc_laws mp items cap" and "queue_send_lossy mp q m x = (q', m')"
  shows "events_conserved [FromSwarm (Behaviour x)] (items (q_chan q), dropped m (q_name q)) (items (q_chan q'), dropped m' (q_name q))"
    and "fits items cap sz name q \<Longrightarrow> fits items cap sz name q'" and "q_name q' = q_name q"
proof -
  obtain q1 m1 r where s: "queue_try_send mp q m x = (q1, m1, r)" by (metis prod_cases3)
  note i = queue_try_send_items [OF assms(1) s]
  from assms(2) s have q': "q' = q1" "m' = (case r of Inr _ \<Rightarrow> m1 | Inl _ \<Rightarrow> inc_dropped (q_name q1) m1)"
    by (auto simp: queue_send_lossy_def split: sum.splits)
  show "events_conserved [FromSwarm (Behaviour x)] (items (q_chan q), dropped m (q_name q)) (items (q_chan q'), dropped m' (q_name q))"
    using i(1,3,4) by (cases r) (simp_all add: q' events_conserved_def inc_dropped_def subseq_append_le)
  show "fits items cap sz name q \<Longrightarrow> fits items cap sz name q'" and "q_name q' = q_name q" using i by (simp_all add: q')
qed

lemma forward_event_items:
  assumes "mpsc_laws mp items cap" and "forward_event mp q m ev = (q', m')"
  shows "events_conserved [FromSwarm ev] (items (q_chan q), dropped m (q_name q)) (items (q_chan q'), dropped m' (q_name q))"
    and "fits items cap sz name q \<Longrightarrow> fits items cap sz name q'" and "q_name q' = q_name q"
proof -
  consider x where "ev = Behaviour x" "queue_send_lossy mp q m x = (q', m')" | "ev = OtherSwarmOut" "q' = q" "m' = m"
    using assms(2) by (cases ev) (auto simp: forward_event_def)
  then have "events_conserved [FromSwarm ev] (items (q_chan q), dropped m (q_name q)) (items (q_chan q'), dropped m' (q_name q)) \<and>
      (fits items cap sz name q \<longrightarrow> fits items cap sz name q') \<and> q_name q' = q_name q"
  proof cases
    case 1
    then show ?thesis using queue_send_lossy_items [OF assms(1)] by blast
  qed (simp add: events_conserved_def)
  then show "events_conserved [FromSwarm ev] (items (q_chan q), dropped m (q_name q)) (items (q_chan q'), dropped m' (q_name q))"
    and "fits items cap sz name q \<Longrightarrow> fits items cap sz name q'" and "q_name q' = q_name q" by blast+
qed

section \<open>The swarm drives the behaviour\<close>

text \<open>
  What the swarm does with a wrapped behaviour, whose inner work is \<open>inner s evs s'\<close> (it may go from \<open>s\<close> to \<open>s'\<close> and produce
  the commands \<open>evs\<close>): it lets it work, at any time, and takes pending commands, in order. \<open>out\<close> are the commands taken.
\<close>

inductive drives ::
    "('s \<Rightarrow> ('ev, 'cmd) to_swarm list \<Rightarrow> 's \<Rightarrow> bool) \<Rightarrow> ('s, 'ev, 'cmd) wrapped \<Rightarrow> ('ev, 'cmd) to_swarm list \<Rightarrow> ('s, 'ev, 'cmd) wrapped \<Rightarrow> bool"
  for inner where
  nothing: "drives inner b [] b"
| work: "drives inner b out b1 \<Longrightarrow> inner (wrapper b1) evs s \<Longrightarrow>
    drives inner b out (b1\<lparr>wrapper := s, pending_events := pending_events b1 @ evs\<rparr>)"
| take: "drives inner b out b1 \<Longrightarrow> pending_events b1 = c # rest \<Longrightarrow> drives inner b (out @ [c]) (b1\<lparr>pending_events := rest\<rparr>)"

fun generated :: "('ev, 'cmd) to_swarm \<Rightarrow> 'ev option" where
  "generated (GenerateEvent e) = Some e"
| "generated _ = None"

text \<open>
  Documented behaviour of libp2p's swarm: it yields an event of the behaviour exactly when it has taken the
  command that generates it.
\<close>

definition swarm_drives ::
    "('s \<Rightarrow> ('ev, 'cmd) to_swarm list \<Rightarrow> 's \<Rightarrow> bool) \<Rightarrow> (('s, 'ev, 'cmd) wrapped \<Rightarrow> ('s, 'ev, 'cmd) wrapped \<Rightarrow> 'ev swarm_out \<Rightarrow> bool) \<Rightarrow> bool" where
  "swarm_drives inner sw \<longleftrightarrow>
     (\<forall>b b' ev. sw b b' ev \<longrightarrow> (\<exists>out. drives inner b out b' \<and>
        List.map_filter generated out = (case ev of Behaviour e \<Rightarrow> [e] | OtherSwarmOut \<Rightarrow> [])))"

lemma swarm_drivesE:
  assumes "swarm_drives inner sw" and "sw b b' ev"
  obtains out where "drives inner b out b'" "List.map_filter generated out = (case ev of Behaviour e \<Rightarrow> [e] | OtherSwarmOut \<Rightarrow> [])"
  using assms unfolding swarm_drives_def by blast

text \<open>A call of \<open>Wrapped::poll\<close> is a way to drive the behaviour: it works in rounds, then one command is taken or none is left.\<close>

lemma wrapped_update_all [simp]:
  fixes b b' :: "('s, 'ev, 'cmd) wrapped"
  shows "b\<lparr>wrapper := wrapper b', pending_events := pending_events b'\<rparr> = b'" "b\<lparr>wrapper := wrapper b\<rparr> = b"
  by (cases b; cases b'; simp)+

lemma drives_rounds:
  assumes "rounds W s evs s'" and "drives (\<lambda>s evs s'. round W s evs s' \<or> evs = [] \<and> idle W s s') b out b1" and "wrapper b1 = s"
  shows "drives (\<lambda>s evs s'. round W s evs s' \<or> evs = [] \<and> idle W s s') b out (b1\<lparr>wrapper := s', pending_events := pending_events b1 @ evs\<rparr>)"
  using assms
proof (induction arbitrary: b1 rule: rounds.induct)
  case (more s evs s1 evs' s')
  from drives.work [OF more.prems(1), of evs s1] more.hyps(1) more.prems(2)
  have "drives (\<lambda>s evs s'. round W s evs s' \<or> evs = [] \<and> idle W s s') b out (b1\<lparr>wrapper := s1, pending_events := pending_events b1 @ evs\<rparr>)" by simp
  from more.IH [OF this] show ?case by simp
qed auto

lemma wrapped_poll_drives:
  assumes "wrapped_poll W b = Some (Done (b', r))"
  shows "drives (\<lambda>s evs s'. round W s evs s' \<or> evs = [] \<and> idle W s s') b (case r of Ready c \<Rightarrow> [c] | Pending \<Rightarrow> []) b'"
proof (cases r)
  case (Ready c)
  with wrapped_poll_result [OF assms] obtain evs where
    e: "rounds W (wrapper b) evs (wrapper b')" "pending_events b @ evs = c # pending_events b'" by (auto simp: poll_result_def)
  from drives.take [OF drives_rounds [OF e(1) drives.nothing refl]] e(2) Ready show ?thesis by simp
next
  case Pending
  with wrapped_poll_result [OF assms] obtain s where
    e: "pending_events b = []" "pending_events b' = []" "rounds W (wrapper b) [] s" "idle W s (wrapper b')" by (auto simp: poll_result_def)
  have "b' = b\<lparr>wrapper := wrapper b', pending_events := [] @ []\<rparr>" using e(2) by (cases b; cases b') simp
  with drives.work [OF drives_rounds [OF e(3) drives.nothing refl], of "[]" "wrapper b'"] e(1,4) Pending show ?thesis by simp
qed

text \<open>What holds of the behaviour and the commands it has produced, however it is driven.\<close>

lemma drives_invariant:
  assumes "drives inner b out b'" and "I (wrapper b) (pending_events b)"
    and "\<And>s cs evs s'. I s cs \<Longrightarrow> inner s evs s' \<Longrightarrow> I s' (cs @ evs)"
  shows "I (wrapper b') (out @ pending_events b')"
  using assms
proof (induction rule: drives.induct)
  case (work b out b1 evs s)
  from work.prems(2) [OF work.IH [OF work.prems] work.hyps(2)] show ?case by simp
qed auto

text \<open>
  A property of events: if the behaviour generates only events with it, as long as \<open>J\<close> holds of its state, and so do the handlers of
  messages, then only such events are offered to the application.
\<close>

lemma offered_all:
  assumes "trace (behaves handle sw) b as b'" and sw: "swarm_drives inner sw"
    and init: "J (wrapper b)" "\<forall>e\<in>set (List.map_filter generated (pending_events b)). P e"
    and inner: "\<And>s evs s'. J s \<Longrightarrow> inner s evs s' \<Longrightarrow> J s' \<and> (\<forall>e\<in>set (List.map_filter generated evs). P e)"
    and handle: "\<And>m b b' es. J (wrapper b) \<Longrightarrow> handle m b b' es \<Longrightarrow>
      J (wrapper b') \<and> pending_events b' = pending_events b \<and> (\<forall>e\<in>set es. P e)"
  shows "\<forall>e\<in>set (offered as). P e"
proof -
  let ?P = "\<lambda>cs. \<forall>e\<in>set (List.map_filter generated cs). P e"
  from assms(1) init have "J (wrapper b') \<and> ?P (pending_events b') \<and> (\<forall>e\<in>set (offered as). P e)"
  proof (induction rule: trace.induct)
    case (act b as b1 a b')
    then have IH: "J (wrapper b1)" "?P (pending_events b1)" "\<forall>e\<in>set (offered as). P e" by blast+
    show ?case
    proof (cases a)
      case (Served m es)
      with act.hyps(2) handle [OF IH(1), of m b' es] IH show ?thesis by auto
    next
      case (FromSwarm ev)
      with act.hyps(2) have "sw b1 b' ev" by simp
      with sw obtain out where out: "drives inner b1 out b'"
        "List.map_filter generated out = (case ev of Behaviour e \<Rightarrow> [e] | OtherSwarmOut \<Rightarrow> [])" by (rule swarm_drivesE)
      have "J (wrapper b') \<and> ?P (out @ pending_events b')"
      proof (rule drives_invariant [OF out(1), where I = "\<lambda>s cs. J s \<and> ?P cs"])
        show "J (wrapper b1) \<and> ?P (pending_events b1)" using IH by blast
        show "J s' \<and> ?P (cs @ evs)" if "J s \<and> ?P cs" "inner s evs s'" for s cs evs s'
          using inner [of s evs s'] that by auto
      qed
      with out(2) IH FromSwarm show ?thesis by (cases ev) (auto simp: ball_Un)
    qed (use act.hyps(2) IH in auto)
  qed simp
  then show ?thesis by blast
qed

section \<open>The base behaviour behind its wrapper\<close>

text \<open>
  The work of the base behaviour: it sees an event of the swarm, handles an event of one of its parts, or is polled; its parts
  may also send commands of their own.
\<close>

inductive base_works ::
    "('lru, 'fm, 'bm, 'ns, 'err) libs \<Rightarrow> ('lru, 'fm, 'bm, 'ns) base \<Rightarrow> 'cmd base_out \<Rightarrow> ('lru, 'fm, 'bm, 'ns) base \<Rightarrow> bool"
  for L where
  swarm: "base_on_swarm_event L s ev = Done (s', evs) \<Longrightarrow> base_works L s evs s'"
| inner: "base_on_inner_event L s iev = Done (s', evs) \<Longrightarrow> base_works L s evs s'"
| polled: "base_poll L now s = Some (Done (s', r)) \<Longrightarrow> base_works L s (case r of Ready evs \<Rightarrow> evs | Pending \<Rightarrow> []) s'"
| cmds: "List.map_filter generated cmds = [] \<Longrightarrow> base_works L s cmds s"

text \<open>
  The base behaviour as the actors hold it: \<open>ps\<close> are the peers for which a probe was scheduled, \<open>taken\<close> the commands that have been
  taken from it. Together with the ones still pending they report the probes of a run of the behaviour.
\<close>

definition base_delivered ::
    "('lru, 'fm, 'bm, 'ns, 'err) libs \<Rightarrow> ('lru, 'fm, 'bm, 'ns) base \<Rightarrow> (('lru, 'fm, 'bm, 'ns) base, base_event, 'cmd) wrapped \<Rightarrow>
     peer_id list \<Rightarrow> 'cmd base_out \<Rightarrow> bool" where
  "base_delivered L b0 w ps taken \<longleftrightarrow>
     (\<exists>sw al (out :: 'cmd base_out). base_run L b0 sw ps al out (wrapper w) \<and> probed out = probed (taken @ pending_events w))"

lemma no_event_not_probed: "List.map_filter generated cmds = [] \<Longrightarrow> probed cmds = []"
proof (induction cmds)
  case (Cons c cmds)
  then show ?case by (cases c) (auto simp: List.map_filter_simps)
qed simp

lemma base_works_run:
  fixes evs out :: "'cmd base_out"
  assumes "base_works L s evs s'" and "base_run L b0 sw ps al out s"
  shows "\<exists>sw (out' :: 'cmd base_out). base_run L b0 sw ps al out' s' \<and> probed out' = probed out @ probed evs"
  using assms(1)
proof cases
  case (swarm ev)
  from base_run.swarm [OF assms(2) swarm] show ?thesis by (intro exI conjI) (assumption, simp)
next
  case (inner iev)
  from base_run.inner [OF assms(2) inner] show ?thesis by (intro exI conjI) (assumption, simp)
next
  case (polled now r)
  from base_run.polled [OF assms(2) polled(2)] polled(1) show ?thesis by (intro exI conjI) (assumption, simp)
next
  case cmds
  with assms(2) no_event_not_probed show ?thesis by (intro exI [of _ sw] exI [of _ out]) simp
qed

lemma base_delivered_drives:
  fixes taken out :: "'cmd base_out"
  assumes "base_delivered L b0 w ps taken" and "drives (base_works L) w out w'"
  shows "base_delivered L b0 w' ps (taken @ out)"
proof -
  have "\<exists>sw al (bout :: 'cmd base_out). base_run L b0 sw ps al bout (wrapper w') \<and> probed bout = probed (taken @ out @ pending_events w')"
  proof (rule drives_invariant [OF assms(2), where I = "\<lambda>s cs. \<exists>sw al (bout :: 'cmd base_out). base_run L b0 sw ps al bout s \<and> probed bout = probed (taken @ cs)"])
    show "\<exists>sw al (bout :: 'cmd base_out). base_run L b0 sw ps al bout (wrapper w) \<and> probed bout = probed (taken @ pending_events w)"
      using assms(1) by (simp add: base_delivered_def)
  next
    fix s s' and cs evs :: "'cmd base_out"
    assume "\<exists>sw al (bout :: 'cmd base_out). base_run L b0 sw ps al bout s \<and> probed bout = probed (taken @ cs)" and "base_works L s evs s'"
    then show "\<exists>sw al (bout :: 'cmd base_out). base_run L b0 sw ps al bout s' \<and> probed bout = probed (taken @ cs @ evs)"
      using base_works_run by (fastforce simp del: append_assoc simp: append_assoc [symmetric])
  qed
  then show ?thesis by (simp add: base_delivered_def)
qed

lemma base_delivered_find: "base_delivered L b0 w ps taken \<Longrightarrow> base_delivered L b0 (deref_mut (\<lambda>b. base_find_and_dial L b p) w) ps taken"
  unfolding base_delivered_def by (auto intro: base_run.find)

lemma base_delivered_probe:
  fixes taken :: "'cmd base_out"
  assumes "base_delivered L b0 w ps taken" and "base_try_probe_peer L (wrapper w) p = (b, r)"
  shows "\<exists>new. base_delivered L b0 (w\<lparr>wrapper := b\<rparr>) (ps @ new) taken \<and> (new = [] \<or> new = [p] \<and> r = Inr False)"
proof -
  from assms(1) obtain sw al and out :: "'cmd base_out" where r: "base_run L b0 sw ps al out (wrapper w)" "probed out = probed (taken @ pending_events w)"
    by (auto simp: base_delivered_def)
  from base_run.probe [OF r(1) assms(2)] r(2) show ?thesis
    by (intro exI [of _ "if r = Inr False \<and> \<not> fm_contains (l_timers L) (bb_probe_timeouts (wrapper w)) p then [p] else []"])
       (auto simp: base_delivered_def split: if_splits)
qed

text \<open>Every result of a probe belongs to its own scheduled probe.\<close>

lemma base_delivered_probes:
  fixes taken :: "'cmd base_out"
  assumes "base_delivered L b0 w ps taken" and "futures_map_laws (l_timers L) cap"
    and "fm_keys (l_timers L) (bb_probe_timeouts b0) = {}"
  shows "mset (probed taken) \<subseteq># mset ps"
proof (rule mset_subset_eqI)
  fix p
  from assms(1) obtain sw al and out :: "'cmd base_out" where r: "base_run L b0 sw ps al out (wrapper w)" "probed out = probed (taken @ pending_events w)"
    by (auto simp: base_delivered_def)
  have "count_list ps p \<ge> count_list (probed out) p" using base_run_probe_inv [OF r(1) assms(2,3)] by (simp add: probe_inv_def)
  then show "count (mset (probed taken)) p \<le> count (mset ps) p" by (simp add: r(2) count_mset)
qed

end
