(* ===== verification/Gateway.thy ===== *)
theory Gateway
  imports Transport_Loop
begin

text \<open>
  The gateway (transport/src/actors/gateway.rs): it sends queries to workers and reports
  their results, sends its logs to the logs collector, and hands on the pings of the workers.

  The behaviour wraps the base behaviour and two request clients; \<open>InnerBehaviour\<close> and its event
  type are derived code, so that the order in which the parts are polled is left open. The
  transport drives the behaviour and serves the queues of the handle.
\<close>

section \<open>The behaviour\<close>

datatype gateway_event =
    GwPing peer_id ping
  | GwQueryResult peer_id query_result

record ('lru, 'fm, 'bm, 'ns, 'cmd) gateway_inner =
  gi_base :: "(('lru, 'fm, 'bm, 'ns) base, base_event, 'cmd) wrapped"
  gi_query :: "((query, query_result, 'fm) client, query_result client_event, 'cmd) wrapped"
  gi_logs :: "((gateway_log_msg, u32, 'fm) client, u32 client_event, 'cmd) wrapped"

datatype gateway_inner_event =
    GiBase base_event
  | GiQuery "query_result client_event"
  | GiLogs "u32 client_event"

record gateway_config =
  gc_logs_collector_id :: peer_id
  gc_query_config :: client_config
  gc_logs_config :: client_config
  gc_max_query_size :: u64
  gc_max_query_result_size :: u64
  gc_max_query_log_size :: u64
  gc_queries_queue_size :: nat
  gc_logs_queue_size :: nat
  gc_events_queue_size :: nat
  gc_shutdown_timeout :: nat

definition gateway_config_new :: "peer_id \<Rightarrow> gateway_config" where
  "gateway_config_new logs_collector_id =
     \<lparr>gc_logs_collector_id = logs_collector_id, gc_query_config = client_config_default, gc_logs_config = client_config_default,
      gc_max_query_size = max_query_size, gc_max_query_result_size = max_query_result_size,
      gc_max_query_log_size = max_gateway_log_size, gc_queries_queue_size = 100, gc_logs_queue_size = 100,
      gc_events_queue_size = 100, gc_shutdown_timeout = default_shutdown_timeout\<rparr>"

record ('lru, 'fm, 'bm, 'ns, 'cmd) gateway =
  gw_inner :: "('lru, 'fm, 'bm, 'ns, 'cmd) gateway_inner"
  gw_logs_collector_id :: peer_id
  gw_query_ids :: "(req_id, string) fmap"

definition gateway_new ::
    "('lru, 'fm, 'bm, 'ns, 'err) libs \<Rightarrow> nat \<Rightarrow> ('lru, 'fm, 'bm, 'ns) base \<Rightarrow> gateway_config \<Rightarrow>
     (('lru, 'fm, 'bm, 'ns, 'cmd) gateway, gateway_event, 'cmd) wrapped" where
  "gateway_new L now base config =
     (let base = base_subscribe_pings L now base;
          base = base_allow_peer base (gc_logs_collector_id config);
          inner = \<lparr>gi_base = wrapped_from base,
                   gi_query = wrapped_from (client_new (l_timers L)
                     (proto_codec_new (gc_max_query_size config) (gc_max_query_result_size config))
                     query_protocol (gc_query_config config)),
                   gi_logs = wrapped_from (client_new (l_timers L)
                     (proto_codec_new (gc_max_query_log_size config) ack_size)
                     gateway_logs_protocol (gc_logs_config config))\<rparr> in
      wrapped_from \<lparr>gw_inner = inner, gw_logs_collector_id = gc_logs_collector_id config, gw_query_ids = fmempty\<rparr>)"

text \<open>\<open>self.inner.base.find_and_dial(peer_id)\<close>.\<close>

definition gateway_find_and_dial ::
    "('lru, 'fm, 'bm, 'ns, 'err) libs \<Rightarrow> ('lru, 'fm, 'bm, 'ns, 'cmd) gateway \<Rightarrow> peer_id \<Rightarrow> ('lru, 'fm, 'bm, 'ns, 'cmd) gateway" where
  "gateway_find_and_dial L self peer_id =
     self\<lparr>gw_inner := (gw_inner self)\<lparr>gi_base := deref_mut (\<lambda>b. base_find_and_dial L b peer_id) (gi_base (gw_inner self))\<rparr>\<rparr>"

definition gateway_on_ping :: "crypto \<Rightarrow> peer_id \<Rightarrow> ping \<Rightarrow> gateway_event option" where
  "gateway_on_ping cr peer_id p =
     (case ping_worker_id p of
        Some i \<Rightarrow> if peer_from_str cr i = Some peer_id then Some (GwPing peer_id p) else None
      | None \<Rightarrow> None)"

definition gateway_on_base_event :: "crypto \<Rightarrow> base_event \<Rightarrow> gateway_event option" where
  "gateway_on_base_event cr ev = (case ev of EvPing peer_id p \<Rightarrow> gateway_on_ping cr peer_id p | _ \<Rightarrow> None)"

text \<open>The entry of the request is removed whether or not the query ID matches.\<close>

definition gateway_on_query_result ::
    "('lru, 'fm, 'bm, 'ns, 'cmd) gateway \<Rightarrow> peer_id \<Rightarrow> query_result \<Rightarrow> req_id option \<Rightarrow>
     ('lru, 'fm, 'bm, 'ns, 'cmd) gateway \<times> gateway_event option" where
  "gateway_on_query_result self peer_id result req_id =
     (case req_id of
        None \<Rightarrow> (self, Some (GwQueryResult peer_id result))
      | Some req_id \<Rightarrow>
          let removed = fmlookup (gw_query_ids self) req_id;
              self = self\<lparr>gw_query_ids := fmdrop req_id (gw_query_ids self)\<rparr> in
          (case removed of
             Some query_id \<Rightarrow>
               if query_id = qr_query_id result then (self, Some (GwQueryResult peer_id result)) else (self, None)
           | None \<Rightarrow> (self, None)))"

definition gateway_on_query_timeout ::
    "('lru, 'fm, 'bm, 'ns, 'cmd) gateway \<Rightarrow> req_id \<Rightarrow> peer_id \<Rightarrow> ('lru, 'fm, 'bm, 'ns, 'cmd) gateway \<times> gateway_event option" where
  "gateway_on_query_timeout self req_id peer_id =
     (case fmlookup (gw_query_ids self) req_id of
        None \<Rightarrow> (self, None)
      | Some query_id \<Rightarrow>
          (self\<lparr>gw_query_ids := fmdrop req_id (gw_query_ids self)\<rparr>,
           Some (GwQueryResult peer_id (query_result_new query_id QR_Timeout))))"

definition gateway_on_query_event ::
    "('lru, 'fm, 'bm, 'ns, 'err) libs \<Rightarrow> ('lru, 'fm, 'bm, 'ns, 'cmd) gateway \<Rightarrow> query_result client_event \<Rightarrow>
     ('lru, 'fm, 'bm, 'ns, 'cmd) gateway \<times> gateway_event option" where
  "gateway_on_query_event L self ev =
     (case ev of
        Response peer_id req_id response \<Rightarrow> gateway_on_query_result self peer_id response (Some req_id)
      | Timeout peer_id req_id \<Rightarrow> gateway_on_query_timeout self req_id peer_id
      | PeerUnknown peer_id \<Rightarrow> (gateway_find_and_dial L self peer_id, None))"

definition gateway_on_logs_event ::
    "('lru, 'fm, 'bm, 'ns, 'err) libs \<Rightarrow> ('lru, 'fm, 'bm, 'ns, 'cmd) gateway \<Rightarrow> u32 client_event \<Rightarrow>
     ('lru, 'fm, 'bm, 'ns, 'cmd) gateway" where
  "gateway_on_logs_event L self ev =
     (case ev of PeerUnknown peer_id \<Rightarrow> gateway_find_and_dial L self peer_id | _ \<Rightarrow> self)"

text \<open>A query is signed before it is sent; one without an ID, or for which there is no room, is dropped.\<close>

definition gateway_send_query ::
    "('lru, 'fm, 'bm, 'ns, 'err) libs \<Rightarrow> (query, query_result, 'cmd) rr \<Rightarrow> ('lru, 'fm, 'bm, 'ns, 'cmd) gateway \<Rightarrow>
     peer_id \<Rightarrow> query \<Rightarrow> ('lru, 'fm, 'bm, 'ns, 'cmd) gateway run" where
  "gateway_send_query L rr self peer_id q =
     (case q_query_id q of
        None \<Rightarrow> Done self
      | Some query_id \<Rightarrow>
          run_bind (base_sign L (wrapper (gi_base (gw_inner self))) (query_signed (l_protobuf L)) q) (\<lambda>q.
            let w = gi_query (gw_inner self);
                (c, r) = client_try_send_request rr (wrapper w) peer_id q;
                self = self\<lparr>gw_inner := (gw_inner self)\<lparr>gi_query := w\<lparr>wrapper := c\<rparr>\<rparr>\<rparr> in
            Done (case r of
                Inr req_id \<Rightarrow> self\<lparr>gw_query_ids := fmupd req_id query_id (gw_query_ids self)\<rparr>
              | Inl _ \<Rightarrow> self)))"

definition gateway_send_log_msg ::
    "(gateway_log_msg, u32, 'cmd) rr \<Rightarrow> ('lru, 'fm, 'bm, 'ns, 'cmd) gateway \<Rightarrow> gateway_log_msg \<Rightarrow>
     ('lru, 'fm, 'bm, 'ns, 'cmd) gateway" where
  "gateway_send_log_msg rr self msg =
     self\<lparr>gw_inner := (gw_inner self)\<lparr>gi_logs :=
       deref_mut (\<lambda>c. fst (client_try_send_request rr c (gw_logs_collector_id self) msg)) (gi_logs (gw_inner self))\<rparr>\<rparr>"

definition gateway_on_inner_event ::
    "('lru, 'fm, 'bm, 'ns, 'err) libs \<Rightarrow> ('lru, 'fm, 'bm, 'ns, 'cmd) gateway \<Rightarrow> gateway_inner_event \<Rightarrow>
     ('lru, 'fm, 'bm, 'ns, 'cmd) gateway \<times> (gateway_event, 'cmd) to_swarm list" where
  "gateway_on_inner_event L self ev =
     (let (self, ev) = (case ev of
          GiBase ev \<Rightarrow> (self, gateway_on_base_event (l_crypto L) ev)
        | GiQuery ev \<Rightarrow> gateway_on_query_event L self ev
        | GiLogs ev \<Rightarrow> (gateway_on_logs_event L self ev, None)) in
      (self, case ev of Some e \<Rightarrow> [GenerateEvent e] | None \<Rightarrow> []))"

section \<open>The transport and its handle\<close>

text \<open>
  The parts of \<open>GatewayTransport\<close> and of the handles: the queues are shared between them. The
  metrics are those that the queues update.
\<close>

record ('b, 'cq, 'cl, 'ce) gateway_transport =
  gt_swarm :: 'b
  gt_queries :: "'cq queue"
  gt_logs :: "'cl queue"
  gt_events :: "'ce queue"
  gt_metrics :: metrics
  gt_task_manager :: "unit task_manager"

record ('cq, 'cl, 'ce) gateway_queues =
  gq_queries :: "('cq, peer_id \<times> query) mpsc"
  gq_logs :: "('cl, gateway_log_msg) mpsc"
  gq_events :: "('ce, gateway_event) mpsc"

text \<open>The handle is made last, from the queues and the transport, with the task that runs the transport.\<close>

definition gateway_handle_new ::
    "runtime_flavor option \<Rightarrow> metrics \<Rightarrow> 'b \<Rightarrow> 'cq queue \<Rightarrow> 'cl queue \<Rightarrow> 'ce queue \<Rightarrow> nat \<Rightarrow>
     ('b, 'cq, 'cl, 'ce) gateway_transport run" where
  "gateway_handle_new flavor m swarm queries logs events shutdown_timeout =
     run_bind (spawn_transport flavor shutdown_timeout) (\<lambda>tm.
       Done \<lparr>gt_swarm = swarm, gt_queries = queries, gt_logs = logs, gt_events = events,
             gt_metrics = m, gt_task_manager = tm\<rparr>)"

definition gateway_start_transport ::
    "('cq, 'cl, 'ce) gateway_queues \<Rightarrow> runtime_flavor option \<Rightarrow> metrics \<Rightarrow> 'b \<Rightarrow> gateway_config \<Rightarrow>
     ('b, 'cq, 'cl, 'ce) gateway_transport run" where
  "gateway_start_transport Q flavor m swarm config =
     gateway_handle_new flavor m swarm
       (new_queue (gq_queries Q) (gc_queries_queue_size config) ''queries'')
       (new_queue (gq_logs Q) (gc_logs_queue_size config) ''logs'')
       (new_queue (gq_events Q) (gc_events_queue_size config) ''events'')
       (gc_shutdown_timeout config)"

declare gateway_handle_new_def [simp]

definition gateway_handle_send_query ::
    "('cq, 'cl, 'ce) gateway_queues \<Rightarrow> ('b, 'cq, 'cl, 'ce) gateway_transport \<Rightarrow> peer_id \<Rightarrow> query \<Rightarrow>
     ('b, 'cq, 'cl, 'ce) gateway_transport \<times> (queue_full + unit)" where
  "gateway_handle_send_query Q self peer_id q =
     (let (c, m, r) = queue_try_send (gq_queries Q) (gt_queries self) (gt_metrics self) (peer_id, q) in
      (self\<lparr>gt_queries := c, gt_metrics := m\<rparr>, r))"

definition gateway_handle_log ::
    "('cq, 'cl, 'ce) gateway_queues \<Rightarrow> ('b, 'cq, 'cl, 'ce) gateway_transport \<Rightarrow> gateway_log_kind \<Rightarrow>
     ('b, 'cq, 'cl, 'ce) gateway_transport \<times> (queue_full + unit)" where
  "gateway_handle_log Q self msg =
     (let (c, m, r) = queue_try_send (gq_logs Q) (gt_logs self) (gt_metrics self) (gateway_log_msg_from msg) in
      (self\<lparr>gt_logs := c, gt_metrics := m\<rparr>, r))"

definition gateway_handle_query_submitted ::
    "('cq, 'cl, 'ce) gateway_queues \<Rightarrow> ('b, 'cq, 'cl, 'ce) gateway_transport \<Rightarrow> query_submitted \<Rightarrow>
     ('b, 'cq, 'cl, 'ce) gateway_transport \<times> (queue_full + unit)" where
  "gateway_handle_query_submitted Q self msg = gateway_handle_log Q self (GL_QuerySubmitted msg)"

definition gateway_handle_query_finished ::
    "('cq, 'cl, 'ce) gateway_queues \<Rightarrow> ('b, 'cq, 'cl, 'ce) gateway_transport \<Rightarrow> query_finished \<Rightarrow>
     ('b, 'cq, 'cl, 'ce) gateway_transport \<times> (queue_full + unit)" where
  "gateway_handle_query_finished Q self msg = gateway_handle_log Q self (GL_QueryFinished msg)"

definition gateway_on_swarm_event ::
    "('cq, 'cl, 'ce) gateway_queues \<Rightarrow> ('b, 'cq, 'cl, 'ce) gateway_transport \<Rightarrow> gateway_event swarm_out \<Rightarrow>
     ('b, 'cq, 'cl, 'ce) gateway_transport" where
  "gateway_on_swarm_event Q self ev =
     (let (c, m) = forward_event (gq_events Q) (gt_events self) (gt_metrics self) ev in
      self\<lparr>gt_events := c, gt_metrics := m\<rparr>)"

text \<open>
  The loop of \<open>run\<close>: one pass takes any branch of the \<open>select!\<close> that is ready; \<open>None\<close> is the end of the
  loop, which the cancelled token causes. A queue that is closed and empty disables its branch.
\<close>

datatype gateway_msg = GmQuery peer_id query | GmLog gateway_log_msg

inductive gateway_pass ::
    "('lru, 'fm, 'bm, 'ns, 'err) libs \<Rightarrow> (query, query_result, 'cmd) rr \<Rightarrow> (gateway_log_msg, u32, 'cmd) rr \<Rightarrow>
     ('cq, 'cl, 'ce) gateway_queues \<Rightarrow>
     ((('lru, 'fm, 'bm, 'ns, 'cmd) gateway, gateway_event, 'cmd) wrapped \<Rightarrow>
      (('lru, 'fm, 'bm, 'ns, 'cmd) gateway, gateway_event, 'cmd) wrapped \<Rightarrow> gateway_event swarm_out \<Rightarrow> bool) \<Rightarrow>
     ((('lru, 'fm, 'bm, 'ns, 'cmd) gateway, gateway_event, 'cmd) wrapped, 'cq, 'cl, 'ce) gateway_transport \<Rightarrow>
     (gateway_msg, gateway_event) act \<Rightarrow>
     ((('lru, 'fm, 'bm, 'ns, 'cmd) gateway, gateway_event, 'cmd) wrapped, 'cq, 'cl, 'ce) gateway_transport option run \<Rightarrow> bool"
  for L rrq rrl Q sw where
  cancelled: "tm_cancel_token (gt_task_manager t) \<Longrightarrow> gateway_pass L rrq rrl Q sw t Stopped (Done None)"
| swarm: "sw (gt_swarm t) b ev \<Longrightarrow>
    gateway_pass L rrq rrl Q sw t (FromSwarm ev) (Done (Some (gateway_on_swarm_event Q (t\<lparr>gt_swarm := b\<rparr>) ev)))"
| queries: "queue_recv (gq_queries Q) (gt_queries t) (gt_metrics t) = (c, m, Ready (Some (p, q))) \<Longrightarrow>
    gateway_pass L rrq rrl Q sw t (Served (GmQuery p q) [])
      (run_bind (gateway_send_query L rrq (wrapper (gt_swarm t)) p q) (\<lambda>g.
         Done (Some (t\<lparr>gt_queries := c, gt_metrics := m, gt_swarm := (gt_swarm t)\<lparr>wrapper := g\<rparr>\<rparr>))))"
| logs: "queue_recv (gq_logs Q) (gt_logs t) (gt_metrics t) = (c, m, Ready (Some msg)) \<Longrightarrow>
    gateway_pass L rrq rrl Q sw t (Served (GmLog msg) [])
      (Done (Some (t\<lparr>gt_logs := c, gt_metrics := m, gt_swarm := deref_mut (\<lambda>g. gateway_send_log_msg rrl g msg) (gt_swarm t)\<rparr>)))"

text \<open>The transport together with the application: calls of the handle, passes of the loop, and events taken by the application.\<close>

inductive gateway_step ::
    "('lru, 'fm, 'bm, 'ns, 'err) libs \<Rightarrow> (query, query_result, 'cmd) rr \<Rightarrow> (gateway_log_msg, u32, 'cmd) rr \<Rightarrow>
     ('cq, 'cl, 'ce) gateway_queues \<Rightarrow>
     ((('lru, 'fm, 'bm, 'ns, 'cmd) gateway, gateway_event, 'cmd) wrapped \<Rightarrow>
      (('lru, 'fm, 'bm, 'ns, 'cmd) gateway, gateway_event, 'cmd) wrapped \<Rightarrow> gateway_event swarm_out \<Rightarrow> bool) \<Rightarrow>
     ((('lru, 'fm, 'bm, 'ns, 'cmd) gateway, gateway_event, 'cmd) wrapped, 'cq, 'cl, 'ce) gateway_transport \<Rightarrow>
     (gateway_msg, gateway_event) act \<Rightarrow>
     ((('lru, 'fm, 'bm, 'ns, 'cmd) gateway, gateway_event, 'cmd) wrapped, 'cq, 'cl, 'ce) gateway_transport \<Rightarrow> bool"
  for L rrq rrl Q sw where
  send_query: "gateway_handle_send_query Q t p q = (t', r) \<Longrightarrow> gateway_step L rrq rrl Q sw t (Submitted (GmQuery p q) (r = Inr ())) t'"
| query_submitted: "gateway_handle_query_submitted Q t msg = (t', r) \<Longrightarrow>
    gateway_step L rrq rrl Q sw t (Submitted (GmLog (gateway_log_msg_from (GL_QuerySubmitted msg))) (r = Inr ())) t'"
| query_finished: "gateway_handle_query_finished Q t msg = (t', r) \<Longrightarrow>
    gateway_step L rrq rrl Q sw t (Submitted (GmLog (gateway_log_msg_from (GL_QueryFinished msg))) (r = Inr ())) t'"
| pass: "gateway_pass L rrq rrl Q sw t a (Done (Some t')) \<Longrightarrow> gateway_step L rrq rrl Q sw t a t'"
| event: "queue_recv (gq_events Q) (gt_events t) (gt_metrics t) = (c, m, Ready (Some e)) \<Longrightarrow>
    gateway_step L rrq rrl Q sw t (Received e) (t\<lparr>gt_events := c, gt_metrics := m\<rparr>)"

text \<open>The transport seen through the interface: its queues, its channels' laws, and how its behaviour handles a message.\<close>

fun gateway_queue :: "gateway_msg \<Rightarrow> string" where
  "gateway_queue (GmQuery p q) = ''queries''"
| "gateway_queue (GmLog msg) = ''logs''"

definition gateway_queued ::
    "('cq \<Rightarrow> (peer_id \<times> query) list) \<Rightarrow> ('cl \<Rightarrow> gateway_log_msg list) \<Rightarrow> ('b, 'cq, 'cl, 'ce) gateway_transport \<Rightarrow> string \<Rightarrow> gateway_msg list" where
  "gateway_queued iq il t n =
     (if n = ''queries'' then map (\<lambda>(p, q). GmQuery p q) (iq (q_chan (gt_queries t)))
      else if n = ''logs'' then map GmLog (il (q_chan (gt_logs t))) else [])"

definition gateway_fits ::
    "gateway_config \<Rightarrow> ('cq \<Rightarrow> (peer_id \<times> query) list) \<Rightarrow> ('cq \<Rightarrow> nat) \<Rightarrow> ('cl \<Rightarrow> gateway_log_msg list) \<Rightarrow> ('cl \<Rightarrow> nat) \<Rightarrow>
     ('ce \<Rightarrow> gateway_event list) \<Rightarrow> ('ce \<Rightarrow> nat) \<Rightarrow> ('b, 'cq, 'cl, 'ce) gateway_transport \<Rightarrow> bool" where
  "gateway_fits config iq cq il cl ie ce t \<longleftrightarrow> fits iq cq (gc_queries_queue_size config) ''queries'' (gt_queries t) \<and>
     fits il cl (gc_logs_queue_size config) ''logs'' (gt_logs t) \<and> fits ie ce (gc_events_queue_size config) ''events'' (gt_events t)"

definition gateway_channels ::
    "('cq, 'cl, 'ce) gateway_queues \<Rightarrow> ('cq \<Rightarrow> (peer_id \<times> query) list) \<Rightarrow> ('cq \<Rightarrow> nat) \<Rightarrow> ('cl \<Rightarrow> gateway_log_msg list) \<Rightarrow> ('cl \<Rightarrow> nat) \<Rightarrow>
     ('ce \<Rightarrow> gateway_event list) \<Rightarrow> ('ce \<Rightarrow> nat) \<Rightarrow> bool" where
  "gateway_channels Q iq cq il cl ie ce \<longleftrightarrow>
     mpsc_laws (gq_queries Q) iq cq \<and> mpsc_laws (gq_logs Q) il cl \<and> mpsc_laws (gq_events Q) ie ce"

definition gateway_handles ::
    "('lru, 'fm, 'bm, 'ns, 'err) libs \<Rightarrow> (query, query_result, 'cmd) rr \<Rightarrow> (gateway_log_msg, u32, 'cmd) rr \<Rightarrow> gateway_msg \<Rightarrow>
     (('lru, 'fm, 'bm, 'ns, 'cmd) gateway, gateway_event, 'cmd) wrapped \<Rightarrow>
     (('lru, 'fm, 'bm, 'ns, 'cmd) gateway, gateway_event, 'cmd) wrapped \<Rightarrow> gateway_event list \<Rightarrow> bool" where
  "gateway_handles L rrq rrl msg b b' es \<longleftrightarrow> es = [] \<and>
     (case msg of
        GmQuery p q \<Rightarrow> \<exists>g. gateway_send_query L rrq (wrapper b) p q = Done g \<and> b' = b\<lparr>wrapper := g\<rparr>
      | GmLog l \<Rightarrow> b' = deref_mut (\<lambda>g. gateway_send_log_msg rrl g l) b)"

text \<open>What a step keeps, as the interface asks for it.\<close>

abbreviation gateway_keeps where
  "gateway_keeps config iq cq il cl ie ce \<equiv> step_keeps gateway_queue (gateway_queued iq il) (\<lambda>t. ie (q_chan (gt_events t)))
     (\<lambda>t. dropped (gt_metrics t) (q_name (gt_events t))) (gateway_fits config iq cq il cl ie ce)"

lemma gateway_pass_keeps:
  assumes "gateway_pass L rrq rrl Q sw t a (Done (Some t'))" and "gateway_channels Q iq cq il cl ie ce"
  shows "gateway_keeps config iq cq il cl ie ce t a t'"
proof -
  from assms(2) have laws: "mpsc_laws (gq_queries Q) iq cq" "mpsc_laws (gq_logs Q) il cl" "mpsc_laws (gq_events Q) ie ce"
    by (simp_all add: gateway_channels_def)
  note defs = step_keeps_def conserved_def gateway_queued_def gateway_fits_def events_conserved_def
  from assms(1) show ?thesis
  proof cases
    case (swarm b ev)
    then obtain c m where f: "forward_event (gq_events Q) (gt_events t) (gt_metrics t) ev = (c, m)"
      and t': "t' = t\<lparr>gt_swarm := b, gt_events := c, gt_metrics := m\<rparr>"
      by (auto simp: gateway_on_swarm_event_def split: prod.splits)
    from forward_event_items [OF laws(3) f] swarm(1) show ?thesis by (auto simp: step_keeps_def conserved_def gateway_queued_def gateway_fits_def t')
  next
    case (queries c m p q)
    then show ?thesis using queue_recv_items [OF laws(1) queries(3)] by (auto simp: defs)
  next
    case (logs c m msg)
    then show ?thesis using queue_recv_items [OF laws(2) logs(3)] by (auto simp: defs)
  qed
qed

lemma gateway_step_keeps:
  assumes "gateway_step L rrq rrl Q sw t a t'" and "gateway_channels Q iq cq il cl ie ce"
  shows "gateway_keeps config iq cq il cl ie ce t a t'"
proof -
  from assms(2) have laws: "mpsc_laws (gq_queries Q) iq cq" "mpsc_laws (gq_logs Q) il cl" "mpsc_laws (gq_events Q) ie ce"
    by (simp_all add: gateway_channels_def)
  note defs = step_keeps_def conserved_def gateway_queued_def gateway_fits_def events_conserved_def
  note send = gateway_handle_send_query_def gateway_handle_query_submitted_def gateway_handle_query_finished_def gateway_handle_log_def
  from assms(1) show ?thesis
  proof cases
    case (send_query p q r)
    then obtain c m where "queue_try_send (gq_queries Q) (gt_queries t) (gt_metrics t) (p, q) = (c, m, r)" 
      "t' = t\<lparr>gt_queries := c, gt_metrics := m\<rparr>" by (auto simp: send split: prod.splits)
    with queue_try_send_items [OF laws(1) this(1)] send_query show ?thesis by (auto simp: defs)
  next
    case (query_submitted msg r)
    then obtain c m where q: "queue_try_send (gq_logs Q) (gt_logs t) (gt_metrics t) (gateway_log_msg_from (GL_QuerySubmitted msg)) = (c, m, r)" and t': "t' = t\<lparr>gt_logs := c, gt_metrics := m\<rparr>"
      by (auto simp: send split: prod.splits)
    from queue_try_send_items [OF laws(2) q] query_submitted(1) show ?thesis by (auto simp: defs t')
  next
    case (query_finished msg r)
    then obtain c m where q: "queue_try_send (gq_logs Q) (gt_logs t) (gt_metrics t) (gateway_log_msg_from (GL_QueryFinished msg)) = (c, m, r)" and t': "t' = t\<lparr>gt_logs := c, gt_metrics := m\<rparr>"
      by (auto simp: send split: prod.splits)
    from queue_try_send_items [OF laws(2) q] query_finished(1) show ?thesis by (auto simp: defs t')
  next
    case pass
    from gateway_pass_keeps [OF this assms(2)] show ?thesis .
  next
    case (event c m e)
    then show ?thesis using queue_recv_items [OF laws(3) event(3)] by (auto simp: defs)
  qed
qed

lemma gateway_step_behaves:
  assumes "gateway_step L rrq rrl Q sw t a t'"
  shows "behaves (gateway_handles L rrq rrl) sw (gt_swarm t) a (gt_swarm t')"
  using assms
proof cases
  case pass
  then show ?thesis
    by cases (auto simp: gateway_handles_def gateway_on_swarm_event_def split: prod.splits)
qed (auto simp: gateway_handle_send_query_def gateway_handle_query_submitted_def gateway_handle_query_finished_def gateway_handle_log_def
    split: prod.splits)

interpretation gateway_loop: transport_loop "gateway_step L rrq rrl Q sw" gateway_queue "gateway_queued iq il"
    "\<lambda>t. ie (q_chan (gt_events t))" "\<lambda>t. dropped (gt_metrics t) (q_name (gt_events t))" gt_swarm "gateway_fits config iq cq il cl ie ce"
    "gateway_handles L rrq rrl" sw "gateway_channels Q iq cq il cl ie ce"
  by unfold_locales (auto intro: gateway_step_keeps gateway_step_behaves)

lemma gateway_started:
  assumes "gateway_start_transport Q flavor m b config = Done t" and "gateway_channels Q iq cq il cl ie ce"
  shows "gateway_fits config iq cq il cl ie ce t" "gateway_queued iq il t n = []" "ie (q_chan (gt_events t)) = []"
    "gt_swarm t = b" "gt_metrics t = m" "q_name (gt_events t) = ''events''"
proof -
  from assms(1) have t: "gt_queries t = new_queue (gq_queries Q) (gc_queries_queue_size config) ''queries''"
      "gt_logs t = new_queue (gq_logs Q) (gc_logs_queue_size config) ''logs''"
      "gt_events t = new_queue (gq_events Q) (gc_events_queue_size config) ''events''" "gt_swarm t = b" "gt_metrics t = m"
    by (auto simp: gateway_start_transport_def)
  from assms(2) have laws: "mpsc_laws (gq_queries Q) iq cq" "mpsc_laws (gq_logs Q) il cl" "mpsc_laws (gq_events Q) ie ce"
    by (simp_all add: gateway_channels_def)
  show "gateway_fits config iq cq il cl ie ce t" "gateway_queued iq il t n = []" "ie (q_chan (gt_events t)) = []"
    "gt_swarm t = b" "gt_metrics t = m" "q_name (gt_events t) = ''events''"
    using new_queue_fits [OF laws(1)] new_queue_fits [OF laws(2)] new_queue_fits [OF laws(3)]
    by (auto simp: t gateway_fits_def gateway_queued_def new_queue_def)
qed

section \<open>Runs of the behaviour\<close>

text \<open>What a call of \<open>send_query\<close> adds to the accepted queries: the request, its peer and its query ID.\<close>

definition query_accepted ::
    "('lru, 'fm, 'bm, 'ns, 'err) libs \<Rightarrow> (query, query_result, 'cmd) rr \<Rightarrow> ('lru, 'fm, 'bm, 'ns, 'cmd) gateway \<Rightarrow>
     peer_id \<Rightarrow> query \<Rightarrow> (req_id \<times> peer_id \<times> string) list" where
  "query_accepted L rr self p q =
     (case (q_query_id q, base_sign L (wrapper (gi_base (gw_inner self))) (query_signed (l_protobuf L)) q) of
        (Some query_id, Done q') \<Rightarrow>
          (case snd (client_try_send_request rr (wrapper (gi_query (gw_inner self))) p q') of
             Inr i \<Rightarrow> [(i, p, query_id)] | Inl _ \<Rightarrow> [])
      | _ \<Rightarrow> [])"

abbreviation set_query where
  "set_query w self \<equiv> self\<lparr>gw_inner := (gw_inner self)\<lparr>gi_query := w\<rparr>\<rparr>"

text \<open>
  How the swarm makes the behaviour work: the query client is polled and sees the events
  of the swarm; the base behaviour and the logs client may do anything, report any
  event and send commands. \<open>dl\<close> are the events that the query client delivers, \<open>evs\<close> the commands of the gateway.
\<close>

inductive gateway_polled ::
    "('lru, 'fm, 'bm, 'ns, 'err) libs \<Rightarrow> (query, query_result, 'cmd) rr \<Rightarrow> (req_id fset \<Rightarrow> req_id list) \<Rightarrow>
     ((query, query_result) rr_call list \<Rightarrow> 'he conn_call \<Rightarrow> 'r) \<Rightarrow>
     ('lru, 'fm, 'bm, 'ns, 'cmd) gateway \<Rightarrow> query_result client_event list \<Rightarrow> (gateway_event, 'cmd) to_swarm list \<Rightarrow>
     ('lru, 'fm, 'bm, 'ns, 'cmd) gateway \<Rightarrow> bool"
  for L rr order conn where
  query_event: "wrapped_poll (client_wrapper rr (l_timers L) order conn now) (gi_query (gw_inner s)) = Some (Done (w, Ready (GenerateEvent ev))) \<Longrightarrow>
    gateway_on_inner_event L (set_query w s) (GiQuery ev) = (s', evs) \<Longrightarrow> gateway_polled L rr order conn s [ev] evs s'"
| query_cmd: "wrapped_poll (client_wrapper rr (l_timers L) order conn now) (gi_query (gw_inner s)) = Some (Done (w, Ready c)) \<Longrightarrow>
    map_out c = Done c' \<Longrightarrow> gateway_polled L rr order conn s [] [c'] (set_query w s)"
| query_pending: "wrapped_poll (client_wrapper rr (l_timers L) order conn now) (gi_query (gw_inner s)) = Some (Done (w, Pending)) \<Longrightarrow>
    gateway_polled L rr order conn s [] [] (set_query w s)"
| swarm: "wrapped_on_swarm_event (client_wrapper rr (l_timers L) order conn now) (gi_query (gw_inner s)) ev = Done w \<Longrightarrow>
    gateway_polled L rr order conn s [] [] (set_query w s)"
| base_event: "gateway_on_inner_event L (s\<lparr>gw_inner := (gw_inner s)\<lparr>gi_base := b\<rparr>\<rparr>) (GiBase ev) = (s', evs) \<Longrightarrow>
    gateway_polled L rr order conn s [] evs s'"
| base_cmds: "List.map_filter generated cmds = [] \<Longrightarrow>
    gateway_polled L rr order conn s [] cmds (s\<lparr>gw_inner := (gw_inner s)\<lparr>gi_base := b\<rparr>\<rparr>)"
| logs_event: "gateway_on_inner_event L (s\<lparr>gw_inner := (gw_inner s)\<lparr>gi_logs := l\<rparr>\<rparr>) (GiLogs ev) = (s', evs) \<Longrightarrow>
    gateway_polled L rr order conn s [] evs s'"
| logs_cmds: "List.map_filter generated cmds = [] \<Longrightarrow>
    gateway_polled L rr order conn s [] cmds (s\<lparr>gw_inner := (gw_inner s)\<lparr>gi_logs := l\<rparr>\<rparr>)"

text \<open>
  A run of the behaviour: queries and logs are sent, and the swarm makes it work. \<open>qs\<close> are the accepted queries, \<open>dl\<close> the events that the query client has
  delivered, \<open>out\<close> the commands that the gateway has emitted.
\<close>

inductive gateway_run ::
    "('lru, 'fm, 'bm, 'ns, 'err) libs \<Rightarrow> (query, query_result, 'cmd) rr \<Rightarrow> (req_id fset \<Rightarrow> req_id list) \<Rightarrow>
     ((query, query_result) rr_call list \<Rightarrow> 'he conn_call \<Rightarrow> 'r) \<Rightarrow> ('lru, 'fm, 'bm, 'ns) base \<Rightarrow> gateway_config \<Rightarrow>
     ('lru, 'fm, 'bm, 'ns, 'cmd) gateway \<Rightarrow> (req_id \<times> peer_id \<times> string) list \<Rightarrow> query_result client_event list \<Rightarrow>
     (gateway_event, 'cmd) to_swarm list \<Rightarrow> bool"
  for L rr order conn b0 config where
  new: "gateway_run L rr order conn b0 config (wrapper (gateway_new L now b0 config)) [] [] []"
| send: "gateway_run L rr order conn b0 config s qs dl out \<Longrightarrow> gateway_send_query L rr s p q = Done s' \<Longrightarrow>
    gateway_run L rr order conn b0 config s' (qs @ query_accepted L rr s p q) dl out"
| send_log: "gateway_run L rr order conn b0 config s qs dl out \<Longrightarrow>
    gateway_run L rr order conn b0 config (gateway_send_log_msg rrl s msg) qs dl out"
| polled: "gateway_run L rr order conn b0 config s qs dl out \<Longrightarrow> gateway_polled L rr order conn s dl' evs s' \<Longrightarrow>
    gateway_run L rr order conn b0 config s' qs (dl @ dl') (out @ evs)"

text \<open>The requests that the delivered events answer, and the result that is reported for an event.\<close>

abbreviation answered :: "'resp client_event list \<Rightarrow> (req_id \<times> peer_id) list" where
  "answered dl \<equiv> terminated (map GenerateEvent dl :: ('resp client_event, unit) to_swarm list)"

definition query_answer :: "(req_id \<times> peer_id \<times> string) list \<Rightarrow> query_result client_event \<Rightarrow> (peer_id \<times> query_result) option" where
  "query_answer qs ev =
     (case ev of
        Response p i r \<Rightarrow> if (i, p, qr_query_id r) \<in> set qs then Some (p, r) else None
      | Timeout p i \<Rightarrow> map_option (\<lambda>(_, _, q). (p, query_result_new q QR_Timeout)) (List.find (\<lambda>(j, _, _). j = i) qs)
      | PeerUnknown p \<Rightarrow> None)"

fun query_reported :: "(gateway_event, 'cmd) to_swarm \<Rightarrow> (peer_id \<times> query_result) option" where
  "query_reported (GenerateEvent (GwQueryResult p r)) = Some (p, r)"
| "query_reported _ = None"

definition ids_ok :: "(req_id \<times> peer_id \<times> string) list \<Rightarrow> 'resp client_event list \<Rightarrow> (req_id, string) fmap \<Rightarrow> bool" where
  "ids_ok qs dl m \<longleftrightarrow> (\<forall>i q. fmlookup m i = Some q \<longleftrightarrow> (\<exists>p. (i, p, q) \<in> set qs) \<and> i \<notin> fst ` set (answered dl))"

text \<open>The query client, as the gateway configures it, has delivered \<open>cmds\<close> for the accepted queries \<open>qs\<close>.\<close>

abbreviation queries_delivered where
  "queries_delivered L rr order conn config w qs cmds \<equiv>
     client_delivered rr (l_timers L) order conn
       (proto_codec_new (gc_max_query_size config) (gc_max_query_result_size config)) query_protocol (gc_query_config config)
       w (map (\<lambda>(i, p, q). (i, p)) qs) cmds"

text \<open>
  The invariant: the query client has delivered \<open>dl\<close> (and other commands) for the accepted
  queries; the gateway remembers exactly the unanswered ones; and its reports are the answers.
\<close>

definition gateway_inv ::
    "('lru, 'fm, 'bm, 'ns, 'err) libs \<Rightarrow> (query, query_result, 'cmd) rr \<Rightarrow> (req_id fset \<Rightarrow> req_id list) \<Rightarrow>
     ((query, query_result) rr_call list \<Rightarrow> 'he conn_call \<Rightarrow> 'r) \<Rightarrow> gateway_config \<Rightarrow>
     ('lru, 'fm, 'bm, 'ns, 'cmd) gateway \<Rightarrow> (req_id \<times> peer_id \<times> string) list \<Rightarrow> query_result client_event list \<Rightarrow>
     (gateway_event, 'cmd) to_swarm list \<Rightarrow> bool" where
  "gateway_inv L rr order conn config s qs dl out \<longleftrightarrow>
     (\<exists>cmds. queries_delivered L rr order conn config (gi_query (gw_inner s)) qs cmds \<and>
       terminated cmds = answered dl) \<and>
     ids_ok qs dl (gw_query_ids s) \<and>
     List.map_filter query_reported out = List.map_filter (query_answer qs) dl"

lemma find_unique:
  assumes "distinct (map fst qs)" and "(i, p, q) \<in> set qs"
  shows "List.find (\<lambda>(j, _, _). j = i) qs = Some (i, p, q)"
  using assms by (induction qs) (auto simp: rev_image_eqI)


lemma query_answer_append:
  assumes "fst ` set (answered [ev]) \<subseteq> fst ` set qs" and "distinct (map fst (qs @ new))"
  shows "query_answer (qs @ new) ev = query_answer qs ev"
proof (cases ev)
  case (Response p i r)
  with assms show ?thesis by (force simp: query_answer_def)
next
  case (Timeout p i)
  with assms(1) obtain p' q where q: "(i, p', q) \<in> set qs" by auto
  have "List.find (\<lambda>(j, _, _). j = i) (qs @ new) = Some (i, p', q)" by (rule find_unique [OF assms(2)]) (use q in simp)
  moreover have "List.find (\<lambda>(j, _, _). j = i) qs = Some (i, p', q)" by (rule find_unique) (use assms(2) q in simp_all)
  ultimately show ?thesis using Timeout by (simp add: query_answer_def)
qed (simp add: query_answer_def)

lemma answers_append:
  assumes "fst ` set (answered dl) \<subseteq> fst ` set qs" and "distinct (map fst (qs @ new))"
  shows "List.map_filter (query_answer (qs @ new)) dl = List.map_filter (query_answer qs) dl"
  using assms(1)
proof (induction dl)
  case (Cons ev dl)
  then have "query_answer (qs @ new) ev = query_answer qs ev" by (intro query_answer_append [OF _ assms(2)]) auto
  moreover have "List.map_filter (query_answer (qs @ new)) dl = List.map_filter (query_answer qs) dl"
    using Cons by (intro Cons.IH) auto
  ultimately show ?case by (simp add: List.map_filter_simps split: option.split)
qed (simp add: List.map_filter_simps)

lemma gateway_send_cases:
  assumes "gateway_send_query L rr s p q = Done s'"
  obtains "s' = s" "query_accepted L rr s p q = []"
    | query_id q' c res where "client_try_send_request rr (wrapper (gi_query (gw_inner s))) p q' = (c, res)"
      "s' = (set_query ((gi_query (gw_inner s))\<lparr>wrapper := c\<rparr>) s)\<lparr>gw_query_ids :=
         (case res of Inr i \<Rightarrow> fmupd i query_id (gw_query_ids s) | Inl _ \<Rightarrow> gw_query_ids s)\<rparr>"
      "query_accepted L rr s p q = (case res of Inr i \<Rightarrow> [(i, p, query_id)] | Inl _ \<Rightarrow> [])"
proof (cases "q_query_id q")
  case None
  with assms that(1) show thesis by (simp add: gateway_send_query_def query_accepted_def)
next
  case (Some query_id)
  with assms obtain q' where q': "base_sign L (wrapper (gi_base (gw_inner s))) (query_signed (l_protobuf L)) q = Done q'"
    by (auto simp: gateway_send_query_def)
  obtain c res where c: "client_try_send_request rr (wrapper (gi_query (gw_inner s))) p q' = (c, res)" by fastforce
  show thesis
    by (rule that(2) [OF c, of query_id])
       (use assms Some q' c in \<open>auto simp: gateway_send_query_def query_accepted_def Let_def split: sum.splits\<close>)
qed

lemma terminated_generate: "terminated [GenerateEvent ev] = answered [ev]"
  by (cases ev) simp_all

lemma ids_ok_upd:
  assumes "ids_ok qs dl m" and "i \<notin> fst ` set qs" and "fst ` set (answered dl) \<subseteq> fst ` set qs"
  shows "ids_ok (qs @ [(i, p, query_id)]) dl (fmupd i query_id m)"
  unfolding ids_ok_def
proof (intro allI)
  fix j q
  show "fmlookup (fmupd i query_id m) j = Some q \<longleftrightarrow>
      (\<exists>p'. (j, p', q) \<in> set (qs @ [(i, p, query_id)])) \<and> j \<notin> fst ` set (answered dl)"
  proof (cases "j = i")
    case True
    moreover have "(i, p', q) \<notin> set qs" for p' using assms(2) by (auto simp: rev_image_eqI)
    moreover have "i \<notin> fst ` set (answered dl)" using assms(2,3) by blast
    ultimately show ?thesis by auto
  next
    case False
    with assms(1) show ?thesis by (auto simp: ids_ok_def)
  qed
qed

text \<open>How the gateway handles one event of the query client.\<close>

lemma gateway_query_event:
  assumes step: "gateway_on_inner_event L s (GiQuery ev) = (s', evs)"
    and ids: "ids_ok qs dl (gw_query_ids s)" and "distinct (map fst qs)"
    and new: "set (answered [ev]) \<subseteq> set (map (\<lambda>(i, p, q). (i, p)) qs)" "fst ` set (answered [ev]) \<inter> fst ` set (answered dl) = {}"
  shows "gi_query (gw_inner s') = gi_query (gw_inner s) \<and> ids_ok qs (dl @ [ev]) (gw_query_ids s') \<and>
    List.map_filter query_reported evs = List.map_filter (query_answer qs) [ev]"
proof (cases ev)
  case (PeerUnknown p)
  then have "ids_ok qs (dl @ [ev]) = (ids_ok qs dl :: _ \<Rightarrow> bool)" by (simp add: ids_ok_def fun_eq_iff)
  with PeerUnknown step ids show ?thesis
    by (auto simp: gateway_on_inner_event_def gateway_on_query_event_def gateway_find_and_dial_def query_answer_def
        List.map_filter_simps)
next
  case (Response p i r)
  with new(1) obtain q where q: "(i, p, q) \<in> set qs" by auto
  have uniq: "q' = q \<and> p' = p" if "(i, p', q') \<in> set qs" for p' q'
    using that q assms(3) by (meson eq_key_imp_eq_value prod.inject)
  have look: "fmlookup (gw_query_ids s) i = Some q" using ids q new(2) Response by (auto simp: ids_ok_def)
  with step Response have s': "s' = s\<lparr>gw_query_ids := fmdrop i (gw_query_ids s)\<rparr>"
    and evs: "evs = (if q = qr_query_id r then [GenerateEvent (GwQueryResult p r)] else [])"
    by (auto simp: gateway_on_inner_event_def gateway_on_query_event_def gateway_on_query_result_def Let_def split: if_splits)
  have "ids_ok qs (dl @ [ev]) (gw_query_ids s')" using ids Response by (auto simp: ids_ok_def s')
  moreover have "(i, p, qr_query_id r) \<in> set qs \<longleftrightarrow> q = qr_query_id r" using q uniq by blast
  ultimately show ?thesis using Response by (simp add: s' evs query_answer_def List.map_filter_simps)
next
  case (Timeout p i)
  with new(1) obtain q where q: "(i, p, q) \<in> set qs" by auto
  have look: "fmlookup (gw_query_ids s) i = Some q" using ids q new(2) Timeout by (auto simp: ids_ok_def)
  with step Timeout have s': "s' = s\<lparr>gw_query_ids := fmdrop i (gw_query_ids s)\<rparr>"
    and evs: "evs = [GenerateEvent (GwQueryResult p (query_result_new q QR_Timeout))]"
    by (auto simp: gateway_on_inner_event_def gateway_on_query_event_def gateway_on_query_timeout_def)
  have "ids_ok qs (dl @ [ev]) (gw_query_ids s')" using ids Timeout by (auto simp: ids_ok_def s')
  with Timeout find_unique [OF assms(3) q] show ?thesis by (simp add: s' evs query_answer_def List.map_filter_simps)
qed

lemma not_generated_reported: "List.map_filter generated cmds = [] \<Longrightarrow> List.map_filter query_reported cmds = []"
  by (induction cmds) (auto simp: List.map_filter_simps split: option.splits elim!: query_reported.elims)

lemma map_out_no_event: "map_out c = Done c' \<Longrightarrow> terminated [c] = [] \<and> query_reported c' = None"
  by (cases c) auto

lemma gateway_polled_inv:
  fixes rr :: "(query, query_result, 'cmd) rr"
  assumes "gateway_polled L rr order conn s dl' evs s'"
    and laws: "rr_laws rr" "futures_map_laws (l_timers L) cap" "order_laws order"
    and inv: "gateway_inv L rr order conn config s qs dl out"
  shows "gateway_inv L rr order conn config s' qs (dl @ dl') (out @ evs)"
proof -
  from inv obtain cmds where cd: "queries_delivered L rr order conn config (gi_query (gw_inner s)) qs cmds" and t: "terminated cmds = answered dl"
    and ids: "ids_ok qs dl (gw_query_ids s)" and rep: "List.map_filter query_reported out = List.map_filter (query_answer qs) dl"
    by (auto simp: gateway_inv_def)
  from assms(1) show ?thesis
  proof cases
    case (query_event now w ev)
    from client_delivered_poll [OF cd query_event(2)] have cd': "queries_delivered L rr order conn config w qs (cmds @ [GenerateEvent ev])" by simp
    have t': "terminated (cmds @ [GenerateEvent ev]) = answered (dl @ [ev])" using t by (cases ev) simp_all
    note acc = client_delivered_accounted [OF cd' laws, unfolded t']
    have dist: "distinct (map fst qs)" using acc(1) by (simp add: case_prod_beta comp_def)
    have "gi_query (gw_inner s') = w \<and> ids_ok qs (dl @ [ev]) (gw_query_ids s') \<and>
        List.map_filter query_reported evs = List.map_filter (query_answer qs) [ev]"
      using gateway_query_event [OF query_event(3) _ dist, of dl] ids acc(2,3) by (auto simp: terminated_generate)
    with cd' t' rep query_event(1) show ?thesis by (auto simp: gateway_inv_def)
  next
    case (query_cmd now w c c')
    from client_delivered_poll [OF cd query_cmd(4)] have "queries_delivered L rr order conn config w qs (cmds @ [c])" by simp
    with map_out_no_event [OF query_cmd(5)] t ids rep query_cmd(1-3) show ?thesis
      by (auto simp: gateway_inv_def List.map_filter_simps)
  next
    case (query_pending now w)
    with client_delivered_poll [OF cd query_pending(4)] t ids rep show ?thesis by (auto simp: gateway_inv_def)
  next
    case (swarm now ev w)
    with client_delivered_swarm [OF cd swarm(4)] t ids rep show ?thesis by (auto simp: gateway_inv_def)
  next
    case (base_event b ev)
    with inv show ?thesis
      by (auto simp: gateway_inv_def gateway_on_inner_event_def gateway_on_base_event_def gateway_on_ping_def List.map_filter_simps
          split: base_event.splits option.splits if_splits)
  next
    case (base_cmds b)
    with inv show ?thesis by (auto simp: gateway_inv_def not_generated_reported)
  next
    case (logs_event l ev)
    with inv show ?thesis
      by (auto simp: gateway_inv_def gateway_on_inner_event_def gateway_on_logs_event_def gateway_find_and_dial_def List.map_filter_simps
          split: client_event.splits)
  next
    case (logs_cmds l)
    with inv show ?thesis by (auto simp: gateway_inv_def not_generated_reported)
  qed
qed

lemma gateway_run_inv:
  fixes rr :: "(query, query_result, 'cmd) rr"
  assumes "gateway_run L rr order conn b0 config s qs dl out"
    and laws: "rr_laws rr" "futures_map_laws (l_timers L) cap" "order_laws order"
  shows "gateway_inv L rr order conn config s qs dl out"
  using assms(1)
proof induction
  case (new now)
  show ?case
    by (auto simp: gateway_inv_def gateway_new_def Let_def wrapped_from_def ids_ok_def List.map_filter_simps
        intro!: exI [of _ "[]"] client_delivered_new [unfolded wrapped_from_def])
next
  case (send s qs dl out p q s')
  from send.IH obtain cmds where cd: "queries_delivered L rr order conn config (gi_query (gw_inner s)) qs cmds" and t: "terminated cmds = answered dl"
    and ids: "ids_ok qs dl (gw_query_ids s)" and rep: "List.map_filter query_reported out = List.map_filter (query_answer qs) dl"
    by (auto simp: gateway_inv_def)
  from send.hyps(2) show ?case
  proof (cases rule: gateway_send_cases)
    case 1
    with send.IH show ?thesis by simp
  next
    case (2 query_id q' c res)
    note cd' = client_delivered_send [OF cd 2(1)]
    show ?thesis
    proof (cases res)
      case (Inl e)
      with 2 cd' t ids rep show ?thesis by (auto simp: gateway_inv_def)
    next
      case (Inr i)
      let ?qs = "qs @ [(i, p, query_id)]"
      from cd' Inr have cd'': "queries_delivered L rr order conn config ((gi_query (gw_inner s))\<lparr>wrapper := c\<rparr>) ?qs cmds" by simp
      note acc = client_delivered_accounted [OF cd laws] client_delivered_accounted [OF cd'' laws]
      have dist: "distinct (map fst ?qs)" using acc(4) by (simp add: case_prod_beta comp_def)
      have sub: "fst ` set (answered dl) \<subseteq> fst ` set qs" using acc(3) t by force
      have "ids_ok ?qs dl (fmupd i query_id (gw_query_ids s))" by (rule ids_ok_upd [OF ids _ sub]) (use dist in simp)
      then show ?thesis
        using 2 Inr cd'' t rep answers_append [OF sub dist] by (auto simp: gateway_inv_def)
    qed
  qed
next
  case (send_log s qs dl out rrl msg)
  then show ?case by (auto simp: gateway_inv_def gateway_send_log_msg_def)
next
  case (polled s qs dl out dl' evs s')
  from gateway_polled_inv [OF polled.hyps(2) laws polled.IH] show ?case .
qed

section \<open>The application's view\<close>

text \<open>Every reported result belongs to its own accepted query.\<close>

lemma answers_of_queries:
  assumes "distinct (map fst qs)" and "distinct (map fst (answered dl))"
    and "set (answered dl) \<subseteq> (\<lambda>(i, p, q). (i, p)) ` set qs"
  shows "\<exists>X. map snd X = map (\<lambda>(p, r). (p, qr_query_id r)) (List.map_filter (query_answer qs) dl) \<and>
    set X \<subseteq> set qs \<and> distinct (map fst X) \<and> fst ` set X \<subseteq> fst ` set (answered dl)"
  using assms(2,3)
proof (induction dl)
  case (Cons ev dl)
  then obtain X where X: "map snd X = map (\<lambda>(p, r). (p, qr_query_id r)) (List.map_filter (query_answer qs) dl)"
    "set X \<subseteq> set qs" "distinct (map fst X)" "fst ` set X \<subseteq> fst ` set (answered dl)"
    by auto
  show ?case
  proof (cases "query_answer qs ev")
    case None
    with X show ?thesis by (intro exI [of _ X]) (auto simp: List.map_filter_simps)
  next
    case (Some pr)
    then obtain i where i: "(i, fst pr, qr_query_id (snd pr)) \<in> set qs" "answered [ev] = [(i, fst pr)]"
    proof (cases ev)
      case (Timeout p j)
      with Some obtain k p' q where f: "List.find (\<lambda>(k, _, _). k = j) qs = Some (k, p', q)" "pr = (p, query_result_new q QR_Timeout)"
        by (auto simp: query_answer_def)
      then have "(j, p', q) \<in> set qs" by (auto simp: find_Some_iff in_set_conv_nth)
      moreover from Cons.prems(2) Timeout obtain q2 where "(j, p, q2) \<in> set qs" by auto
      ultimately have "p' = p" using assms(1) by (meson eq_key_imp_eq_value prod.inject)
      with that f Timeout \<open>(j, p', q) \<in> set qs\<close> show ?thesis by (simp add: query_result_new_def)
    qed (auto simp: query_answer_def split: if_splits)
    have "i \<notin> fst ` set (answered dl)" using Cons.prems(1) i(2) by (cases ev) auto
    with X i Some show ?thesis
      by (intro exI [of _ "(i, fst pr, qr_query_id (snd pr)) # X"]) (cases ev; force simp: List.map_filter_simps case_prod_beta)
  qed
qed (simp add: List.map_filter_simps)

lemma gateway_reports_accepted:
  assumes "gateway_run L rr order conn b0 config s qs dl out"
    and laws: "rr_laws rr" "futures_map_laws (l_timers L) cap" "order_laws order"
  shows "mset (map (\<lambda>(p, r). (p, qr_query_id r)) (List.map_filter query_reported out)) \<subseteq># mset (map snd qs)"
proof -
  from gateway_run_inv [OF assms] obtain cmds where cd: "queries_delivered L rr order conn config (gi_query (gw_inner s)) qs cmds" "terminated cmds = answered dl"
    and r: "List.map_filter query_reported out = List.map_filter (query_answer qs) dl"
    by (auto simp: gateway_inv_def)
  note acc = client_delivered_accounted [OF cd(1) laws, unfolded cd(2)]
  have d: "distinct (map fst qs)" using acc(1) by (simp add: case_prod_beta comp_def)
  from answers_of_queries [OF d acc(2), of] acc(3) obtain X where
    X: "map snd X = map (\<lambda>(p, r). (p, qr_query_id r)) (List.map_filter (query_answer qs) dl)" "set X \<subseteq> set qs" "distinct (map fst X)"
    by auto
  have "mset_set (set X) \<subseteq># mset_set (set qs)" using X(2) by (intro subset_imp_msubset_mset_set) simp_all
  with X(3) d have "mset X \<subseteq># mset qs" by (simp add: mset_set_set distinct_map)
  then have "mset (map snd X) \<subseteq># mset (map snd qs)" by (simp add: image_mset_subseteq_mono)
  with X(1) r show ?thesis by simp
qed

text \<open>If no response has the ID of another query, every answer is reported.\<close>

lemma answered_length:
  assumes "\<forall>p i r. Response p i r \<in> set dl \<longrightarrow> (i, p, qr_query_id r) \<in> set qs"
    and "fst ` set (answered dl) \<subseteq> fst ` set qs"
  shows "length (List.map_filter (query_answer qs) dl) = length (answered dl)"
  using assms
proof (induction dl)
  case (Cons ev dl)
  show ?case
  proof (cases ev)
    case (Timeout p i)
    with Cons.prems(2) obtain x where "x \<in> set qs" "fst x = i" by auto
    then have "(i, snd x) \<in> set qs" by auto
    then have "List.find (\<lambda>(j, _, _). j = i) qs \<noteq> None" by (cases "snd x") (auto simp: find_None_iff)
    with Cons Timeout show ?thesis by (auto simp: query_answer_def List.map_filter_simps)
  qed (use Cons in \<open>auto simp: query_answer_def List.map_filter_simps\<close>)
qed (simp add: List.map_filter_simps)

text \<open>The query client rests: the protocol has reported every request, no peer is being looked up, no command waits.\<close>

definition queries_at_rest ::
    "('lru, 'fm, 'bm, 'ns, 'err) libs \<Rightarrow> (query, query_result, 'cmd) rr \<Rightarrow> ('lru, 'fm, 'bm, 'ns, 'cmd) gateway \<Rightarrow> bool" where
  "queries_at_rest L rr s \<longleftrightarrow> (let w = gi_query (gw_inner s) in
     outstanding rr (cl_inner (wrapper w)) = {} \<and> fm_keys (l_timers L) (cl_lookup_timeouts (wrapper w)) = {} \<and> pending_events w = [])"

text \<open>The queries among the messages, with the peer and the ID; and the results among the events.\<close>

fun query_key :: "gateway_msg \<Rightarrow> (peer_id \<times> string) option" where
  "query_key (GmQuery p q) = map_option (Pair p) (q_query_id q)"
| "query_key (GmLog l) = None"

fun result_key :: "gateway_event \<Rightarrow> (peer_id \<times> string) option" where
  "result_key (GwQueryResult p r) = Some (p, qr_query_id r)"
| "result_key (GwPing p m) = None"

lemma query_key_queue: "List.map_filter query_key (on_queue gateway_queue ''queries'' ms) = List.map_filter query_key ms"
proof (induction ms)
  case (Cons m ms)
  then show ?case by (cases m) (simp_all add: List.map_filter_simps split: option.split)
qed simp

lemma result_key_reported:
  "List.map_filter result_key (List.map_filter generated cmds) =
     map (\<lambda>(p, r). (p, qr_query_id r)) (List.map_filter query_reported cmds)"
proof (induction cmds)
  case (Cons c cmds)
  then show ?case by (cases c rule: query_reported.cases) (simp_all add: List.map_filter_simps)
qed (simp add: List.map_filter_simps)

lemma query_accepted_key:
  "subseq (map snd (query_accepted L rr s p q)) (List.map_filter query_key [GmQuery p q])"
  by (auto simp: query_accepted_def List.map_filter_simps split: option.splits run.splits sum.splits)

text \<open>The behaviour inside the transport runs as in the section before: it accepts queries that the loop has served.\<close>

abbreviation gateway_works where
  "gateway_works L rr order conn \<equiv> \<lambda>s evs s'. \<exists>dl. gateway_polled L rr order conn s dl evs s'"

lemma gateway_trace_run:
  fixes b :: "(('lru, 'fm, 'bm, 'ns, 'cmd) gateway, gateway_event, 'cmd) wrapped"
  assumes "trace (behaves (gateway_handles L rr rrl) sw) (gateway_new L now b0 config) as b"
    and sw: "swarm_drives (gateway_works L rr order conn) sw"
  shows "\<exists>qs dl taken. gateway_run L rr order conn b0 config (wrapper b) qs dl (taken @ pending_events b) \<and>
    List.map_filter generated taken = offered as \<and> subseq (map snd qs) (List.map_filter query_key (served as))"
  using assms(1)
proof (induction "gateway_new L now b0 config :: (('lru, 'fm, 'bm, 'ns, 'cmd) gateway, gateway_event, 'cmd) wrapped" as b rule: trace.induct)
  case start
  have "gateway_run L rr order conn b0 config (wrapper (gateway_new L now b0 config)) [] [] ([] @ [])" using gateway_run.new by simp
  then show ?case by (intro exI [of _ "[]"]) (simp add: gateway_new_def Let_def wrapped_from_def List.map_filter_simps)
next
  case (act as b a b')
  then obtain qs dl taken where run: "gateway_run L rr order conn b0 config (wrapper b) qs dl (taken @ pending_events b)"
    and taken: "List.map_filter generated taken = offered as" and qs: "subseq (map snd qs) (List.map_filter query_key (served as))" by blast
  show ?case
  proof (cases a)
    case (Served m es)
    note h = act.hyps(3) [unfolded Served behaves_simps gateway_handles_def]
    show ?thesis
    proof (cases m)
      case (GmQuery p q)
      with h obtain g where g: "gateway_send_query L rr (wrapper b) p q = Done g" "b' = b\<lparr>wrapper := g\<rparr>" "es = []" by auto
      from gateway_run.send [OF run g(1)] g(2) have
        "gateway_run L rr order conn b0 config (wrapper b') (qs @ query_accepted L rr (wrapper b) p q) dl (taken @ pending_events b')" by simp
      moreover have "subseq (map snd (qs @ query_accepted L rr (wrapper b) p q)) (List.map_filter query_key (served (as @ [a])))"
        using list_emb_append_mono [OF qs query_accepted_key] by (simp add: Served GmQuery)
      ultimately show ?thesis using taken g(3) Served
        by (intro exI [of _ "qs @ query_accepted L rr (wrapper b) p q"] exI [of _ dl] exI [of _ taken]) simp
    next
      case (GmLog l)
      with h have "b' = deref_mut (\<lambda>g. gateway_send_log_msg rrl g l) b" "es = []" by auto
      with gateway_run.send_log [OF run, of rrl l] taken qs Served GmLog show ?thesis by (auto simp: List.map_filter_simps)
    qed
  next
    case (FromSwarm ev)
    with act.hyps(3) have "sw b b' ev" by simp
    with sw obtain out where out: "drives (gateway_works L rr order conn) b out b'"
      "List.map_filter generated out = (case ev of Behaviour e \<Rightarrow> [e] | OtherSwarmOut \<Rightarrow> [])" by (rule swarm_drivesE)
    have "\<exists>dl. gateway_run L rr order conn b0 config (wrapper b') qs dl (taken @ out @ pending_events b')"
      by (rule drives_invariant [OF out(1), where I = "\<lambda>s cs. \<exists>dl. gateway_run L rr order conn b0 config s qs dl (taken @ cs)"])
         (use run gateway_run.polled in \<open>force\<close>)+
    then obtain dl' where "gateway_run L rr order conn b0 config (wrapper b') qs dl' ((taken @ out) @ pending_events b')" by auto
    with out(2) taken qs FromSwarm show ?thesis by (intro exI [of _ qs] exI [of _ dl'] exI [of _ "taken @ out"]) simp
  qed (use act.hyps(3) run taken qs in auto)
qed

section \<open>Properties\<close>

text \<open>
  C9. Results belong to queries. In every run of the gateway, the accepted queries have distinct
  request identifiers, and the gateway remembers exactly those that have not been answered yet.
  The query client answers each at most once, for the peer it was sent to, and the
  gateway reports, in this order, one result for every answer: the response, if it carries
  the ID of that very query, and for a timeout a timeout result with the query's ID. Only a
  response with a wrong query ID is dropped.
\<close>

theorem gateway_query_results:
  assumes "gateway_run L rr order conn b0 config s qs dl out"
    and "rr_laws rr" and "futures_map_laws (l_timers L) cap" and "order_laws order"
  shows "distinct (map fst qs) \<and> distinct (map fst (answered dl)) \<and>
    set (answered dl) \<subseteq> (\<lambda>(i, p, q). (i, p)) ` set qs \<and>
    (\<forall>i q. fmlookup (gw_query_ids s) i = Some q \<longleftrightarrow> (\<exists>p. (i, p, q) \<in> set qs) \<and> i \<notin> fst ` set (answered dl)) \<and>
    List.map_filter query_reported out = List.map_filter (query_answer qs) dl"
proof -
  from gateway_run_inv [OF assms] obtain cmds where cd: "queries_delivered L rr order conn config (gi_query (gw_inner s)) qs cmds" "terminated cmds = answered dl"
    and r: "ids_ok qs dl (gw_query_ids s)" "List.map_filter query_reported out = List.map_filter (query_answer qs) dl"
    by (auto simp: gateway_inv_def)
  note acc = client_delivered_accounted [OF cd(1) assms(2-4), unfolded cd(2)]
  have "distinct (map fst qs)" using acc(1) by (simp add: case_prod_beta comp_def)
  with acc r show ?thesis by (simp add: ids_ok_def)
qed


text \<open>
  C11. The transport neither loses, repeats nor reorders what passes through it. In every history from its start,
  however the calls of the handle, the passes of the loop and the application interleave: on each queue, the messages that
  were served are, in order, the first ones of those that the handle accepted, and the others are still waiting; what the
  application received, followed by what waits for it, is a subsequence of the events of the swarm, and each event that is missing
  is counted as dropped; no queue holds more than its configured size; and the behaviour has done what it does when it is
  given the served messages at once.
\<close>

theorem gateway_delivery:
  assumes "gateway_start_transport Q flavor m b config = Done t0" and "trace (gateway_step L rrq rrl Q sw) t0 as t"
    and "gateway_channels Q iq cq il cl ie ce"
  shows "(\<forall>n. on_queue gateway_queue n (served as) @ gateway_queued iq il t n = on_queue gateway_queue n (submitted as)) \<and>
    subseq (received as @ ie (q_chan (gt_events t))) (offered as) \<and>
    dropped (gt_metrics t) ''events'' =
      dropped m ''events'' + of_nat (length (offered as) - length (received as @ ie (q_chan (gt_events t)))) \<and>
    gateway_fits config iq cq il cl ie ce t \<and>
    trace (behaves (gateway_handles L rrq rrl) sw) b as (gt_swarm t)"
proof -
  note start = gateway_started [OF assms(1,3)]
  note d = gateway_loop.delivery [OF assms(2,3) start(1-3)]
  have "q_name (gt_events t) = ''events''" using d(5) by (simp add: gateway_fits_def fits_def)
  with d start show ?thesis by simp
qed

text \<open>
  C2. What the application sees of its queries. Suppose that the swarm only drives the behaviour, and the laws of the
  libraries hold. Then, in every history of the transport, the results that the application receives can be matched with
  queries that it has submitted and the queue has taken: each result carries the peer and the ID of its own query,
  and no query gets two results.
\<close>

theorem gateway_results_match_queries:
  assumes "gateway_start_transport Q flavor m (gateway_new L now b0 config) config = Done t0" and "trace (gateway_step L rr rrl Q sw) t0 as t"
    and "gateway_channels Q iq cq il cl ie ce" and "swarm_drives (gateway_works L rr order conn) sw"
    and "rr_laws rr" and "futures_map_laws (l_timers L) cap" and "order_laws order"
  shows "mset (List.map_filter result_key (received as)) \<subseteq># mset (List.map_filter query_key (submitted as))"
proof -
  note start = gateway_started [OF assms(1,3)]
  note d = gateway_loop.delivery [OF assms(2,3) start(1-3)]
  from gateway_trace_run [OF d(4) [unfolded start(4)] assms(4)] obtain qs dl taken where
    run: "gateway_run L rr order conn b0 config (wrapper (gt_swarm t)) qs dl (taken @ pending_events (gt_swarm t))"
    and taken: "List.map_filter generated taken = offered as" and qs: "subseq (map snd qs) (List.map_filter query_key (served as))" by blast
  have "subseq (received as) (offered as)" using d(2) subseq_append_le subseq_order.order_trans by blast
  then have "mset (List.map_filter result_key (received as)) \<subseteq># mset (List.map_filter result_key (offered as))"
    by (rule subseq_mset [OF subseq_map_filter])
  also have "\<dots> \<subseteq># mset (map (\<lambda>(p, r). (p, qr_query_id r)) (List.map_filter query_reported (taken @ pending_events (gt_swarm t))))"
    by (simp add: taken [symmetric] result_key_reported)
  also have "\<dots> \<subseteq># mset (map snd qs)" by (rule gateway_reports_accepted [OF run assms(5-7)])
  also have "\<dots> \<subseteq># mset (List.map_filter query_key (served as))" by (rule subseq_mset [OF qs])
  also have "\<dots> \<subseteq># mset (List.map_filter query_key (submitted as))"
  proof -
    have "on_queue gateway_queue ''queries'' (submitted as) = on_queue gateway_queue ''queries'' (served as) @ gateway_queued iq il t ''queries''"
      using d(1) by simp
    then have "List.map_filter query_key (submitted as) =
        List.map_filter query_key (served as) @ List.map_filter query_key (gateway_queued iq il t ''queries'')"
      using query_key_queue [of "submitted as"] query_key_queue [of "served as"] by simp
    then show ?thesis by simp
  qed
  finally show ?thesis .
qed

text \<open>For the witness: a gateway that has sent one query, with request identifier 2.\<close>

definition demo_query :: query where
  "demo_query = \<lparr>q_query_id = Some ''q1'', q_dataset = None, q_query = None, q_profiling = None, q_client_state_json = None,
     q_signature = []\<rparr>"

definition demo_gateway ::
    "(peer_id \<Rightarrow> multiaddr set option, nat \<times> peer_id list, (query_id, peer_id) fmap, (unit + peer_id fset) list, unit) gateway" where
  "demo_gateway = wrapper (gateway_new demo_libs 0 demo_base (gateway_config_new (PeerId [9])))"

lemma demo_gateway_send:
  assumes "rr_id rr = length"
  shows "\<exists>s. gateway_send_query demo_libs rr demo_gateway (PeerId [7]) demo_query = Done s"
    and "query_accepted demo_libs rr demo_gateway (PeerId [7]) demo_query = [(2, PeerId [7], ''q1'')]"
proof -
  let ?b = "wrapper (gi_base (gw_inner demo_gateway))" and ?c = "wrapper (gi_query (gw_inner demo_gateway))"
  obtain q' where q': "base_sign demo_libs ?b (query_signed (l_protobuf demo_libs)) demo_query = Done q'"
    by (simp add: base_sign_def sign_def query_signed_def demo_libs_def demo_crypto_def)
  have c: "snd (client_try_send_request rr ?c (PeerId [7]) q') = Inr 2"
    by (simp add: demo_gateway_def gateway_new_def Let_def wrapped_from_def client_new_def client_try_send_request_def
        gateway_config_new_def client_config_default_def rr_send_request_def assms fcard.rep_eq)
  from q' show "\<exists>s. gateway_send_query demo_libs rr demo_gateway (PeerId [7]) demo_query = Done s"
    by (simp add: gateway_send_query_def demo_query_def Let_def case_prod_beta del: run_bind_eq_Done)
  from q' c show "query_accepted demo_libs rr demo_gateway (PeerId [7]) demo_query = [(2, PeerId [7], ''q1'')]"
    by (simp add: query_accepted_def demo_query_def)
qed

theorem gateway_query_results_witness:
  "\<exists>s. gateway_send_query demo_libs demo_rr demo_gateway (PeerId [7]) demo_query = Done s \<and>
     fmlookup (gw_query_ids s) 2 = Some ''q1''"
proof -
  from demo_gateway_send(1) [of demo_rr] obtain s where s: "gateway_send_query demo_libs demo_rr demo_gateway (PeerId [7]) demo_query = Done s" by (auto simp: demo_rr_def)
  let ?conn = "\<lambda>(_ :: (query, query_result) rr_call list) (_ :: unit conn_call). ()"
  have "gateway_run demo_libs demo_rr demo_order ?conn demo_base (gateway_config_new (PeerId [9])) demo_gateway [] [] []"
    unfolding demo_gateway_def by (rule gateway_run.new)
  from gateway_run.send [OF this s] have
    run: "gateway_run demo_libs demo_rr demo_order ?conn demo_base (gateway_config_new (PeerId [9])) s [(2, PeerId [7], ''q1'')] [] []"
    by (simp add: demo_gateway_send(2) demo_rr_def)
  from gateway_query_results [OF run demo_rr_laws demo_timers_laws_libs demo_order_laws] s show ?thesis by auto
qed

text \<open>
  For the witnesses of the transport: its queues, a protocol that answers the first request, and the most liberal swarm that
  drives the behaviour. The query is submitted, served and answered, and the application takes the result.
\<close>

type_synonym demo_gw =
  "((peer_id \<Rightarrow> multiaddr set option, nat \<times> peer_id list, (query_id, peer_id) fmap, (unit + peer_id fset) list, unit) gateway, gateway_event, unit) wrapped"

definition demo_gateway_queues ::
    "(nat \<times> (peer_id \<times> query) list, nat \<times> gateway_log_msg list, nat \<times> gateway_event list) gateway_queues" where
  "demo_gateway_queues = \<lparr>gq_queries = demo_mpsc, gq_logs = demo_mpsc, gq_events = demo_mpsc\<rparr>"

definition demo_result :: query_result where
  "demo_result = \<lparr>qr_query_id = ''q1'', qr_result = Some QR_NoAllocation\<rparr>"

definition demo_answer_rr :: "(query, query_result, unit) rr" where
  "demo_answer_rr = \<lparr>rr_id = length, rr_respond_ok = \<lambda>_. True,
     rr_poll_result = \<lambda>calls. case calls of
       [RrNew _ _ _ _, RrSend p r, RrPoll] \<Rightarrow> Ready (GenerateEvent (RrResponse p 2 demo_result)) | _ \<Rightarrow> Pending\<rparr>"

definition demo_conn :: "(query, query_result) rr_call list \<Rightarrow> unit conn_call \<Rightarrow> unit" where
  "demo_conn calls c = ()"

definition demo_gateway_swarm :: "demo_gw \<Rightarrow> demo_gw \<Rightarrow> gateway_event swarm_out \<Rightarrow> bool" where
  "demo_gateway_swarm b b' ev \<longleftrightarrow>
     (\<exists>out. drives (gateway_works demo_libs demo_answer_rr demo_order demo_conn) b out b' \<and>
        List.map_filter generated out = (case ev of Behaviour e \<Rightarrow> [e] | OtherSwarmOut \<Rightarrow> []))"

abbreviation demo_gateway_config :: gateway_config where
  "demo_gateway_config \<equiv> gateway_config_new (PeerId [9])"

abbreviation demo_gateway_step where
  "demo_gateway_step \<equiv> gateway_step demo_libs demo_answer_rr demo_rr demo_gateway_queues demo_gateway_swarm"

lemma demo_answer_laws: "rr_laws demo_answer_rr"
  by (rule first_poll_rr_laws) (auto simp: demo_answer_rr_def split: list.splits rr_call.splits)

lemma demo_gateway_drives: "swarm_drives (gateway_works demo_libs demo_answer_rr demo_order demo_conn) demo_gateway_swarm"
  by (simp add: swarm_drives_def demo_gateway_swarm_def)

lemma demo_gateway_channels: "gateway_channels demo_gateway_queues snd fst snd fst snd fst"
  by (simp add: gateway_channels_def demo_gateway_queues_def demo_mpsc_laws)

text \<open>A client that holds a response for its first request reports it when it is polled.\<close>

lemma client_reports_response:
  assumes "pending_events w = []" and "fm_poll fm now (cl_lookup_timeouts (wrapper w)) = (cl_lookup_timeouts (wrapper w), Pending)"
    and "rr_poll_result rr (cl_inner (wrapper w) @ [RrPoll]) = Ready (GenerateEvent (RrResponse p i r))"
    and "cl_resubmitted_requests (wrapper w) = fmempty"
  shows "\<exists>w'. wrapped_poll (client_wrapper rr fm order conn now) w = Some (Done (w', Ready (GenerateEvent (Response p i r)))) \<and>
    cl_inner (wrapper w') = cl_inner (wrapper w) @ [RrPoll] \<and> cl_lookup_timeouts (wrapper w') = cl_lookup_timeouts (wrapper w) \<and> pending_events w' = []"
  using assms
  by (subst wrapped_poll.simps, simp add: client_wrapper_def client_poll_def Let_def client_on_inner_event_def client_on_success_def)
     (subst wrapped_poll.simps, simp)

lemma demo_answer_sent:
  obtains g q' where "gateway_send_query demo_libs demo_answer_rr demo_gateway (PeerId [7]) demo_query = Done g"
    "fmlookup (gw_query_ids g) 2 = Some ''q1''" "pending_events (gi_query (gw_inner g)) = []"
    "cl_inner (wrapper (gi_query (gw_inner g))) = [RrNew (proto_codec_new max_query_size max_query_result_size) query_protocol Outbound
       (Some (cc_resp_timeout client_config_default)), RrSend (PeerId [7]) q']"
    "cl_resubmitted_requests (wrapper (gi_query (gw_inner g))) = fmempty"
    "fm_poll demo_timers 0 (cl_lookup_timeouts (wrapper (gi_query (gw_inner g)))) = (cl_lookup_timeouts (wrapper (gi_query (gw_inner g))), Pending)"
proof -
  let ?b = "wrapper (gi_base (gw_inner demo_gateway))"
  obtain q' where q': "base_sign demo_libs ?b (query_signed (l_protobuf demo_libs)) demo_query = Done q'"
    by (simp add: base_sign_def sign_def query_signed_def demo_libs_def demo_crypto_def)
  have t: "l_timers demo_libs = demo_timers" by (simp add: demo_libs_def)
  show thesis
    by (rule that [of _ q'], use q' in \<open>simp add: gateway_send_query_def demo_query_def Let_def case_prod_beta del: run_bind_eq_Done\<close>)
       (simp_all add: demo_gateway_def gateway_new_def Let_def wrapped_from_def client_new_def client_try_send_request_def t demo_timers_def
        gateway_config_new_def client_config_default_def rr_send_request_def demo_answer_rr_def fcard.rep_eq)
qed

lemma demo_gateway_answers:
  obtains g w s where "gateway_send_query demo_libs demo_answer_rr demo_gateway (PeerId [7]) demo_query = Done g"
    "wrapped_poll (client_wrapper demo_answer_rr (l_timers demo_libs) demo_order demo_conn 0) (gi_query (gw_inner g)) =
      Some (Done (w, Ready (GenerateEvent (Response (PeerId [7]) 2 demo_result))))"
    "gateway_on_inner_event demo_libs (set_query w g) (GiQuery (Response (PeerId [7]) 2 demo_result)) =
      (s, [GenerateEvent (GwQueryResult (PeerId [7]) demo_result)])" "queries_at_rest demo_libs demo_answer_rr s"
proof -
  obtain g q' where g: "gateway_send_query demo_libs demo_answer_rr demo_gateway (PeerId [7]) demo_query = Done g"
    "fmlookup (gw_query_ids g) 2 = Some ''q1''" "pending_events (gi_query (gw_inner g)) = []"
    "cl_inner (wrapper (gi_query (gw_inner g))) = [RrNew (proto_codec_new max_query_size max_query_result_size) query_protocol Outbound
       (Some (cc_resp_timeout client_config_default)), RrSend (PeerId [7]) q']"
    "cl_resubmitted_requests (wrapper (gi_query (gw_inner g))) = fmempty"
    "fm_poll demo_timers 0 (cl_lookup_timeouts (wrapper (gi_query (gw_inner g)))) = (cl_lookup_timeouts (wrapper (gi_query (gw_inner g))), Pending)"
    by (rule demo_answer_sent)
  have "rr_poll_result demo_answer_rr (cl_inner (wrapper (gi_query (gw_inner g))) @ [RrPoll]) =
      Ready (GenerateEvent (RrResponse (PeerId [7]) 2 demo_result))" by (simp add: g(4) demo_answer_rr_def)
  with client_reports_response [OF g(3,6) this g(5), of demo_order demo_conn] obtain w where
    w: "wrapped_poll (client_wrapper demo_answer_rr demo_timers demo_order demo_conn 0) (gi_query (gw_inner g)) =
      Some (Done (w, Ready (GenerateEvent (Response (PeerId [7]) 2 demo_result))))"
    and w': "cl_inner (wrapper w) = cl_inner (wrapper (gi_query (gw_inner g))) @ [RrPoll]"
      "cl_lookup_timeouts (wrapper w) = cl_lookup_timeouts (wrapper (gi_query (gw_inner g)))" "pending_events w = []"
    by blast
  have t: "l_timers demo_libs = demo_timers" by (simp add: demo_libs_def)
  define s where "s = (set_query w g)\<lparr>gw_query_ids := fmdrop 2 (gw_query_ids g)\<rparr>"
  have s: "gateway_on_inner_event demo_libs (set_query w g) (GiQuery (Response (PeerId [7]) 2 demo_result)) =
      (s, [GenerateEvent (GwQueryResult (PeerId [7]) demo_result)])" "gi_query (gw_inner s) = w"
    by (simp_all add: gateway_on_inner_event_def gateway_on_query_event_def gateway_on_query_result_def g(2) demo_result_def Let_def s_def)
  obtain codec protocol timeout where
    "cl_inner (wrapper w) = ([RrNew codec protocol Outbound timeout] @ [RrSend (PeerId [7]) q']) @ [RrPoll]" using w'(1) g(4) by simp
  then have "outstanding demo_answer_rr (cl_inner (wrapper w)) = {}"
    by (simp only: outstanding_def sent_snoc reported_snoc) (simp add: demo_answer_rr_def)
  moreover have "fm_keys (l_timers demo_libs) (cl_lookup_timeouts (wrapper w)) = {}"
    using g(6) by (cases "snd (cl_lookup_timeouts (wrapper (gi_query (gw_inner g))))") (simp_all add: w'(2) t demo_timers_def fm_keys_def)
  ultimately have "queries_at_rest demo_libs demo_answer_rr s" by (simp add: queries_at_rest_def Let_def s(2) w'(3))
  with g(1) w s(1) show thesis by (intro that) (simp_all add: t)
qed

lemma demo_gateway_works:
  "\<exists>g s. gateway_send_query demo_libs demo_answer_rr demo_gateway (PeerId [7]) demo_query = Done g \<and>
     gateway_works demo_libs demo_answer_rr demo_order demo_conn g [GenerateEvent (GwQueryResult (PeerId [7]) demo_result)] s"
  by (rule demo_gateway_answers) (blast intro: gateway_polled.query_event)


lemma demo_gateway_history:
  "\<exists>t0 as t. gateway_start_transport demo_gateway_queues (Some MultiThread) metrics_init
       (gateway_new demo_libs 0 demo_base demo_gateway_config) demo_gateway_config = Done t0 \<and>
     trace demo_gateway_step t0 as t \<and> submitted as = [GmQuery (PeerId [7]) demo_query] \<and>
     received as = [GwQueryResult (PeerId [7]) demo_result]"
proof -
  let ?b = "gateway_new demo_libs 0 demo_base demo_gateway_config :: demo_gw"
  let ?r = "GwQueryResult (PeerId [7]) demo_result" and ?Q = demo_gateway_queues
  obtain t0 where t0: "gateway_start_transport ?Q (Some MultiThread) metrics_init ?b demo_gateway_config = Done t0"
    by (simp add: gateway_start_transport_def spawn_transport_def task_manager_new_def task_manager_spawn_def)
  have f0: "gt_swarm t0 = ?b" "q_chan (gt_queries t0) = (100, [])" "q_chan (gt_events t0) = (100, [])"
    using t0 by (auto simp: gateway_start_transport_def new_queue_def demo_gateway_queues_def demo_mpsc_def gateway_config_new_def)
  obtain g s where g: "gateway_send_query demo_libs demo_answer_rr (wrapper ?b) (PeerId [7]) demo_query = Done g"
    and s: "gateway_works demo_libs demo_answer_rr demo_order demo_conn g [GenerateEvent ?r] s"
    using demo_gateway_works unfolding demo_gateway_def by blast
  obtain t1 where t1: "gateway_handle_send_query ?Q t0 (PeerId [7]) demo_query = (t1, Inr ())"
    and f1: "gt_swarm t1 = ?b" "q_chan (gt_queries t1) = (100, [(PeerId [7], demo_query)])" "q_chan (gt_events t1) = (100, [])"
    by (simp add: gateway_handle_send_query_def queue_try_send_def f0 demo_gateway_queues_def demo_mpsc_def)
  define t2 where "t2 = t1\<lparr>gt_queries := (gt_queries t1)\<lparr>q_chan := (100, [])\<rparr>,
    gt_metrics := dec_queue_size (q_name (gt_queries t1)) (gt_metrics t1), gt_swarm := ?b\<lparr>wrapper := g\<rparr>\<rparr>"
  have 1: "demo_gateway_step t0 (Submitted (GmQuery (PeerId [7]) demo_query) True) t1" using gateway_step.send_query [OF t1] by simp
  have recv: "queue_recv (gq_queries ?Q) (gt_queries t1) (gt_metrics t1) =
      ((gt_queries t1)\<lparr>q_chan := (100, [])\<rparr>, dec_queue_size (q_name (gt_queries t1)) (gt_metrics t1), Ready (Some (PeerId [7], demo_query)))"
    by (simp add: queue_recv_def f1 demo_gateway_queues_def demo_mpsc_def)
  have 2: "demo_gateway_step t1 (Served (GmQuery (PeerId [7]) demo_query) []) t2"
    using gateway_pass.queries [OF recv, of demo_libs demo_answer_rr demo_rr demo_gateway_swarm]
    by (intro gateway_step.pass) (simp add: f1(1) g t2_def del: run_bind_eq_Done)
  let ?b1 = "?b\<lparr>wrapper := s, pending_events := [GenerateEvent ?r]\<rparr>"
  have "drives (gateway_works demo_libs demo_answer_rr demo_order demo_conn) (?b\<lparr>wrapper := g\<rparr>) [] ?b1"
    using drives.work [OF drives.nothing, of "gateway_works demo_libs demo_answer_rr demo_order demo_conn" "?b\<lparr>wrapper := g\<rparr>"] s
    by (simp add: gateway_new_def Let_def wrapped_from_def)
  from drives.take [OF this, of "GenerateEvent ?r" "[]"]
  have sw: "demo_gateway_swarm (gt_swarm t2) (?b1\<lparr>pending_events := []\<rparr>) (Behaviour ?r)"
    by (auto simp: demo_gateway_swarm_def t2_def List.map_filter_simps intro!: exI [of _ "[GenerateEvent ?r]"])
  define t3 where "t3 = gateway_on_swarm_event ?Q (t2\<lparr>gt_swarm := ?b1\<lparr>pending_events := []\<rparr>\<rparr>) (Behaviour ?r)"
  have 3: "demo_gateway_step t2 (FromSwarm (Behaviour ?r)) t3"
    unfolding t3_def by (rule gateway_step.pass, rule gateway_pass.swarm, rule sw)
  have f3: "q_chan (gt_events t3) = (100, [?r])"
    by (simp add: t3_def t2_def gateway_on_swarm_event_def forward_event_def queue_send_lossy_def queue_try_send_def f1
        demo_gateway_queues_def demo_mpsc_def)
  have "\<exists>t4. demo_gateway_step t3 (Received ?r) t4"
    by (rule exI, rule gateway_step.event) (simp add: queue_recv_def f3 demo_gateway_queues_def demo_mpsc_def)
  then obtain t4 where 4: "demo_gateway_step t3 (Received ?r) t4" ..
  note tr = trace.act [OF trace.act [OF trace.act [OF trace.act [OF trace.start [of demo_gateway_step t0] 1] 2] 3] 4]
  show ?thesis by (rule exI, rule exI, rule exI, rule conjI, rule t0, rule conjI, rule tr)
       (simp add: submitted_def received_def List.map_filter_simps)
qed

theorem gateway_delivery_witness:
  "\<exists>t0 as t. trace demo_gateway_step t0 as t \<and> submitted as = [GmQuery (PeerId [7]) demo_query] \<and>
     on_queue gateway_queue ''queries'' (served as) @ gateway_queued snd snd t ''queries'' = [GmQuery (PeerId [7]) demo_query] \<and>
     subseq [GwQueryResult (PeerId [7]) demo_result] (offered as)"
proof -
  from demo_gateway_history obtain t0 as t where
    h: "gateway_start_transport demo_gateway_queues (Some MultiThread) metrics_init (gateway_new demo_libs 0 demo_base demo_gateway_config) demo_gateway_config = Done t0"
      "trace demo_gateway_step t0 as t" "submitted as = [GmQuery (PeerId [7]) demo_query]" "received as = [GwQueryResult (PeerId [7]) demo_result]"
    by blast
  note d = gateway_delivery [OF h(1,2) demo_gateway_channels]
  have "on_queue gateway_queue ''queries'' (served as) @ gateway_queued snd snd t ''queries'' = [GmQuery (PeerId [7]) demo_query]"
    using d [THEN conjunct1, rule_format, of "''queries''"] h(3) by simp
  moreover have "subseq [GwQueryResult (PeerId [7]) demo_result] (offered as)"
    using subseq_order.order_trans [OF subseq_append_le d [THEN conjunct2, THEN conjunct1]] h(4) by simp
  ultimately show ?thesis using h by blast
qed

theorem gateway_results_match_queries_witness:
  "\<exists>t0 as t. trace demo_gateway_step t0 as t \<and> List.map_filter result_key (received as) = [(PeerId [7], ''q1'')] \<and>
     {#(PeerId [7], ''q1'')#} \<subseteq># mset (List.map_filter query_key (submitted as))"
proof -
  from demo_gateway_history obtain t0 as t where
    h: "gateway_start_transport demo_gateway_queues (Some MultiThread) metrics_init (gateway_new demo_libs 0 demo_base demo_gateway_config) demo_gateway_config = Done t0"
      "trace demo_gateway_step t0 as t" "received as = [GwQueryResult (PeerId [7]) demo_result]"
    by blast
  have k: "List.map_filter result_key (received as) = [(PeerId [7], ''q1'')]" by (simp add: h(3) List.map_filter_simps demo_result_def)
  from gateway_results_match_queries [OF h(1,2) demo_gateway_channels demo_gateway_drives demo_answer_laws demo_timers_laws_libs demo_order_laws] k
  have "{#(PeerId [7], ''q1'')#} \<subseteq># mset (List.map_filter query_key (submitted as))" by simp
  with h(2) k show ?thesis by blast
qed

end
