(* ===== verification/Worker.thy ===== *)
theory Worker
  imports Transport_Loop
begin

text \<open>
  The worker (transport/src/actors/worker.rs): it receives signed queries and answers
  them on the response channel of the request, publishes pings and query logs, and receives
  pongs from the scheduler and acknowledgements of its logs from the logs collector.
\<close>

section \<open>The behaviour\<close>

datatype worker_event =
    WkPong pong
  | WkQuery peer_id query
  | WkLogsCollected "u64 option"

record ('lru, 'fm, 'bm, 'ns, 'cmd) worker_inner =
  wi_base :: "(('lru, 'fm, 'bm, 'ns) base, base_event, 'cmd) wrapped"
  wi_pong :: "((pong, u32) server, pong request, 'cmd) wrapped"
  wi_query :: "((query, query_result) server, query request, 'cmd) wrapped"

datatype worker_inner_event =
    WiBase base_event
  | WiPong "pong request"
  | WiQuery "query request"

record worker_config =
  wc_scheduler_id :: peer_id
  wc_logs_collector_id :: peer_id
  wc_max_pong_size :: u64
  wc_max_query_size :: u64
  wc_max_query_result_size :: u64
  wc_pings_queue_size :: nat
  wc_query_results_queue_size :: nat
  wc_logs_queue_size :: nat
  wc_events_queue_size :: nat
  wc_shutdown_timeout :: nat

definition worker_config_new :: "peer_id \<Rightarrow> peer_id \<Rightarrow> worker_config" where
  "worker_config_new scheduler_id logs_collector_id =
     \<lparr>wc_scheduler_id = scheduler_id, wc_logs_collector_id = logs_collector_id, wc_max_pong_size = max_pong_size,
      wc_max_query_size = max_query_size, wc_max_query_result_size = max_query_result_size, wc_pings_queue_size = 100,
      wc_query_results_queue_size = 100, wc_logs_queue_size = 100, wc_events_queue_size = 100,
      wc_shutdown_timeout = default_shutdown_timeout\<rparr>"

record ('lru, 'fm, 'bm, 'ns, 'cmd) worker_behaviour =
  wb_inner :: "('lru, 'fm, 'bm, 'ns, 'cmd) worker_inner"
  wb_local_peer_id :: string
  wb_scheduler_id :: peer_id
  wb_logs_collector_id :: peer_id
  wb_query_response_channels :: "(string, resp_chan) fmap"

definition worker_behaviour_new ::
    "('lru, 'fm, 'bm, 'ns, 'err) libs \<Rightarrow> nat \<Rightarrow> ('lru, 'fm, 'bm, 'ns) base \<Rightarrow> peer_id \<Rightarrow> worker_config \<Rightarrow>
     (('lru, 'fm, 'bm, 'ns, 'cmd) worker_behaviour, worker_event, 'cmd) wrapped" where
  "worker_behaviour_new L now base local_peer_id config =
     (let base = base_subscribe_pings L now base;
          base = base_subscribe_worker_logs L now base;
          base = base_subscribe_logs_collected L now base;
          base = base_allow_peer base (wc_logs_collector_id config);
          base = base_allow_peer base (wc_scheduler_id config) in
      wrapped_from
        \<lparr>wb_inner = \<lparr>wi_base = wrapped_from base,
           wi_pong = wrapped_from (server_new (proto_codec_new (wc_max_pong_size config) ack_size) pong_protocol),
           wi_query = wrapped_from (server_new
             (proto_codec_new (wc_max_query_size config) (wc_max_query_result_size config)) query_protocol)\<rparr>,
         wb_local_peer_id = peer_to_base58 (l_crypto L) local_peer_id,
         wb_scheduler_id = wc_scheduler_id config, wb_logs_collector_id = wc_logs_collector_id config,
         wb_query_response_channels = fmempty\<rparr>)"

definition worker_on_logs_collected ::
    "('lru, 'fm, 'bm, 'ns, 'cmd) worker_behaviour \<Rightarrow> peer_id \<Rightarrow> logs_collected \<Rightarrow> worker_event option" where
  "worker_on_logs_collected self peer_id msg =
     (if peer_id \<noteq> wb_logs_collector_id self then None
      else Some (WkLogsCollected (fmlookup (sequence_numbers msg) (wb_local_peer_id self))))"

definition worker_on_base_event ::
    "('lru, 'fm, 'bm, 'ns, 'cmd) worker_behaviour \<Rightarrow> base_event \<Rightarrow> worker_event option" where
  "worker_on_base_event self ev =
     (case ev of EvLogsCollected peer_id msg \<Rightarrow> worker_on_logs_collected self peer_id msg | _ \<Rightarrow> None)"

definition worker_on_query ::
    "('lru, 'fm, 'bm, 'ns, 'err) libs \<Rightarrow> ('lru, 'fm, 'bm, 'ns, 'cmd) worker_behaviour \<Rightarrow> peer_id \<Rightarrow> query \<Rightarrow> resp_chan option \<Rightarrow>
     (('lru, 'fm, 'bm, 'ns, 'cmd) worker_behaviour \<times> worker_event option) run" where
  "worker_on_query L self peer_id q resp_chan =
     run_bind (verify_signature (l_crypto L) (query_signed (l_protobuf L)) peer_id q) (\<lambda>(ok, q).
       Done (if \<not> ok then (self, None)
             else case q_query_id q of
                    None \<Rightarrow> (self, None)
                  | Some query_id \<Rightarrow>
                      (case resp_chan of
                         Some ch \<Rightarrow> self\<lparr>wb_query_response_channels := fmupd query_id ch (wb_query_response_channels self)\<rparr>
                       | None \<Rightarrow> self,
                       Some (WkQuery peer_id q))))"

text \<open>The acknowledgement of a pong is 1; whether it could be sent is ignored.\<close>

definition worker_on_pong_event ::
    "(pong, u32, 'cmd) rr \<Rightarrow> ('lru, 'fm, 'bm, 'ns, 'cmd) worker_behaviour \<Rightarrow> pong request \<Rightarrow>
     ('lru, 'fm, 'bm, 'ns, 'cmd) worker_behaviour \<times> worker_event option" where
  "worker_on_pong_event rr self rq =
     (if rq_peer_id rq \<noteq> wb_scheduler_id self then (self, None)
      else (self\<lparr>wb_inner := (wb_inner self)\<lparr>wi_pong :=
              deref_mut (\<lambda>s. fst (server_try_send_response rr s (rq_response_channel rq) 1)) (wi_pong (wb_inner self))\<rparr>\<rparr>,
            Some (WkPong (rq_request rq))))"

definition worker_send_ping ::
    "('lru, 'fm, 'bm, 'ns, 'err) libs \<Rightarrow> nat \<Rightarrow> ('lru, 'fm, 'bm, 'ns, 'cmd) worker_behaviour \<Rightarrow> ping \<Rightarrow>
     ('lru, 'fm, 'bm, 'ns, 'cmd) worker_behaviour run" where
  "worker_send_ping L now self p =
     run_bind (base_publish_ping L now (wrapper (wi_base (wb_inner self))) p) (\<lambda>b.
       Done (self\<lparr>wb_inner := (wb_inner self)\<lparr>wi_base := (wi_base (wb_inner self))\<lparr>wrapper := b\<rparr>\<rparr>\<rparr>))"

definition worker_send_query_result ::
    "(query, query_result, 'cmd) rr \<Rightarrow> ('lru, 'fm, 'bm, 'ns, 'cmd) worker_behaviour \<Rightarrow> query_result \<Rightarrow>
     ('lru, 'fm, 'bm, 'ns, 'cmd) worker_behaviour" where
  "worker_send_query_result rr self result =
     (case fmlookup (wb_query_response_channels self) (qr_query_id result) of
        None \<Rightarrow> self
      | Some resp_chan \<Rightarrow>
          self\<lparr>wb_query_response_channels := fmdrop (qr_query_id result) (wb_query_response_channels self),
               wb_inner := (wb_inner self)\<lparr>wi_query :=
                 deref_mut (\<lambda>s. fst (server_try_send_response rr s resp_chan result)) (wi_query (wb_inner self))\<rparr>\<rparr>)"

definition worker_send_logs ::
    "('lru, 'fm, 'bm, 'ns, 'err) libs \<Rightarrow> nat \<Rightarrow> ('lru, 'fm, 'bm, 'ns, 'cmd) worker_behaviour \<Rightarrow> query_executed list \<Rightarrow>
     ('lru, 'fm, 'bm, 'ns, 'cmd) worker_behaviour run" where
  "worker_send_logs L now self logs =
     run_bind (base_publish_worker_logs L now (wrapper (wi_base (wb_inner self))) logs) (\<lambda>b.
       Done (self\<lparr>wb_inner := (wb_inner self)\<lparr>wi_base := (wi_base (wb_inner self))\<lparr>wrapper := b\<rparr>\<rparr>\<rparr>))"

definition worker_on_inner_event ::
    "('lru, 'fm, 'bm, 'ns, 'err) libs \<Rightarrow> (pong, u32, 'cmd) rr \<Rightarrow> ('lru, 'fm, 'bm, 'ns, 'cmd) worker_behaviour \<Rightarrow>
     worker_inner_event \<Rightarrow> (('lru, 'fm, 'bm, 'ns, 'cmd) worker_behaviour \<times> (worker_event, 'cmd) to_swarm list) run" where
  "worker_on_inner_event L rrp self ev =
     run_bind (case ev of
          WiBase ev \<Rightarrow> Done (self, worker_on_base_event self ev)
        | WiPong rq \<Rightarrow> Done (worker_on_pong_event rrp self rq)
        | WiQuery rq \<Rightarrow> worker_on_query L self (rq_peer_id rq) (rq_request rq) (Some (rq_response_channel rq)))
       (\<lambda>(self, ev). Done (self, case ev of Some e \<Rightarrow> [GenerateEvent e] | None \<Rightarrow> []))"

section \<open>The transport and its handle\<close>

record ('b, 'cp, 'cr, 'cl, 'ce) worker_transport =
  wt_swarm :: 'b
  wt_pings :: "'cp queue"
  wt_query_results :: "'cr queue"
  wt_logs :: "'cl queue"
  wt_events :: "'ce queue"
  wt_metrics :: metrics
  wt_task_manager :: "unit task_manager"

record ('cp, 'cr, 'cl, 'ce) worker_queues =
  wq_pings :: "('cp, ping) mpsc"
  wq_query_results :: "('cr, query_result) mpsc"
  wq_logs :: "('cl, query_executed list) mpsc"
  wq_events :: "('ce, worker_event) mpsc"

text \<open>The handle is made last, from the queues and the transport, with the task that runs the transport.\<close>

definition worker_handle_new ::
    "runtime_flavor option \<Rightarrow> metrics \<Rightarrow> 'b \<Rightarrow> 'cp queue \<Rightarrow> 'cr queue \<Rightarrow> 'cl queue \<Rightarrow> 'ce queue \<Rightarrow> nat \<Rightarrow>
     ('b, 'cp, 'cr, 'cl, 'ce) worker_transport run" where
  "worker_handle_new flavor m swarm pings query_results logs events shutdown_timeout =
     run_bind (spawn_transport flavor shutdown_timeout) (\<lambda>tm.
       Done \<lparr>wt_swarm = swarm, wt_pings = pings, wt_query_results = query_results, wt_logs = logs, wt_events = events,
             wt_metrics = m, wt_task_manager = tm\<rparr>)"

definition worker_start_transport ::
    "('cp, 'cr, 'cl, 'ce) worker_queues \<Rightarrow> runtime_flavor option \<Rightarrow> metrics \<Rightarrow> 'b \<Rightarrow> worker_config \<Rightarrow>
     ('b, 'cp, 'cr, 'cl, 'ce) worker_transport run" where
  "worker_start_transport Q flavor m swarm config =
     worker_handle_new flavor m swarm
       (new_queue (wq_pings Q) (wc_pings_queue_size config) ''pings'')
       (new_queue (wq_query_results Q) (wc_query_results_queue_size config) ''query_results'')
       (new_queue (wq_logs Q) (wc_logs_queue_size config) ''logs'')
       (new_queue (wq_events Q) (wc_events_queue_size config) ''events'')
       (wc_shutdown_timeout config)"

declare worker_handle_new_def [simp]

definition worker_handle_send_ping ::
    "('cp, 'cr, 'cl, 'ce) worker_queues \<Rightarrow> ('b, 'cp, 'cr, 'cl, 'ce) worker_transport \<Rightarrow> ping \<Rightarrow>
     ('b, 'cp, 'cr, 'cl, 'ce) worker_transport \<times> (queue_full + unit)" where
  "worker_handle_send_ping Q self p =
     (let (c, m, r) = queue_try_send (wq_pings Q) (wt_pings self) (wt_metrics self) p in
      (self\<lparr>wt_pings := c, wt_metrics := m\<rparr>, r))"

definition worker_handle_send_query_result ::
    "('cp, 'cr, 'cl, 'ce) worker_queues \<Rightarrow> ('b, 'cp, 'cr, 'cl, 'ce) worker_transport \<Rightarrow> query_result \<Rightarrow>
     ('b, 'cp, 'cr, 'cl, 'ce) worker_transport \<times> (queue_full + unit)" where
  "worker_handle_send_query_result Q self result =
     (let (c, m, r) = queue_try_send (wq_query_results Q) (wt_query_results self) (wt_metrics self) result in
      (self\<lparr>wt_query_results := c, wt_metrics := m\<rparr>, r))"

definition worker_handle_send_logs ::
    "('cp, 'cr, 'cl, 'ce) worker_queues \<Rightarrow> ('b, 'cp, 'cr, 'cl, 'ce) worker_transport \<Rightarrow> query_executed list \<Rightarrow>
     ('b, 'cp, 'cr, 'cl, 'ce) worker_transport \<times> (queue_full + unit)" where
  "worker_handle_send_logs Q self logs =
     (let (c, m, r) = queue_try_send (wq_logs Q) (wt_logs self) (wt_metrics self) logs in
      (self\<lparr>wt_logs := c, wt_metrics := m\<rparr>, r))"

definition worker_on_swarm_event ::
    "('cp, 'cr, 'cl, 'ce) worker_queues \<Rightarrow> ('b, 'cp, 'cr, 'cl, 'ce) worker_transport \<Rightarrow> worker_event swarm_out \<Rightarrow>
     ('b, 'cp, 'cr, 'cl, 'ce) worker_transport" where
  "worker_on_swarm_event Q self ev =
     (let (c, m) = forward_event (wq_events Q) (wt_events self) (wt_metrics self) ev in
      self\<lparr>wt_events := c, wt_metrics := m\<rparr>)"

text \<open>One pass of the loop of \<open>run\<close> at time \<open>now\<close>; \<open>None\<close> is the end of the loop.\<close>

datatype worker_msg = WmPing ping | WmResult query_result | WmLogs "query_executed list"

inductive worker_pass ::
    "('lru, 'fm, 'bm, 'ns, 'err) libs \<Rightarrow> nat \<Rightarrow> (query, query_result, 'cmd) rr \<Rightarrow> ('cp, 'cr, 'cl, 'ce) worker_queues \<Rightarrow>
     ((('lru, 'fm, 'bm, 'ns, 'cmd) worker_behaviour, worker_event, 'cmd) wrapped \<Rightarrow> (('lru, 'fm, 'bm, 'ns, 'cmd) worker_behaviour, worker_event, 'cmd) wrapped \<Rightarrow> worker_event swarm_out \<Rightarrow> bool) \<Rightarrow>
     ((('lru, 'fm, 'bm, 'ns, 'cmd) worker_behaviour, worker_event, 'cmd) wrapped, 'cp, 'cr, 'cl, 'ce) worker_transport \<Rightarrow> (worker_msg, worker_event) act \<Rightarrow>
     ((('lru, 'fm, 'bm, 'ns, 'cmd) worker_behaviour, worker_event, 'cmd) wrapped, 'cp, 'cr, 'cl, 'ce) worker_transport option run \<Rightarrow> bool"
  for L now rrq Q sw where
  cancelled: "tm_cancel_token (wt_task_manager t) \<Longrightarrow> worker_pass L now rrq Q sw t Stopped (Done None)"
| swarm: "sw (wt_swarm t) b ev \<Longrightarrow>
    worker_pass L now rrq Q sw t (FromSwarm ev) (Done (Some (worker_on_swarm_event Q (t\<lparr>wt_swarm := b\<rparr>) ev)))"
| pings: "queue_recv (wq_pings Q) (wt_pings t) (wt_metrics t) = (c, m, Ready (Some p)) \<Longrightarrow>
    worker_pass L now rrq Q sw t (Served (WmPing p) [])
      (run_bind (worker_send_ping L now (wrapper (wt_swarm t)) p) (\<lambda>w.
         Done (Some (t\<lparr>wt_pings := c, wt_metrics := m, wt_swarm := (wt_swarm t)\<lparr>wrapper := w\<rparr>\<rparr>))))"
| query_results: "queue_recv (wq_query_results Q) (wt_query_results t) (wt_metrics t) = (c, m, Ready (Some res)) \<Longrightarrow>
    worker_pass L now rrq Q sw t (Served (WmResult res) [])
      (Done (Some (t\<lparr>wt_query_results := c, wt_metrics := m, wt_swarm := deref_mut (\<lambda>w. worker_send_query_result rrq w res) (wt_swarm t)\<rparr>)))"
| logs: "queue_recv (wq_logs Q) (wt_logs t) (wt_metrics t) = (c, m, Ready (Some ls)) \<Longrightarrow>
    worker_pass L now rrq Q sw t (Served (WmLogs ls) [])
      (run_bind (worker_send_logs L now (wrapper (wt_swarm t)) ls) (\<lambda>w.
         Done (Some (t\<lparr>wt_logs := c, wt_metrics := m, wt_swarm := (wt_swarm t)\<lparr>wrapper := w\<rparr>\<rparr>))))"

text \<open>The transport together with the application.\<close>

inductive worker_step ::
    "('lru, 'fm, 'bm, 'ns, 'err) libs \<Rightarrow> (query, query_result, 'cmd) rr \<Rightarrow> ('cp, 'cr, 'cl, 'ce) worker_queues \<Rightarrow>
     ((('lru, 'fm, 'bm, 'ns, 'cmd) worker_behaviour, worker_event, 'cmd) wrapped \<Rightarrow> (('lru, 'fm, 'bm, 'ns, 'cmd) worker_behaviour, worker_event, 'cmd) wrapped \<Rightarrow> worker_event swarm_out \<Rightarrow> bool) \<Rightarrow>
     ((('lru, 'fm, 'bm, 'ns, 'cmd) worker_behaviour, worker_event, 'cmd) wrapped, 'cp, 'cr, 'cl, 'ce) worker_transport \<Rightarrow> (worker_msg, worker_event) act \<Rightarrow>
     ((('lru, 'fm, 'bm, 'ns, 'cmd) worker_behaviour, worker_event, 'cmd) wrapped, 'cp, 'cr, 'cl, 'ce) worker_transport \<Rightarrow> bool"
  for L rrq Q sw where
  send_ping: "worker_handle_send_ping Q t p = (t', r) \<Longrightarrow> worker_step L rrq Q sw t (Submitted (WmPing p) (r = Inr ())) t'"
| send_query_result: "worker_handle_send_query_result Q t res = (t', r) \<Longrightarrow>
    worker_step L rrq Q sw t (Submitted (WmResult res) (r = Inr ())) t'"
| send_logs: "worker_handle_send_logs Q t ls = (t', r) \<Longrightarrow> worker_step L rrq Q sw t (Submitted (WmLogs ls) (r = Inr ())) t'"
| pass: "worker_pass L now rrq Q sw t a (Done (Some t')) \<Longrightarrow> worker_step L rrq Q sw t a t'"
| event: "queue_recv (wq_events Q) (wt_events t) (wt_metrics t) = (c, m, Ready (Some e)) \<Longrightarrow>
    worker_step L rrq Q sw t (Received e) (t\<lparr>wt_events := c, wt_metrics := m\<rparr>)"

fun worker_queue :: "worker_msg \<Rightarrow> string" where
  "worker_queue (WmPing p) = ''pings''"
| "worker_queue (WmResult res) = ''query_results''"
| "worker_queue (WmLogs ls) = ''logs''"

definition worker_queued ::
    "('cp \<Rightarrow> ping list) \<Rightarrow> ('cr \<Rightarrow> query_result list) \<Rightarrow> ('cl \<Rightarrow> query_executed list list) \<Rightarrow>
     ('b, 'cp, 'cr, 'cl, 'ce) worker_transport \<Rightarrow> string \<Rightarrow> worker_msg list" where
  "worker_queued ip ir il t n =
     (if n = ''pings'' then map WmPing (ip (q_chan (wt_pings t)))
      else if n = ''query_results'' then map WmResult (ir (q_chan (wt_query_results t)))
      else if n = ''logs'' then map WmLogs (il (q_chan (wt_logs t))) else [])"

definition worker_fits ::
    "worker_config \<Rightarrow> ('cp \<Rightarrow> ping list) \<Rightarrow> ('cp \<Rightarrow> nat) \<Rightarrow> ('cr \<Rightarrow> query_result list) \<Rightarrow> ('cr \<Rightarrow> nat) \<Rightarrow>
     ('cl \<Rightarrow> query_executed list list) \<Rightarrow> ('cl \<Rightarrow> nat) \<Rightarrow> ('ce \<Rightarrow> worker_event list) \<Rightarrow> ('ce \<Rightarrow> nat) \<Rightarrow>
     ('b, 'cp, 'cr, 'cl, 'ce) worker_transport \<Rightarrow> bool" where
  "worker_fits config ip cp ir cr il cl ie ce t \<longleftrightarrow> fits ip cp (wc_pings_queue_size config) ''pings'' (wt_pings t) \<and>
     fits ir cr (wc_query_results_queue_size config) ''query_results'' (wt_query_results t) \<and>
     fits il cl (wc_logs_queue_size config) ''logs'' (wt_logs t) \<and> fits ie ce (wc_events_queue_size config) ''events'' (wt_events t)"

definition worker_channels ::
    "('cp, 'cr, 'cl, 'ce) worker_queues \<Rightarrow> ('cp \<Rightarrow> ping list) \<Rightarrow> ('cp \<Rightarrow> nat) \<Rightarrow> ('cr \<Rightarrow> query_result list) \<Rightarrow> ('cr \<Rightarrow> nat) \<Rightarrow>
     ('cl \<Rightarrow> query_executed list list) \<Rightarrow> ('cl \<Rightarrow> nat) \<Rightarrow> ('ce \<Rightarrow> worker_event list) \<Rightarrow> ('ce \<Rightarrow> nat) \<Rightarrow> bool" where
  "worker_channels Q ip cp ir cr il cl ie ce \<longleftrightarrow> mpsc_laws (wq_pings Q) ip cp \<and> mpsc_laws (wq_query_results Q) ir cr \<and>
     mpsc_laws (wq_logs Q) il cl \<and> mpsc_laws (wq_events Q) ie ce"

definition worker_handles ::
    "('lru, 'fm, 'bm, 'ns, 'err) libs \<Rightarrow> (query, query_result, 'cmd) rr \<Rightarrow> worker_msg \<Rightarrow>
     (('lru, 'fm, 'bm, 'ns, 'cmd) worker_behaviour, worker_event, 'cmd) wrapped \<Rightarrow> (('lru, 'fm, 'bm, 'ns, 'cmd) worker_behaviour, worker_event, 'cmd) wrapped \<Rightarrow> worker_event list \<Rightarrow> bool" where
  "worker_handles L rrq msg b b' es \<longleftrightarrow> es = [] \<and>
     (case msg of
        WmPing p \<Rightarrow> \<exists>now w. worker_send_ping L now (wrapper b) p = Done w \<and> b' = b\<lparr>wrapper := w\<rparr>
      | WmResult res \<Rightarrow> b' = deref_mut (\<lambda>w. worker_send_query_result rrq w res) b
      | WmLogs ls \<Rightarrow> \<exists>now w. worker_send_logs L now (wrapper b) ls = Done w \<and> b' = b\<lparr>wrapper := w\<rparr>)"

text \<open>What a step keeps, as the interface asks for it.\<close>

abbreviation worker_keeps where
  "worker_keeps config ip cp ir cr il cl ie ce \<equiv> step_keeps worker_queue (worker_queued ip ir il) (\<lambda>t. ie (q_chan (wt_events t)))
     (\<lambda>t. dropped (wt_metrics t) (q_name (wt_events t))) (worker_fits config ip cp ir cr il cl ie ce)"

lemma worker_pass_keeps:
  assumes "worker_pass L now rrq Q sw t a (Done (Some t'))" and "worker_channels Q ip cp ir cr il cl ie ce"
  shows "worker_keeps config ip cp ir cr il cl ie ce t a t'"
proof -
  from assms(2) have laws: "mpsc_laws (wq_pings Q) ip cp" "mpsc_laws (wq_query_results Q) ir cr" "mpsc_laws (wq_logs Q) il cl"
      "mpsc_laws (wq_events Q) ie ce"
    by (simp_all add: worker_channels_def)
  note defs = step_keeps_def conserved_def worker_queued_def worker_fits_def events_conserved_def
  from assms(1) show ?thesis
  proof cases
    case (swarm b ev)
    then obtain c m where f: "forward_event (wq_events Q) (wt_events t) (wt_metrics t) ev = (c, m)"
      and t': "t' = t\<lparr>wt_swarm := b, wt_events := c, wt_metrics := m\<rparr>"
      by (auto simp: worker_on_swarm_event_def split: prod.splits)
    from forward_event_items [OF laws(4) f] swarm(1) show ?thesis by (auto simp: step_keeps_def conserved_def worker_queued_def worker_fits_def t')
  next
    case (pings c m p)
    then show ?thesis using queue_recv_items [OF laws(1) pings(3)] by (auto simp: defs)
  next
    case (query_results c m res)
    then show ?thesis using queue_recv_items [OF laws(2) query_results(3)] by (auto simp: defs)
  next
    case (logs c m ls)
    then show ?thesis using queue_recv_items [OF laws(3) logs(3)] by (auto simp: defs)
  qed
qed

lemma worker_step_keeps:
  assumes "worker_step L rrq Q sw t a t'" and "worker_channels Q ip cp ir cr il cl ie ce"
  shows "worker_keeps config ip cp ir cr il cl ie ce t a t'"
proof -
  from assms(2) have laws: "mpsc_laws (wq_pings Q) ip cp" "mpsc_laws (wq_query_results Q) ir cr" "mpsc_laws (wq_logs Q) il cl"
      "mpsc_laws (wq_events Q) ie ce"
    by (simp_all add: worker_channels_def)
  note defs = step_keeps_def conserved_def worker_queued_def worker_fits_def events_conserved_def
  from assms(1) show ?thesis
  proof cases
    case (send_ping p r)
    then obtain c m where q: "queue_try_send (wq_pings Q) (wt_pings t) (wt_metrics t) p = (c, m, r)" and t': "t' = t\<lparr>wt_pings := c, wt_metrics := m\<rparr>"
      by (auto simp: worker_handle_send_ping_def split: prod.splits)
    from queue_try_send_items [OF laws(1) q] send_ping(1) show ?thesis by (auto simp: defs t')
  next
    case (send_query_result res r)
    then obtain c m where q: "queue_try_send (wq_query_results Q) (wt_query_results t) (wt_metrics t) res = (c, m, r)" and t': "t' = t\<lparr>wt_query_results := c, wt_metrics := m\<rparr>"
      by (auto simp: worker_handle_send_query_result_def split: prod.splits)
    from queue_try_send_items [OF laws(2) q] send_query_result(1) show ?thesis by (auto simp: defs t')
  next
    case (send_logs ls r)
    then obtain c m where q: "queue_try_send (wq_logs Q) (wt_logs t) (wt_metrics t) ls = (c, m, r)" and t': "t' = t\<lparr>wt_logs := c, wt_metrics := m\<rparr>"
      by (auto simp: worker_handle_send_logs_def split: prod.splits)
    from queue_try_send_items [OF laws(3) q] send_logs(1) show ?thesis by (auto simp: defs t')
  next
    case (pass now)
    from worker_pass_keeps [OF this assms(2)] show ?thesis .
  next
    case (event c m e)
    then show ?thesis using queue_recv_items [OF laws(4) event(3)] by (auto simp: defs)
  qed
qed

lemma worker_step_behaves:
  assumes "worker_step L rrq Q sw t a t'"
  shows "behaves (worker_handles L rrq) sw (wt_swarm t) a (wt_swarm t')"
  using assms
proof cases
  case (pass now)
  then show ?thesis
    by cases (auto simp: worker_handles_def worker_on_swarm_event_def split: prod.splits; blast)+
qed (auto simp: worker_handle_send_ping_def worker_handle_send_query_result_def worker_handle_send_logs_def split: prod.splits)

interpretation worker_loop: transport_loop "worker_step L rrq Q sw" worker_queue "worker_queued ip ir il"
    "\<lambda>t. ie (q_chan (wt_events t))" "\<lambda>t. dropped (wt_metrics t) (q_name (wt_events t))" wt_swarm "worker_fits config ip cp ir cr il cl ie ce"
    "worker_handles L rrq" sw "worker_channels Q ip cp ir cr il cl ie ce"
  by unfold_locales (auto intro: worker_step_keeps worker_step_behaves)

lemma worker_started:
  assumes "worker_start_transport Q flavor m b config = Done t" and "worker_channels Q ip cp ir cr il cl ie ce"
  shows "worker_fits config ip cp ir cr il cl ie ce t" "worker_queued ip ir il t n = []" "ie (q_chan (wt_events t)) = []"
    "wt_swarm t = b" "wt_metrics t = m" "q_name (wt_events t) = ''events''"
proof -
  from assms(1) have t: "wt_pings t = new_queue (wq_pings Q) (wc_pings_queue_size config) ''pings''"
      "wt_query_results t = new_queue (wq_query_results Q) (wc_query_results_queue_size config) ''query_results''"
      "wt_logs t = new_queue (wq_logs Q) (wc_logs_queue_size config) ''logs''"
      "wt_events t = new_queue (wq_events Q) (wc_events_queue_size config) ''events''" "wt_swarm t = b" "wt_metrics t = m"
    by (auto simp: worker_start_transport_def)
  from assms(2) have laws: "mpsc_laws (wq_pings Q) ip cp" "mpsc_laws (wq_query_results Q) ir cr" "mpsc_laws (wq_logs Q) il cl"
      "mpsc_laws (wq_events Q) ie ce" by (simp_all add: worker_channels_def)
  show "worker_fits config ip cp ir cr il cl ie ce t" "worker_queued ip ir il t n = []" "ie (q_chan (wt_events t)) = []"
    "wt_swarm t = b" "wt_metrics t = m" "q_name (wt_events t) = ''events''"
    using laws [THEN new_queue_fits(1)] laws [THEN new_queue_fits(2)]
    by (auto simp: t worker_fits_def worker_queued_def new_queue_def)
qed

section \<open>Runs of the behaviour\<close>

text \<open>The queries that are handed to the application, with the channel of their request.\<close>

fun query_received :: "query request \<Rightarrow> (worker_event, 'cmd) to_swarm \<Rightarrow> (peer_id \<times> query \<times> resp_chan) option" where
  "query_received rq (GenerateEvent (WkQuery p q)) = Some (p, q, rq_response_channel rq)"
| "query_received rq _ = None"

abbreviation set_server where
  "set_server w self \<equiv> self\<lparr>wb_inner := (wb_inner self)\<lparr>wi_query := w\<rparr>\<rparr>"

text \<open>
  How the swarm makes the behaviour work: the query server is polled and its requests are handled; the
  base behaviour and the pong server may do anything, report any event and send commands. \<open>qs\<close> are the queries received, \<open>evs\<close> the
  commands of the worker.
\<close>

inductive worker_polled ::
    "('lru, 'fm, 'bm, 'ns, 'err) libs \<Rightarrow> (pong, u32, 'cmd) rr \<Rightarrow> (query, query_result, 'cmd) rr \<Rightarrow>
     ((query, query_result) rr_call list \<Rightarrow> 'he conn_call \<Rightarrow> 'r) \<Rightarrow>
     ('lru, 'fm, 'bm, 'ns, 'cmd) worker_behaviour \<Rightarrow> (peer_id \<times> query \<times> resp_chan) list \<Rightarrow> (worker_event, 'cmd) to_swarm list \<Rightarrow>
     ('lru, 'fm, 'bm, 'ns, 'cmd) worker_behaviour \<Rightarrow> bool"
  for L rrp rrq conn where
  query_event: "wrapped_poll (server_wrapper rrq conn) (wi_query (wb_inner s)) = Some (Done (w, Ready (GenerateEvent rq))) \<Longrightarrow>
    worker_on_inner_event L rrp (set_server w s) (WiQuery rq) = Done (s', evs) \<Longrightarrow>
    worker_polled L rrp rrq conn s (List.map_filter (query_received rq) evs) evs s'"
| query_cmd: "wrapped_poll (server_wrapper rrq conn) (wi_query (wb_inner s)) = Some (Done (w, Ready c)) \<Longrightarrow>
    map_out c = Done c' \<Longrightarrow> worker_polled L rrp rrq conn s [] [c'] (set_server w s)"
| query_pending: "wrapped_poll (server_wrapper rrq conn) (wi_query (wb_inner s)) = Some (Done (w, Pending)) \<Longrightarrow>
    worker_polled L rrp rrq conn s [] [] (set_server w s)"
| base_event: "worker_on_inner_event L rrp (s\<lparr>wb_inner := (wb_inner s)\<lparr>wi_base := b\<rparr>\<rparr>) (WiBase ev) = Done (s', evs) \<Longrightarrow>
    worker_polled L rrp rrq conn s [] evs s'"
| base_cmds: "List.map_filter generated cmds = [] \<Longrightarrow>
    worker_polled L rrp rrq conn s [] cmds (s\<lparr>wb_inner := (wb_inner s)\<lparr>wi_base := b\<rparr>\<rparr>)"
| pong_event: "worker_on_inner_event L rrp (s\<lparr>wb_inner := (wb_inner s)\<lparr>wi_pong := pw\<rparr>\<rparr>) (WiPong rq) = Done (s', evs) \<Longrightarrow>
    worker_polled L rrp rrq conn s [] evs s'"
| pong_cmds: "List.map_filter generated cmds = [] \<Longrightarrow>
    worker_polled L rrp rrq conn s [] cmds (s\<lparr>wb_inner := (wb_inner s)\<lparr>wi_pong := pw\<rparr>\<rparr>)"

text \<open>A run: the swarm makes the behaviour work, and results, pings and logs are sent. \<open>qs\<close> are the queries received.\<close>

inductive worker_run ::
    "('lru, 'fm, 'bm, 'ns, 'err) libs \<Rightarrow> (pong, u32, 'cmd) rr \<Rightarrow> (query, query_result, 'cmd) rr \<Rightarrow>
     ((query, query_result) rr_call list \<Rightarrow> 'he conn_call \<Rightarrow> 'r) \<Rightarrow> ('lru, 'fm, 'bm, 'ns) base \<Rightarrow> peer_id \<Rightarrow> worker_config \<Rightarrow>
     ('lru, 'fm, 'bm, 'ns, 'cmd) worker_behaviour \<Rightarrow> (peer_id \<times> query \<times> resp_chan) list \<Rightarrow> bool"
  for L rrp rrq conn b0 p0 config where
  new: "worker_run L rrp rrq conn b0 p0 config (wrapper (worker_behaviour_new L now b0 p0 config)) []"
| polled: "worker_run L rrp rrq conn b0 p0 config s qs \<Longrightarrow> worker_polled L rrp rrq conn s new evs s' \<Longrightarrow>
    worker_run L rrp rrq conn b0 p0 config s' (qs @ new)"
| result: "worker_run L rrp rrq conn b0 p0 config s qs \<Longrightarrow>
    worker_run L rrp rrq conn b0 p0 config (worker_send_query_result rrq s res) qs"
| ping: "worker_run L rrp rrq conn b0 p0 config s qs \<Longrightarrow> worker_send_ping L now s p = Done s' \<Longrightarrow>
    worker_run L rrp rrq conn b0 p0 config s' qs"
| logs: "worker_run L rrp rrq conn b0 p0 config s qs \<Longrightarrow> worker_send_logs L now s ls = Done s' \<Longrightarrow>
    worker_run L rrp rrq conn b0 p0 config s' qs"

text \<open>The channel of the latest query with a given ID.\<close>

definition latest_channel :: "(peer_id \<times> query \<times> resp_chan) list \<Rightarrow> string \<Rightarrow> resp_chan option" where
  "latest_channel qs i = map_option (snd \<circ> snd) (List.find (\<lambda>(_, q, _). q_query_id q = Some i) (rev qs))"

lemma latest_channel_snoc:
  "latest_channel [] i = None"
  "latest_channel (qs @ [(p, q, ch)]) i = (if q_query_id q = Some i then Some ch else latest_channel qs i)"
  by (simp_all add: latest_channel_def)

lemma latest_channel_mem: "latest_channel qs i = Some ch \<Longrightarrow> \<exists>p q. (p, q, ch) \<in> set qs \<and> q_query_id q = Some i"
  by (auto simp: latest_channel_def find_Some_iff) (metis nth_mem set_rev length_rev)

abbreviation worker_responses where
  "worker_responses s \<equiv> responses (wrapper (wi_query (wb_inner s)))"

definition worker_inv ::
    "('lru, 'fm, 'bm, 'ns, 'err) libs \<Rightarrow> (peer_id \<times> query \<times> resp_chan) list \<Rightarrow> (string, resp_chan) fmap \<Rightarrow>
     (resp_chan \<times> query_result) list \<Rightarrow> bool" where
  "worker_inv L qs chans resps \<longleftrightarrow>
     (\<forall>(p, q, ch)\<in>set qs. q_query_id q \<noteq> None \<and> verify_signature (l_crypto L) (query_signed (l_protobuf L)) p q = Done (True, q)) \<and>
     (\<forall>(ch, res)\<in>set resps. \<exists>p q. (p, q, ch) \<in> set qs \<and> q_query_id q = Some (qr_query_id res)) \<and>
     (\<forall>i ch. fmlookup chans i = Some ch \<longrightarrow> (\<exists>p q. (p, q, ch) \<in> set qs \<and> q_query_id q = Some i)) \<and>
     (distinct (map (snd \<circ> snd) qs) \<longrightarrow>
        distinct (map fst resps) \<and>
        (\<forall>i ch. fmlookup chans i = Some ch \<longleftrightarrow> latest_channel qs i = Some ch \<and> ch \<notin> fst ` set resps))"

lemmas worker_invI = worker_inv_def [THEN iffD2, OF conjI, OF _ conjI, OF _ _ conjI]

lemma worker_invD:
  assumes "worker_inv L qs chans resps"
  shows "\<forall>(p, q, ch)\<in>set qs. q_query_id q \<noteq> None \<and> verify_signature (l_crypto L) (query_signed (l_protobuf L)) p q = Done (True, q)"
    and "\<forall>(ch, res)\<in>set resps. \<exists>p q. (p, q, ch) \<in> set qs \<and> q_query_id q = Some (qr_query_id res)"
    and "fmlookup chans i = Some ch \<Longrightarrow> \<exists>p q. (p, q, ch) \<in> set qs \<and> q_query_id q = Some i"
    and "distinct (map (snd \<circ> snd) qs) \<Longrightarrow> distinct (map fst resps)"
    and "distinct (map (snd \<circ> snd) qs) \<Longrightarrow> fmlookup chans i = Some ch \<longleftrightarrow> latest_channel qs i = Some ch \<and> ch \<notin> fst ` set resps"
proof -
  note D = assms [unfolded worker_inv_def]
  show "\<forall>(p, q, ch)\<in>set qs. q_query_id q \<noteq> None \<and> verify_signature (l_crypto L) (query_signed (l_protobuf L)) p q = Done (True, q)"
    by (rule D [THEN conjunct1])
  show "\<forall>(ch, res)\<in>set resps. \<exists>p q. (p, q, ch) \<in> set qs \<and> q_query_id q = Some (qr_query_id res)"
    by (rule D [THEN conjunct2, THEN conjunct1])
  show "fmlookup chans i = Some ch \<Longrightarrow> \<exists>p q. (p, q, ch) \<in> set qs \<and> q_query_id q = Some i"
    by (rule D [THEN conjunct2, THEN conjunct2, THEN conjunct1, rule_format])
  note E = D [THEN conjunct2, THEN conjunct2, THEN conjunct2, THEN mp]
  show "distinct (map (snd \<circ> snd) qs) \<Longrightarrow> distinct (map fst resps)" by (rule E [THEN conjunct1])
  show "distinct (map (snd \<circ> snd) qs) \<Longrightarrow> fmlookup chans i = Some ch \<longleftrightarrow> latest_channel qs i = Some ch \<and> ch \<notin> fst ` set resps"
    by (rule E [THEN conjunct2, rule_format])
qed

lemma worker_inv_received:
  assumes inv: "worker_inv L qs chans resps" and "q_query_id q = Some i"
    and "verify_signature (l_crypto L) (query_signed (l_protobuf L)) p q = Done (True, q)"
  shows "worker_inv L (qs @ [(p, q, ch)]) (fmupd i ch chans) resps"
proof (rule worker_invI, goal_cases)
  case 1
  from worker_invD(1) [OF inv] assms(2,3) show ?case by simp
next
  case 2
  from worker_invD(2) [OF inv] show ?case by fastforce
next
  case 3
  show ?case
  proof (intro allI impI)
    fix j c assume "fmlookup (fmupd i ch chans) j = Some c"
    with worker_invD(3) [OF inv, of j c] assms(2)
    show "\<exists>p' q'. (p', q', c) \<in> set (qs @ [(p, q, ch)]) \<and> q_query_id q' = Some j" by (cases "j = i") auto
  qed
next
  case 4
  have "fmlookup (fmupd i ch chans) j = Some c \<longleftrightarrow> latest_channel (qs @ [(p, q, ch)]) j = Some c \<and> c \<notin> fst ` set resps"
    if d: "distinct (map (snd \<circ> snd) (qs @ [(p, q, ch)]))" for j c
  proof (cases "j = i")
    case True
    have "ch \<notin> (snd \<circ> snd) ` set qs" using d by simp
    then have "ch \<notin> fst ` set resps" using worker_invD(2) [OF inv] by (force simp: image_iff)
    with True assms(2) show ?thesis by (auto simp: latest_channel_snoc)
  next
    case False
    with d worker_invD(5) [OF inv, of j c] assms(2) show ?thesis by (simp add: latest_channel_snoc)
  qed
  with worker_invD(4) [OF inv] show ?case by simp
qed

lemma worker_inv_result:
  assumes inv: "worker_inv L qs chans resps" and look: "fmlookup chans (qr_query_id res) = Some ch"
  shows "worker_inv L qs (fmdrop (qr_query_id res) chans) (resps @ [(ch, res)])"
proof (rule worker_invI, goal_cases)
  case 1
  show ?case by (rule worker_invD(1) [OF inv])
next
  case 2
  from worker_invD(2) [OF inv] worker_invD(3) [OF inv look] show ?case by auto
next
  case 3
  from worker_invD(3) [OF inv] show ?case by (auto split: if_splits)
next
  case 4
  let ?i = "qr_query_id res"
  show ?case
  proof (intro impI conjI allI)
    assume d: "distinct (map (snd \<circ> snd) qs)"
    note L = worker_invD(5) [OF inv d]
    from L [of ?i ch] look have new: "ch \<notin> fst ` set resps" by blast
    with worker_invD(4) [OF inv d] show "distinct (map fst (resps @ [(ch, res)]))" by simp
    fix j c
    have "c \<noteq> ch" if "latest_channel qs j = Some c" "j \<noteq> ?i"
    proof
      assume "c = ch"
      with latest_channel_mem [OF that(1)] obtain p q where 1: "(p, q, ch) \<in> set qs" "q_query_id q = Some j" by blast
      from worker_invD(3) [OF inv look] obtain p' q' where 2: "(p', q', ch) \<in> set qs" "q_query_id q' = Some ?i" by blast
      have "inj_on (snd \<circ> snd) (set qs)" using d by (simp add: distinct_map)
      from inj_onD [OF this _ 1(1) 2(1)] have "q = q'" by simp
      with 1 2 that(2) show False by simp
    qed
    with L [of j c] L [of ?i c] look show "fmlookup (fmdrop ?i chans) j = Some c \<longleftrightarrow>
        latest_channel qs j = Some c \<and> c \<notin> fst ` set (resps @ [(ch, res)])"
      by (cases "j = ?i") auto
  qed
qed

text \<open>A query event: either the query is signed and has an ID, and is handed on, or nothing happens.\<close>

lemma worker_query_event:
  assumes "worker_on_inner_event L rrp s (WiQuery rq) = Done (s', evs)"
  obtains i where "verify_signature (l_crypto L) (query_signed (l_protobuf L)) (rq_peer_id rq) (rq_request rq) = Done (True, rq_request rq)"
      "q_query_id (rq_request rq) = Some i" "evs = [GenerateEvent (WkQuery (rq_peer_id rq) (rq_request rq))]"
      "s' = s\<lparr>wb_query_response_channels := fmupd i (rq_response_channel rq) (wb_query_response_channels s)\<rparr>"
    | "evs = []" "s' = s"
proof -
  from assms obtain ok q where v: "verify_signature (l_crypto L) (query_signed (l_protobuf L)) (rq_peer_id rq) (rq_request rq) = Done (ok, q)"
    by (auto simp: worker_on_inner_event_def worker_on_query_def)
  then have q: "q = rq_request rq" by (rule query_sig.verify_keeps_message)
  show thesis
  proof (cases "ok \<and> q_query_id q \<noteq> None")
    case True
    then obtain i where i: "q_query_id q = Some i" by blast
    show thesis by (rule that(1) [of i]) (use True v q i assms in \<open>auto simp: worker_on_inner_event_def worker_on_query_def\<close>)
  next
    case False
    show thesis by (rule that(2)) (use False v assms in \<open>auto simp: worker_on_inner_event_def worker_on_query_def split: if_splits\<close>)
  qed
qed

lemma worker_polled_inv:
  assumes "worker_polled L rrp rrq conn s new evs s'" and inv: "worker_inv L qs (wb_query_response_channels s) (worker_responses s)"
  shows "worker_inv L (qs @ new) (wb_query_response_channels s') (worker_responses s')" and "worker_responses s' = worker_responses s"
proof -
  from assms(1) have "worker_inv L (qs @ new) (wb_query_response_channels s') (worker_responses s') \<and> worker_responses s' = worker_responses s"
  proof cases
    case (query_event w rq)
    note keep = server_poll_responses [OF query_event(2)]
    from query_event(3) show ?thesis
    proof (cases rule: worker_query_event)
      case (1 i)
      with worker_inv_received [OF inv 1(2,1)] keep query_event(1) show ?thesis by (simp add: List.map_filter_simps)
    next
      case 2
      with inv keep query_event(1) show ?thesis by (simp add: List.map_filter_simps)
    qed
  next
    case (query_cmd w c c')
    with server_poll_responses [OF query_cmd(4)] inv show ?thesis by simp
  next
    case (query_pending w)
    with server_poll_responses [OF query_pending(4)] inv show ?thesis by simp
  next
    case (pong_event pw rq)
    with inv show ?thesis by (auto simp: worker_on_inner_event_def worker_on_pong_event_def split: if_splits)
  qed (use inv in \<open>auto simp: worker_on_inner_event_def\<close>)
  then show "worker_inv L (qs @ new) (wb_query_response_channels s') (worker_responses s')" and "worker_responses s' = worker_responses s" by blast+
qed

lemma worker_run_inv:
  "worker_run L rrp rrq conn b0 p0 config s qs \<Longrightarrow>
     worker_inv L qs (wb_query_response_channels s) (worker_responses s)"
proof (induction rule: worker_run.induct)
  case (new now)
  show ?case
    by (simp add: worker_inv_def worker_behaviour_new_def Let_def wrapped_from_def server_new_def responses_def
        List.map_filter_simps latest_channel_snoc)
next
  case (polled s qs new evs s')
  from worker_polled_inv(1) [OF polled.hyps(2) polled.IH] show ?case .
next
  case (result s qs res)
  then show ?case
    using worker_inv_result [OF result.IH] by (auto simp: worker_send_query_result_def split: option.split)
qed (auto simp: worker_send_ping_def worker_send_logs_def)

section \<open>The application's view\<close>

text \<open>The queries among the events, and the results among the messages.\<close>

fun event_query :: "worker_event \<Rightarrow> (peer_id \<times> query) option" where
  "event_query (WkQuery p q) = Some (p, q)"
| "event_query _ = None"

fun msg_result :: "worker_msg \<Rightarrow> query_result option" where
  "msg_result (WmResult res) = Some res"
| "msg_result _ = None"

abbreviation query_events where
  "query_events cmds \<equiv> List.map_filter event_query (List.map_filter generated cmds)"

lemma msg_result_queue: "List.map_filter msg_result (on_queue worker_queue ''query_results'' ms) = List.map_filter msg_result ms"
proof (induction ms)
  case (Cons m ms)
  then show ?case by (cases m) (simp_all add: List.map_filter_simps)
qed simp

text \<open>Every work of the behaviour reports exactly the queries it receives.\<close>

lemma worker_polled_queries:
  assumes "worker_polled L rrp rrq conn s new evs s'"
  shows "query_events evs = map (\<lambda>(p, q, ch). (p, q)) new"
  using assms
proof cases
  case (query_event w rq)
  from query_event(3) show ?thesis
    by (cases rule: worker_query_event) (use query_event(1) in \<open>simp_all add: List.map_filter_simps\<close>)
next
  case (query_cmd w c c')
  then show ?thesis by (cases c) (auto simp: List.map_filter_simps)
next
  case (base_event b ev)
  then show ?thesis
    by (auto simp: worker_on_inner_event_def worker_on_base_event_def worker_on_logs_collected_def List.map_filter_simps
        split: base_event.splits if_splits)
next
  case (pong_event pw rq)
  then show ?thesis
    by (auto simp: worker_on_inner_event_def worker_on_pong_event_def List.map_filter_simps split: if_splits)
qed (simp_all add: List.map_filter_simps)

lemma worker_result_responses:
  "\<exists>new. worker_responses (worker_send_query_result rr s res) = worker_responses s @ new \<and> subseq (map snd new) [res]"
  by (auto simp: worker_send_query_result_def split: option.split)

lemma worker_send_keeps:
  "worker_send_ping L now s p = Done s' \<Longrightarrow> worker_responses s' = worker_responses s"
  "worker_send_logs L now s ls = Done s' \<Longrightarrow> worker_responses s' = worker_responses s"
  by (auto simp: worker_send_ping_def worker_send_logs_def)

abbreviation worker_works where
  "worker_works L rrp rrq conn \<equiv> \<lambda>s evs s'. \<exists>new. worker_polled L rrp rrq conn s new evs s'"

lemma worker_drives_run:
  assumes "drives (worker_works L rrp rrq conn) b out b'"
    and "worker_run L rrp rrq conn b0 p0 config (wrapper b) qs" and "query_events (taken @ pending_events b) = map (\<lambda>(p, q, ch). (p, q)) qs"
  shows "\<exists>qs. worker_run L rrp rrq conn b0 p0 config (wrapper b') qs \<and>
    query_events (taken @ out @ pending_events b') = map (\<lambda>(p, q, ch). (p, q)) qs \<and>
    worker_responses (wrapper b') = worker_responses (wrapper b)"
proof (rule drives_invariant [OF assms(1), where I = "\<lambda>s cs. \<exists>qs. worker_run L rrp rrq conn b0 p0 config s qs \<and>
    query_events (taken @ cs) = map (\<lambda>(p, q, ch). (p, q)) qs \<and> worker_responses s = worker_responses (wrapper b)"])
  show "\<exists>qs. worker_run L rrp rrq conn b0 p0 config (wrapper b) qs \<and>
      query_events (taken @ pending_events b) = map (\<lambda>(p, q, ch). (p, q)) qs \<and> worker_responses (wrapper b) = worker_responses (wrapper b)"
    using assms(2,3) by blast
next
  fix s cs evs s'
  assume I: "\<exists>qs. worker_run L rrp rrq conn b0 p0 config s qs \<and>
      query_events (taken @ cs) = map (\<lambda>(p, q, ch). (p, q)) qs \<and> worker_responses s = worker_responses (wrapper b)"
    and w: "\<exists>new. worker_polled L rrp rrq conn s new evs s'"
  from I obtain qs where qs: "worker_run L rrp rrq conn b0 p0 config s qs" "query_events (taken @ cs) = map (\<lambda>(p, q, ch). (p, q)) qs"
      "worker_responses s = worker_responses (wrapper b)" by blast
  from w obtain new where new: "worker_polled L rrp rrq conn s new evs s'" ..
  have "worker_run L rrp rrq conn b0 p0 config s' (qs @ new)" by (rule worker_run.polled [OF qs(1) new])
  moreover have "query_events (taken @ cs @ evs) = map (\<lambda>(p, q, ch). (p, q)) (qs @ new)"
    using qs(2) worker_polled_queries [OF new] by simp
  moreover have "worker_responses s' = worker_responses (wrapper b)"
    using worker_polled_inv(2) [OF new worker_run_inv [OF qs(1)]] qs(3) by simp
  ultimately show "\<exists>qs. worker_run L rrp rrq conn b0 p0 config s' qs \<and>
      query_events (taken @ cs @ evs) = map (\<lambda>(p, q, ch). (p, q)) qs \<and> worker_responses s' = worker_responses (wrapper b)" by blast
qed

text \<open>A message from the application continues the run: only a result adds a response, which answers with this result.\<close>

lemma worker_handles_run:
  assumes run: "worker_run L rrp rrq conn b0 p0 config (wrapper b) qs" and h: "worker_handles L rrq m b b' es"
  obtains new where "worker_run L rrp rrq conn b0 p0 config (wrapper b') qs" "worker_responses (wrapper b') = worker_responses (wrapper b) @ new"
    "subseq (map snd new) (List.map_filter msg_result [m])"
proof (cases m)
  case (WmResult res)
  with h have b': "wrapper b' = worker_send_query_result rrq (wrapper b) res" by (simp add: worker_handles_def)
  from worker_result_responses [of rrq "wrapper b" res] obtain new where
    "worker_responses (wrapper b') = worker_responses (wrapper b) @ new" "subseq (map snd new) [res]" unfolding b' by blast
  with worker_run.result [OF run, of res] show thesis by (intro that [of new]) (simp_all add: b' WmResult List.map_filter_simps)
next
  case (WmPing p)
  with h obtain now w where "worker_send_ping L now (wrapper b) p = Done w" "wrapper b' = w" by (auto simp: worker_handles_def)
  with worker_run.ping [OF run, of now p w] show thesis by (intro that [of "[]"]) (simp_all add: worker_send_keeps)
next
  case (WmLogs ls)
  with h obtain now w where "worker_send_logs L now (wrapper b) ls = Done w" "wrapper b' = w" by (auto simp: worker_handles_def)
  with worker_run.logs [OF run, of now ls w] show thesis by (intro that [of "[]"]) (simp_all add: worker_send_keeps)
qed

lemma worker_trace_run:
  fixes b :: "(('lru, 'fm, 'bm, 'ns, 'cmd) worker_behaviour, worker_event, 'cmd) wrapped"
  assumes "trace (behaves (worker_handles L rrq) sw) (worker_behaviour_new L now b0 p0 config) as b"
    and sw: "swarm_drives (worker_works L rrp rrq conn) sw"
  shows "\<exists>qs taken. worker_run L rrp rrq conn b0 p0 config (wrapper b) qs \<and> List.map_filter generated taken = offered as \<and>
    query_events (taken @ pending_events b) = map (\<lambda>(p, q, ch). (p, q)) qs \<and>
    subseq (map snd (worker_responses (wrapper b))) (List.map_filter msg_result (served as))"
  using assms(1)
proof (induction "worker_behaviour_new L now b0 p0 config :: (('lru, 'fm, 'bm, 'ns, 'cmd) worker_behaviour, worker_event, 'cmd) wrapped" as b rule: trace.induct)
  case start
  have "worker_run L rrp rrq conn b0 p0 config (wrapper (worker_behaviour_new L now b0 p0 config)) []" by (rule worker_run.new)
  then show ?case
    by (intro exI [of _ "[]"]) (simp add: worker_behaviour_new_def Let_def wrapped_from_def server_new_def responses_def List.map_filter_simps)
next
  case (act as b a b')
  then obtain qs taken where run: "worker_run L rrp rrq conn b0 p0 config (wrapper b) qs"
    and taken: "List.map_filter generated taken = offered as" and qs: "query_events (taken @ pending_events b) = map (\<lambda>(p, q, ch). (p, q)) qs"
    and resp: "subseq (map snd (worker_responses (wrapper b))) (List.map_filter msg_result (served as))" by blast
  show ?case
  proof (cases a)
    case (Served m es)
    note h = act.hyps(3) [unfolded Served behaves_simps]
    then have keep: "es = []" "pending_events b' = pending_events b" by (auto simp: worker_handles_def split: worker_msg.splits)
    from worker_handles_run [OF run h] obtain new where new: "worker_run L rrp rrq conn b0 p0 config (wrapper b') qs"
      "worker_responses (wrapper b') = worker_responses (wrapper b) @ new" "subseq (map snd new) (List.map_filter msg_result [m])" by blast
    have "subseq (map snd (worker_responses (wrapper b'))) (List.map_filter msg_result (served (as @ [a])))"
      using list_emb_append_mono [OF resp new(3)] by (simp add: new(2) Served)
    with new(1) taken qs keep show ?thesis by (intro exI [of _ qs] exI [of _ taken]) (simp add: Served)
  next
    case (FromSwarm ev)
    with act.hyps(3) have "sw b b' ev" by simp
    with sw obtain out where out: "drives (worker_works L rrp rrq conn) b out b'"
      "List.map_filter generated out = (case ev of Behaviour e \<Rightarrow> [e] | OtherSwarmOut \<Rightarrow> [])" by (rule swarm_drivesE)
    from worker_drives_run [OF out(1) run qs] obtain qs' where "worker_run L rrp rrq conn b0 p0 config (wrapper b') qs'"
      "query_events (taken @ out @ pending_events b') = map (\<lambda>(p, q, ch). (p, q)) qs'"
      "worker_responses (wrapper b') = worker_responses (wrapper b)" by blast
    with out(2) taken resp FromSwarm show ?thesis by (intro exI [of _ qs'] exI [of _ "taken @ out"]) simp
  qed (use act.hyps(3) run taken qs resp in \<open>auto intro!: exI [of _ qs] exI [of _ taken]\<close>)
qed

section \<open>Properties\<close>

text \<open>
  C17. Queries and their results. In every run of the worker, every query handed to the
  application has an ID and is signed by the peer it came from; every response goes to the
  channel of a received query with the ID of the result. If no two requests share a
  channel, no channel is used twice, and the result for an ID goes to the latest query with
  this ID, provided it has not been answered yet, and is dropped otherwise.
\<close>

theorem worker_result_routing:
  assumes "worker_run L rrp rrq conn b0 p0 config s qs" and "distinct (map (snd \<circ> snd) qs)"
  shows "(\<forall>(p, q, ch)\<in>set qs. q_query_id q \<noteq> None \<and> verify_signature (l_crypto L) (query_signed (l_protobuf L)) p q = Done (True, q)) \<and>
    (\<forall>(ch, res)\<in>set (worker_responses s). \<exists>p q. (p, q, ch) \<in> set qs \<and> q_query_id q = Some (qr_query_id res)) \<and>
    distinct (map fst (worker_responses s)) \<and>
    worker_responses (worker_send_query_result rrq s res) = worker_responses s @
      (case latest_channel qs (qr_query_id res) of
         Some ch \<Rightarrow> if ch \<in> fst ` set (worker_responses s) then [] else [(ch, res)]
       | None \<Rightarrow> [])"
proof -
  note inv = worker_run_inv [OF assms(1)]
  have look: "fmlookup (wb_query_response_channels s) (qr_query_id res) = Some ch \<longleftrightarrow>
      latest_channel qs (qr_query_id res) = Some ch \<and> ch \<notin> fst ` set (worker_responses s)" for ch
    using inv assms(2) by (simp add: worker_inv_def)
  have "worker_responses (worker_send_query_result rrq s res) = worker_responses s @
      (case latest_channel qs (qr_query_id res) of
         Some ch \<Rightarrow> if ch \<in> fst ` set (worker_responses s) then [] else [(ch, res)] | None \<Rightarrow> [])"
  proof (cases "fmlookup (wb_query_response_channels s) (qr_query_id res)")
    case None
    with look show ?thesis by (auto simp: worker_send_query_result_def split: option.split)
  next
    case (Some ch)
    with look [of ch] show ?thesis by (simp add: worker_send_query_result_def)
  qed
  with worker_invD(1,2) [OF inv] worker_invD(4) [OF inv assms(2)] show ?thesis by blast
qed

text \<open>
  The worker's transport neither loses, repeats nor reorders what passes through it: in every history from its start, the pings,
  results and logs that were served are, queue by queue and in order, the first ones of those that the handle accepted, and the
  others are still waiting; what the application received, followed by what waits for it, is a subsequence of the events of the
  swarm, and each event that is missing is counted as dropped; no queue holds more than its configured size; and the behaviour has done what
  it does when it is given the served messages at once.
\<close>

lemma worker_delivery:
  assumes "worker_start_transport Q flavor m b config = Done t0" and "trace (worker_step L rrq Q sw) t0 as t"
    and "worker_channels Q ip cp ir cr il cl ie ce"
  shows "(\<forall>n. on_queue worker_queue n (served as) @ worker_queued ip ir il t n = on_queue worker_queue n (submitted as)) \<and>
    subseq (received as @ ie (q_chan (wt_events t))) (offered as) \<and>
    dropped (wt_metrics t) ''events'' =
      dropped m ''events'' + of_nat (length (offered as) - length (received as @ ie (q_chan (wt_events t)))) \<and>
    worker_fits config ip cp ir cr il cl ie ce t \<and>
    trace (behaves (worker_handles L rrq) sw) b as (wt_swarm t)"
proof -
  note start = worker_started [OF assms(1,3)]
  note d = worker_loop.delivery [OF assms(2,3) start(1-3)]
  have "q_name (wt_events t) = ''events''" using d(5) by (simp add: worker_fits_def fits_def)
  with d start show ?thesis by simp
qed


text \<open>For the witness: a server that receives one query.\<close>

definition demo_inbound :: "peer_id \<Rightarrow> 'req \<Rightarrow> ('req, 'resp, unit) rr" where
  "demo_inbound p q = \<lparr>rr_id = length, rr_respond_ok = \<lambda>_. True,
     rr_poll_result = \<lambda>calls. case calls of [_, RrPoll] \<Rightarrow> Ready (GenerateEvent (RrRequest p q 3)) | _ \<Rightarrow> Pending\<rparr>"

lemma demo_inbound_poll:
  "wrapped_poll (server_wrapper (demo_inbound p q) conn) (wrapped_from (server_new codec protocol)) =
     Some (Done (\<lparr>wrapper = \<lparr>sv_inner = [RrNew codec protocol Inbound None, RrPoll]\<rparr>, pending_events = []\<rparr>,
       Ready (GenerateEvent \<lparr>rq_peer_id = p, rq_request = q, rq_response_channel = 3\<rparr>)))"
  by (subst wrapped_poll.simps,
      simp add: wrapped_from_def server_wrapper_def default_poll_def server_new_def demo_inbound_def server_on_inner_event_def Let_def)
     (subst wrapped_poll.simps, simp)

definition demo_worker_behaviour ::
    "(peer_id \<Rightarrow> multiaddr set option, nat \<times> peer_id list, (query_id, peer_id) fmap, (unit + peer_id fset) list, unit) worker_behaviour" where
  "demo_worker_behaviour = wrapper (worker_behaviour_new demo_libs 0 demo_base (PeerId [9]) (worker_config_new (PeerId [8]) (PeerId [9])))"

lemma demo_worker_behaviour_fields:
  "wi_query (wb_inner demo_worker_behaviour) =
     wrapped_from (server_new (proto_codec_new max_query_size max_query_result_size) query_protocol)"
  "wb_query_response_channels demo_worker_behaviour = fmempty"
  by (simp_all add: demo_worker_behaviour_def worker_behaviour_new_def Let_def wrapped_from_def worker_config_new_def)

definition demo_worker_result :: query_result where
  "demo_worker_result = \<lparr>qr_query_id = ''q1'', qr_result = None\<rparr>"

text \<open>A signed query, received by the worker.\<close>

lemma demo_worker_query:
  fixes conn :: "(query, query_result) rr_call list \<Rightarrow> 'he conn_call \<Rightarrow> 'r"
  obtains q s where "q_query_id q = Some ''q1''"
    "worker_polled demo_libs demo_rr (demo_inbound (PeerId [0, 1]) q) conn demo_worker_behaviour [(PeerId [0, 1], q, 3)]
       [GenerateEvent (WkQuery (PeerId [0, 1]) q)] s"
    "worker_responses s = []"
proof -
  let ?p = "PeerId [0, 1]"
  let ?q0 = "\<lparr>q_query_id = Some ''q1'', q_dataset = None, q_query = None, q_profiling = None, q_client_state_json = None, q_signature = []\<rparr>"
  have "key_of_peer (l_crypto demo_libs) (Keypair []) ?p" using demo_key_of_peer [of "[]" 0 1] by (simp add: demo_libs_def)
  from query_sig.verify_sign [OF this, of "l_protobuf demo_libs" ?q0] obtain q where
    s: "sign (l_crypto demo_libs) (query_signed (l_protobuf demo_libs)) (Keypair []) ?q0 = Done q"
    and v: "verify_signature (l_crypto demo_libs) (query_signed (l_protobuf demo_libs)) ?p q = Done (True, q)" by blast
  from s have i: "q_query_id q = Some ''q1''" by (auto simp: sign_def query_signed_def)
  let ?rr = "demo_inbound ?p q" and ?w0 = demo_worker_behaviour
  obtain w where w: "wrapped_poll (server_wrapper ?rr conn) (wi_query (wb_inner ?w0)) =
      Some (Done (w, Ready (GenerateEvent \<lparr>rq_peer_id = ?p, rq_request = q, rq_response_channel = 3\<rparr>)))"
    and wr: "responses (wrapper w) = []"
    unfolding demo_worker_behaviour_fields demo_inbound_poll by (simp add: responses_def List.map_filter_simps)
  let ?s = "(set_server w ?w0)\<lparr>wb_query_response_channels := fmupd ''q1'' 3 (wb_query_response_channels ?w0)\<rparr>"
  have "worker_on_inner_event demo_libs demo_rr (set_server w ?w0) (WiQuery \<lparr>rq_peer_id = ?p, rq_request = q, rq_response_channel = 3\<rparr>) =
      Done (?s, [GenerateEvent (WkQuery ?p q)])"
    by (simp add: worker_on_inner_event_def worker_on_query_def v i del: run_bind_eq_Done)
  from worker_polled.query_event [OF w this] that [of q ?s] i wr show thesis by (simp add: List.map_filter_simps)
qed

theorem worker_result_routing_witness:
  "\<exists>q s. worker_run demo_libs demo_rr (demo_inbound (PeerId [0, 1]) q) (\<lambda>_ (_ :: unit conn_call). ()) demo_base (PeerId [9])
      (worker_config_new (PeerId [8]) (PeerId [9])) s [(PeerId [0, 1], q, 3)] \<and>
     worker_responses (worker_send_query_result (demo_inbound (PeerId [0, 1]) q) s demo_worker_result) = [(3, demo_worker_result)]"
proof -
  let ?conn = "\<lambda>(_ :: (query, query_result) rr_call list) (_ :: unit conn_call). ()" and ?cfg = "worker_config_new (PeerId [8]) (PeerId [9])"
  obtain q s where q: "q_query_id q = Some ''q1''" and p: "worker_polled demo_libs demo_rr (demo_inbound (PeerId [0, 1]) q) ?conn demo_worker_behaviour
      [(PeerId [0, 1], q, 3)] [GenerateEvent (WkQuery (PeerId [0, 1]) q)] s" and r: "worker_responses s = []" by (rule demo_worker_query)
  let ?rr = "demo_inbound (PeerId [0, 1]) q"
  have run: "worker_run demo_libs demo_rr ?rr ?conn demo_base (PeerId [9]) ?cfg s [(PeerId [0, 1], q, 3)]"
    using worker_run.polled [OF worker_run.new [of demo_libs demo_rr ?rr ?conn demo_base "PeerId [9]" ?cfg 0, folded demo_worker_behaviour_def] p] by simp
  from worker_result_routing [OF run, of demo_worker_result] r q run show ?thesis
    by (auto simp: latest_channel_def demo_worker_result_def)
qed

text \<open>
  For the witnesses of the transport: the worker receives this query, its application takes it and submits the result, which is served.
\<close>

type_synonym demo_wk =
  "((peer_id \<Rightarrow> multiaddr set option, nat \<times> peer_id list, (query_id, peer_id) fmap, (unit + peer_id fset) list, unit) worker_behaviour, worker_event, unit) wrapped"

definition demo_worker_queues ::
    "(nat \<times> ping list, nat \<times> query_result list, nat \<times> query_executed list list, nat \<times> worker_event list) worker_queues" where
  "demo_worker_queues = \<lparr>wq_pings = demo_mpsc, wq_query_results = demo_mpsc, wq_logs = demo_mpsc, wq_events = demo_mpsc\<rparr>"

definition demo_worker_conn :: "(query, query_result) rr_call list \<Rightarrow> unit conn_call \<Rightarrow> unit" where
  "demo_worker_conn calls c = ()"

definition demo_worker_swarm :: "(query, query_result, unit) rr \<Rightarrow> demo_wk \<Rightarrow> demo_wk \<Rightarrow> worker_event swarm_out \<Rightarrow> bool" where
  "demo_worker_swarm rr b b' ev \<longleftrightarrow>
     (\<exists>out. drives (worker_works demo_libs demo_rr rr demo_worker_conn) b out b' \<and>
        List.map_filter generated out = (case ev of Behaviour e \<Rightarrow> [e] | OtherSwarmOut \<Rightarrow> []))"

abbreviation demo_worker_config :: worker_config where
  "demo_worker_config \<equiv> worker_config_new (PeerId [8]) (PeerId [9])"

abbreviation demo_worker_step where
  "demo_worker_step rr \<equiv> worker_step demo_libs rr demo_worker_queues (demo_worker_swarm rr)"

lemma demo_worker_drives: "swarm_drives (worker_works demo_libs demo_rr rr demo_worker_conn) (demo_worker_swarm rr)"
  by (simp add: swarm_drives_def demo_worker_swarm_def)

lemma demo_worker_channels: "worker_channels demo_worker_queues snd fst snd fst snd fst snd fst"
  by (simp add: worker_channels_def demo_worker_queues_def demo_mpsc_laws)

lemma demo_worker_history:
  "\<exists>rr q t0 as t. worker_start_transport demo_worker_queues (Some MultiThread) metrics_init
       (worker_behaviour_new demo_libs 0 demo_base (PeerId [9]) demo_worker_config) demo_worker_config = Done t0 \<and>
     trace (demo_worker_step rr) t0 as t \<and> submitted as = [WmResult demo_worker_result] \<and> served as = [WmResult demo_worker_result] \<and>
     received as = [WkQuery (PeerId [0, 1]) q]"
proof -
  obtain q s where q: "q_query_id q = Some ''q1''" and p: "worker_polled demo_libs demo_rr (demo_inbound (PeerId [0, 1]) q) demo_worker_conn demo_worker_behaviour
      [(PeerId [0, 1], q, 3)] [GenerateEvent (WkQuery (PeerId [0, 1]) q)] s" by (rule demo_worker_query)
  let ?b = "worker_behaviour_new demo_libs 0 demo_base (PeerId [9]) demo_worker_config :: demo_wk"
  let ?e = "WkQuery (PeerId [0, 1]) q" and ?Q = demo_worker_queues and ?rr = "demo_inbound (PeerId [0, 1]) q" and ?res = demo_worker_result
  obtain t0 where t0: "worker_start_transport ?Q (Some MultiThread) metrics_init ?b demo_worker_config = Done t0"
    by (simp add: worker_start_transport_def spawn_transport_def task_manager_new_def task_manager_spawn_def)
  have f0: "wt_swarm t0 = ?b" "q_chan (wt_query_results t0) = (100, [])" "q_chan (wt_events t0) = (100, [])"
    using t0 by (auto simp: worker_start_transport_def new_queue_def demo_worker_queues_def demo_mpsc_def worker_config_new_def)
  let ?b1 = "?b\<lparr>wrapper := s, pending_events := [GenerateEvent ?e]\<rparr>"
  have "drives (worker_works demo_libs demo_rr ?rr demo_worker_conn) ?b [] ?b1"
    using drives.work [OF drives.nothing, of "worker_works demo_libs demo_rr ?rr demo_worker_conn" ?b] p
    by (auto simp: worker_behaviour_new_def demo_worker_behaviour_def Let_def wrapped_from_def)
  from drives.take [OF this, of "GenerateEvent ?e" "[]"]
  have sw: "demo_worker_swarm ?rr (wt_swarm t0) (?b1\<lparr>pending_events := []\<rparr>) (Behaviour ?e)"
    by (auto simp: demo_worker_swarm_def f0 List.map_filter_simps intro!: exI [of _ "[GenerateEvent ?e]"])
  define t1 where "t1 = worker_on_swarm_event ?Q (t0\<lparr>wt_swarm := ?b1\<lparr>pending_events := []\<rparr>\<rparr>) (Behaviour ?e)"
  have 1: "demo_worker_step ?rr t0 (FromSwarm (Behaviour ?e)) t1"
    unfolding t1_def by (rule worker_step.pass, rule worker_pass.swarm, rule sw)
  have f1: "q_chan (wt_events t1) = (100, [?e])" "q_chan (wt_query_results t1) = (100, [])"
    by (simp_all add: t1_def worker_on_swarm_event_def forward_event_def queue_send_lossy_def queue_try_send_def f0 demo_worker_queues_def demo_mpsc_def)
  have recv: "queue_recv (wq_events ?Q) (wt_events t1) (wt_metrics t1) =
      ((wt_events t1)\<lparr>q_chan := (100, [])\<rparr>, dec_queue_size (q_name (wt_events t1)) (wt_metrics t1), Ready (Some ?e))"
    by (simp add: queue_recv_def f1 demo_worker_queues_def demo_mpsc_def)
  note 2 = worker_step.event [OF recv, of demo_libs ?rr "demo_worker_swarm ?rr"]
  let ?t2 = "t1\<lparr>wt_events := (wt_events t1)\<lparr>q_chan := (100, [])\<rparr>, wt_metrics := dec_queue_size (q_name (wt_events t1)) (wt_metrics t1)\<rparr>"
  obtain t3 where t3: "worker_handle_send_query_result ?Q ?t2 ?res = (t3, Inr ())" and f3: "q_chan (wt_query_results t3) = (100, [?res])"
    by (simp add: worker_handle_send_query_result_def queue_try_send_def f1 demo_worker_queues_def demo_mpsc_def)
  have 3: "demo_worker_step ?rr ?t2 (Submitted (WmResult ?res) True) t3" using worker_step.send_query_result [OF t3] by simp
  have "\<exists>t4. demo_worker_step ?rr t3 (Served (WmResult ?res) []) t4"
    by (rule exI, rule worker_step.pass, rule worker_pass.query_results) (simp add: queue_recv_def f3 demo_worker_queues_def demo_mpsc_def)
  then obtain t4 where 4: "demo_worker_step ?rr t3 (Served (WmResult ?res) []) t4" ..
  note tr = trace.act [OF trace.act [OF trace.act [OF trace.act [OF trace.start [of "demo_worker_step ?rr" t0] 1] 2] 3] 4]
  show ?thesis by (rule exI, rule exI, rule exI, rule exI, rule exI, rule conjI, rule t0, rule conjI, rule tr)
      (simp add: submitted_def received_def served_def List.map_filter_simps)
qed


end
