(* ===== verification/Scheduler.thy ===== *)
theory Scheduler
  imports Transport_Loop
begin

text \<open>
  The scheduler (transport/src/actors/scheduler.rs): it receives the pings of the workers,
  sends them pongs, and probes whether peers can be reached.
\<close>

section \<open>The behaviour\<close>

datatype scheduler_event =
    ScPing peer_id ping
  | ScPeerProbed peer_id bool

record ('lru, 'fm, 'bm, 'ns, 'cmd) scheduler_inner =
  si_base :: "(('lru, 'fm, 'bm, 'ns) base, base_event, 'cmd) wrapped"
  si_pong :: "((pong, u32, 'fm) client, u32 client_event, 'cmd) wrapped"

datatype scheduler_inner_event =
    SiBase base_event
  | SiPong "u32 client_event"

record scheduler_config =
  sc_pong_config :: client_config
  sc_max_pong_size :: u64
  sc_pongs_queue_size :: nat
  sc_probes_queue_size :: nat
  sc_events_queue_size :: nat
  sc_shutdown_timeout :: nat

definition scheduler_config_default :: scheduler_config where
  "scheduler_config_default =
     \<lparr>sc_pong_config = client_config_default, sc_max_pong_size = max_pong_size, sc_pongs_queue_size = 1000,
      sc_probes_queue_size = 1000, sc_events_queue_size = 1000, sc_shutdown_timeout = default_shutdown_timeout\<rparr>"

record ('lru, 'fm, 'bm, 'ns, 'cmd) scheduler =
  sd_inner :: "('lru, 'fm, 'bm, 'ns, 'cmd) scheduler_inner"

definition scheduler_new ::
    "('lru, 'fm, 'bm, 'ns, 'err) libs \<Rightarrow> nat \<Rightarrow> ('lru, 'fm, 'bm, 'ns) base \<Rightarrow> scheduler_config \<Rightarrow>
     (('lru, 'fm, 'bm, 'ns, 'cmd) scheduler, scheduler_event, 'cmd) wrapped" where
  "scheduler_new L now base config =
     (let base = base_subscribe_pings L now base in
      wrapped_from \<lparr>sd_inner = \<lparr>si_base = wrapped_from base,
        si_pong = wrapped_from (client_new (l_timers L) (proto_codec_new (sc_max_pong_size config) ack_size)
          pong_protocol (sc_pong_config config))\<rparr>\<rparr>)"

definition scheduler_on_ping :: "crypto \<Rightarrow> peer_id \<Rightarrow> ping \<Rightarrow> scheduler_event option" where
  "scheduler_on_ping cr peer_id p =
     (case map_option (peer_from_str cr) (ping_worker_id p) of
        Some (Some worker_id) \<Rightarrow> if worker_id = peer_id then Some (ScPing peer_id p) else None
      | _ \<Rightarrow> None)"

definition scheduler_on_peer_probed :: "peer_id \<Rightarrow> bool \<Rightarrow> scheduler_event option" where
  "scheduler_on_peer_probed peer_id reachable = Some (ScPeerProbed peer_id reachable)"

definition scheduler_on_base_event :: "crypto \<Rightarrow> base_event \<Rightarrow> scheduler_event option" where
  "scheduler_on_base_event cr ev =
     (case ev of
        EvPing peer_id p \<Rightarrow> scheduler_on_ping cr peer_id p
      | EvPeerProbed peer_id reachable \<Rightarrow> scheduler_on_peer_probed peer_id reachable
      | _ \<Rightarrow> None)"

definition scheduler_on_pong_event ::
    "('lru, 'fm, 'bm, 'ns, 'err) libs \<Rightarrow> ('lru, 'fm, 'bm, 'ns, 'cmd) scheduler \<Rightarrow> u32 client_event \<Rightarrow>
     ('lru, 'fm, 'bm, 'ns, 'cmd) scheduler" where
  "scheduler_on_pong_event L self ev =
     (case ev of
        PeerUnknown peer_id \<Rightarrow> self\<lparr>sd_inner := (sd_inner self)\<lparr>si_base :=
          deref_mut (\<lambda>b. base_find_and_dial L b peer_id) (si_base (sd_inner self))\<rparr>\<rparr>
      | _ \<Rightarrow> self)"

definition scheduler_send_pong ::
    "(pong, u32, 'cmd) rr \<Rightarrow> ('lru, 'fm, 'bm, 'ns, 'cmd) scheduler \<Rightarrow> peer_id \<Rightarrow> pong \<Rightarrow> ('lru, 'fm, 'bm, 'ns, 'cmd) scheduler" where
  "scheduler_send_pong rr self peer_id p =
     self\<lparr>sd_inner := (sd_inner self)\<lparr>si_pong :=
       deref_mut (\<lambda>c. fst (client_try_send_request rr c peer_id p)) (si_pong (sd_inner self))\<rparr>\<rparr>"

definition scheduler_try_probe_peer ::
    "('lru, 'fm, 'bm, 'ns, 'err) libs \<Rightarrow> ('lru, 'fm, 'bm, 'ns, 'cmd) scheduler \<Rightarrow> peer_id \<Rightarrow>
     ('lru, 'fm, 'bm, 'ns, 'cmd) scheduler \<times> (queue_full + bool)" where
  "scheduler_try_probe_peer L self peer_id =
     (let w = si_base (sd_inner self); (b, r) = base_try_probe_peer L (wrapper w) peer_id in
      (self\<lparr>sd_inner := (sd_inner self)\<lparr>si_base := w\<lparr>wrapper := b\<rparr>\<rparr>\<rparr>, r))"

definition scheduler_on_inner_event ::
    "('lru, 'fm, 'bm, 'ns, 'err) libs \<Rightarrow> ('lru, 'fm, 'bm, 'ns, 'cmd) scheduler \<Rightarrow> scheduler_inner_event \<Rightarrow>
     ('lru, 'fm, 'bm, 'ns, 'cmd) scheduler \<times> (scheduler_event, 'cmd) to_swarm list" where
  "scheduler_on_inner_event L self ev =
     (let (self, ev) = (case ev of
          SiBase ev \<Rightarrow> (self, scheduler_on_base_event (l_crypto L) ev)
        | SiPong ev \<Rightarrow> (scheduler_on_pong_event L self ev, None)) in
      (self, case ev of Some e \<Rightarrow> [GenerateEvent e] | None \<Rightarrow> []))"

section \<open>The transport and its handle\<close>

record ('b, 'cp, 'cq, 'ce) scheduler_transport =
  st_swarm :: 'b
  st_pongs :: "'cp queue"
  st_probes :: "'cq queue"
  st_events :: "'ce queue"
  st_metrics :: metrics
  st_task_manager :: "unit task_manager"

record ('cp, 'cq, 'ce) scheduler_queues =
  sq_pongs :: "('cp, peer_id \<times> pong) mpsc"
  sq_probes :: "('cq, peer_id) mpsc"
  sq_events :: "('ce, scheduler_event) mpsc"

text \<open>The handle is made last, from the queues and the transport, with the task that runs the transport.\<close>

definition scheduler_handle_new ::
    "runtime_flavor option \<Rightarrow> metrics \<Rightarrow> 'b \<Rightarrow> 'cp queue \<Rightarrow> 'cq queue \<Rightarrow> 'ce queue \<Rightarrow> nat \<Rightarrow>
     ('b, 'cp, 'cq, 'ce) scheduler_transport run" where
  "scheduler_handle_new flavor m swarm pongs probes events shutdown_timeout =
     run_bind (spawn_transport flavor shutdown_timeout) (\<lambda>tm.
       Done \<lparr>st_swarm = swarm, st_pongs = pongs, st_probes = probes, st_events = events,
             st_metrics = m, st_task_manager = tm\<rparr>)"

definition scheduler_start_transport ::
    "('cp, 'cq, 'ce) scheduler_queues \<Rightarrow> runtime_flavor option \<Rightarrow> metrics \<Rightarrow> 'b \<Rightarrow> scheduler_config \<Rightarrow>
     ('b, 'cp, 'cq, 'ce) scheduler_transport run" where
  "scheduler_start_transport Q flavor m swarm config =
     scheduler_handle_new flavor m swarm
       (new_queue (sq_pongs Q) (sc_pongs_queue_size config) ''pongs'')
       (new_queue (sq_probes Q) (sc_probes_queue_size config) ''probes'')
       (new_queue (sq_events Q) (sc_events_queue_size config) ''events'')
       (sc_shutdown_timeout config)"

declare scheduler_handle_new_def [simp]

definition scheduler_handle_send_pong ::
    "('cp, 'cq, 'ce) scheduler_queues \<Rightarrow> ('b, 'cp, 'cq, 'ce) scheduler_transport \<Rightarrow> peer_id \<Rightarrow> pong \<Rightarrow>
     ('b, 'cp, 'cq, 'ce) scheduler_transport \<times> (queue_full + unit)" where
  "scheduler_handle_send_pong Q self peer_id p =
     (let (c, m, r) = queue_try_send (sq_pongs Q) (st_pongs self) (st_metrics self) (peer_id, p) in
      (self\<lparr>st_pongs := c, st_metrics := m\<rparr>, r))"

definition scheduler_handle_probe_peer ::
    "('cp, 'cq, 'ce) scheduler_queues \<Rightarrow> ('b, 'cp, 'cq, 'ce) scheduler_transport \<Rightarrow> peer_id \<Rightarrow>
     ('b, 'cp, 'cq, 'ce) scheduler_transport \<times> (queue_full + unit)" where
  "scheduler_handle_probe_peer Q self peer_id =
     (let (c, m, r) = queue_try_send (sq_probes Q) (st_probes self) (st_metrics self) peer_id in
      (self\<lparr>st_probes := c, st_metrics := m\<rparr>, r))"

definition scheduler_on_swarm_event ::
    "('cp, 'cq, 'ce) scheduler_queues \<Rightarrow> ('b, 'cp, 'cq, 'ce) scheduler_transport \<Rightarrow> scheduler_event swarm_out \<Rightarrow>
     ('b, 'cp, 'cq, 'ce) scheduler_transport" where
  "scheduler_on_swarm_event Q self ev =
     (let (c, m) = forward_event (sq_events Q) (st_events self) (st_metrics self) ev in
      self\<lparr>st_events := c, st_metrics := m\<rparr>)"

text \<open>
  A probe of a peer that is connected is answered at once; one that is scheduled is answered
  by an event of the behaviour; one for which there is no room is dropped.
\<close>

definition scheduler_probe_peer ::
    "('lru, 'fm, 'bm, 'ns, 'err) libs \<Rightarrow> ('cp, 'cq, 'ce) scheduler_queues \<Rightarrow>
     ((('lru, 'fm, 'bm, 'ns, 'cmd) scheduler, scheduler_event, 'cmd) wrapped, 'cp, 'cq, 'ce) scheduler_transport \<Rightarrow> peer_id \<Rightarrow>
     ((('lru, 'fm, 'bm, 'ns, 'cmd) scheduler, scheduler_event, 'cmd) wrapped, 'cp, 'cq, 'ce) scheduler_transport" where
  "scheduler_probe_peer L Q self peer_id =
     (let (s, r) = scheduler_try_probe_peer L (wrapper (st_swarm self)) peer_id;
          self = self\<lparr>st_swarm := (st_swarm self)\<lparr>wrapper := s\<rparr>\<rparr> in
      case r of
        Inr True \<Rightarrow>
          let (c, m) = queue_send_lossy (sq_events Q) (st_events self) (st_metrics self) (ScPeerProbed peer_id True) in
          self\<lparr>st_events := c, st_metrics := m\<rparr>
      | _ \<Rightarrow> self)"

datatype scheduler_msg = SmPong peer_id pong | SmProbe peer_id

text \<open>The events that \<open>probe_peer\<close> itself reports: the peer is reachable if it is connected.\<close>

definition scheduler_probe_events :: "peer_id \<Rightarrow> queue_full + bool \<Rightarrow> scheduler_event list" where
  "scheduler_probe_events p r = (if r = Inr True then [ScPeerProbed p True] else [])"

inductive scheduler_pass ::
    "('lru, 'fm, 'bm, 'ns, 'err) libs \<Rightarrow> (pong, u32, 'cmd) rr \<Rightarrow> ('cp, 'cq, 'ce) scheduler_queues \<Rightarrow>
     ((('lru, 'fm, 'bm, 'ns, 'cmd) scheduler, scheduler_event, 'cmd) wrapped \<Rightarrow> (('lru, 'fm, 'bm, 'ns, 'cmd) scheduler, scheduler_event, 'cmd) wrapped \<Rightarrow> scheduler_event swarm_out \<Rightarrow> bool) \<Rightarrow>
     ((('lru, 'fm, 'bm, 'ns, 'cmd) scheduler, scheduler_event, 'cmd) wrapped, 'cp, 'cq, 'ce) scheduler_transport \<Rightarrow> (scheduler_msg, scheduler_event) act \<Rightarrow>
     ((('lru, 'fm, 'bm, 'ns, 'cmd) scheduler, scheduler_event, 'cmd) wrapped, 'cp, 'cq, 'ce) scheduler_transport option run \<Rightarrow> bool"
  for L rrp Q sw where
  cancelled: "tm_cancel_token (st_task_manager t) \<Longrightarrow> scheduler_pass L rrp Q sw t Stopped (Done None)"
| swarm: "sw (st_swarm t) b ev \<Longrightarrow>
    scheduler_pass L rrp Q sw t (FromSwarm ev) (Done (Some (scheduler_on_swarm_event Q (t\<lparr>st_swarm := b\<rparr>) ev)))"
| pongs: "queue_recv (sq_pongs Q) (st_pongs t) (st_metrics t) = (c, m, Ready (Some (p, pong))) \<Longrightarrow>
    scheduler_pass L rrp Q sw t (Served (SmPong p pong) [])
      (Done (Some (t\<lparr>st_pongs := c, st_metrics := m, st_swarm := deref_mut (\<lambda>s. scheduler_send_pong rrp s p pong) (st_swarm t)\<rparr>)))"
| probes: "queue_recv (sq_probes Q) (st_probes t) (st_metrics t) = (c, m, Ready (Some p)) \<Longrightarrow>
    scheduler_pass L rrp Q sw t
      (Served (SmProbe p) (scheduler_probe_events p (snd (scheduler_try_probe_peer L (wrapper (st_swarm t)) p))))
      (Done (Some (scheduler_probe_peer L Q (t\<lparr>st_probes := c, st_metrics := m\<rparr>) p)))"

text \<open>The transport together with the application.\<close>

inductive scheduler_step ::
    "('lru, 'fm, 'bm, 'ns, 'err) libs \<Rightarrow> (pong, u32, 'cmd) rr \<Rightarrow> ('cp, 'cq, 'ce) scheduler_queues \<Rightarrow>
     ((('lru, 'fm, 'bm, 'ns, 'cmd) scheduler, scheduler_event, 'cmd) wrapped \<Rightarrow> (('lru, 'fm, 'bm, 'ns, 'cmd) scheduler, scheduler_event, 'cmd) wrapped \<Rightarrow> scheduler_event swarm_out \<Rightarrow> bool) \<Rightarrow>
     ((('lru, 'fm, 'bm, 'ns, 'cmd) scheduler, scheduler_event, 'cmd) wrapped, 'cp, 'cq, 'ce) scheduler_transport \<Rightarrow> (scheduler_msg, scheduler_event) act \<Rightarrow>
     ((('lru, 'fm, 'bm, 'ns, 'cmd) scheduler, scheduler_event, 'cmd) wrapped, 'cp, 'cq, 'ce) scheduler_transport \<Rightarrow> bool"
  for L rrp Q sw where
  send_pong: "scheduler_handle_send_pong Q t p pong = (t', r) \<Longrightarrow> scheduler_step L rrp Q sw t (Submitted (SmPong p pong) (r = Inr ())) t'"
| probe_peer: "scheduler_handle_probe_peer Q t p = (t', r) \<Longrightarrow> scheduler_step L rrp Q sw t (Submitted (SmProbe p) (r = Inr ())) t'"
| pass: "scheduler_pass L rrp Q sw t a (Done (Some t')) \<Longrightarrow> scheduler_step L rrp Q sw t a t'"
| event: "queue_recv (sq_events Q) (st_events t) (st_metrics t) = (c, m, Ready (Some e)) \<Longrightarrow>
    scheduler_step L rrp Q sw t (Received e) (t\<lparr>st_events := c, st_metrics := m\<rparr>)"

fun scheduler_queue :: "scheduler_msg \<Rightarrow> string" where
  "scheduler_queue (SmPong p pong) = ''pongs''"
| "scheduler_queue (SmProbe p) = ''probes''"

definition scheduler_queued ::
    "('cp \<Rightarrow> (peer_id \<times> pong) list) \<Rightarrow> ('cq \<Rightarrow> peer_id list) \<Rightarrow> ('b, 'cp, 'cq, 'ce) scheduler_transport \<Rightarrow> string \<Rightarrow> scheduler_msg list" where
  "scheduler_queued ip iq t n =
     (if n = ''pongs'' then map (\<lambda>(p, pong). SmPong p pong) (ip (q_chan (st_pongs t)))
      else if n = ''probes'' then map SmProbe (iq (q_chan (st_probes t))) else [])"

definition scheduler_fits ::
    "scheduler_config \<Rightarrow> ('cp \<Rightarrow> (peer_id \<times> pong) list) \<Rightarrow> ('cp \<Rightarrow> nat) \<Rightarrow> ('cq \<Rightarrow> peer_id list) \<Rightarrow> ('cq \<Rightarrow> nat) \<Rightarrow>
     ('ce \<Rightarrow> scheduler_event list) \<Rightarrow> ('ce \<Rightarrow> nat) \<Rightarrow> ('b, 'cp, 'cq, 'ce) scheduler_transport \<Rightarrow> bool" where
  "scheduler_fits config ip cp iq cq ie ce t \<longleftrightarrow> fits ip cp (sc_pongs_queue_size config) ''pongs'' (st_pongs t) \<and>
     fits iq cq (sc_probes_queue_size config) ''probes'' (st_probes t) \<and> fits ie ce (sc_events_queue_size config) ''events'' (st_events t)"

definition scheduler_channels ::
    "('cp, 'cq, 'ce) scheduler_queues \<Rightarrow> ('cp \<Rightarrow> (peer_id \<times> pong) list) \<Rightarrow> ('cp \<Rightarrow> nat) \<Rightarrow> ('cq \<Rightarrow> peer_id list) \<Rightarrow> ('cq \<Rightarrow> nat) \<Rightarrow>
     ('ce \<Rightarrow> scheduler_event list) \<Rightarrow> ('ce \<Rightarrow> nat) \<Rightarrow> bool" where
  "scheduler_channels Q ip cp iq cq ie ce \<longleftrightarrow>
     mpsc_laws (sq_pongs Q) ip cp \<and> mpsc_laws (sq_probes Q) iq cq \<and> mpsc_laws (sq_events Q) ie ce"

definition scheduler_handles ::
    "('lru, 'fm, 'bm, 'ns, 'err) libs \<Rightarrow> (pong, u32, 'cmd) rr \<Rightarrow> scheduler_msg \<Rightarrow>
     (('lru, 'fm, 'bm, 'ns, 'cmd) scheduler, scheduler_event, 'cmd) wrapped \<Rightarrow> (('lru, 'fm, 'bm, 'ns, 'cmd) scheduler, scheduler_event, 'cmd) wrapped \<Rightarrow> scheduler_event list \<Rightarrow> bool" where
  "scheduler_handles L rrp msg b b' es =
     (case msg of
        SmPong p pong \<Rightarrow> b' = deref_mut (\<lambda>s. scheduler_send_pong rrp s p pong) b \<and> es = []
      | SmProbe p \<Rightarrow> \<exists>s r. scheduler_try_probe_peer L (wrapper b) p = (s, r) \<and> b' = b\<lparr>wrapper := s\<rparr> \<and> es = scheduler_probe_events p r)"

text \<open>How \<open>probe_peer\<close> changes the transport: the behaviour, and the events queue as if the events came from the swarm.\<close>

lemma scheduler_probe_peer_cases:
  assumes "mpsc_laws (sq_events Q) ie ce" and "scheduler_try_probe_peer L (wrapper (st_swarm t)) p = (s, r)"
  shows "st_swarm (scheduler_probe_peer L Q t p) = (st_swarm t)\<lparr>wrapper := s\<rparr>"
    and "st_pongs (scheduler_probe_peer L Q t p) = st_pongs t" and "st_probes (scheduler_probe_peer L Q t p) = st_probes t"
    and "events_conserved [Served msg (scheduler_probe_events p r)] (ie (q_chan (st_events t)), dropped (st_metrics t) (q_name (st_events t)))
      (ie (q_chan (st_events (scheduler_probe_peer L Q t p))),
       dropped (st_metrics (scheduler_probe_peer L Q t p)) (q_name (st_events (scheduler_probe_peer L Q t p))))"
    and "fits ie ce sz name (st_events t) \<Longrightarrow> fits ie ce sz name (st_events (scheduler_probe_peer L Q t p))"
proof -
  obtain c m where c: "queue_send_lossy (sq_events Q) (st_events t) (st_metrics t) (ScPeerProbed p True) = (c, m)" by fastforce
  note i = queue_send_lossy_items [OF assms(1) c]
  consider "r = Inr True" "scheduler_probe_peer L Q t p = t\<lparr>st_swarm := (st_swarm t)\<lparr>wrapper := s\<rparr>, st_events := c, st_metrics := m\<rparr>"
    | "r \<noteq> Inr True" "scheduler_probe_peer L Q t p = t\<lparr>st_swarm := (st_swarm t)\<lparr>wrapper := s\<rparr>\<rparr>"
    using assms(2) c by (cases "r = Inr True") (auto simp: scheduler_probe_peer_def Let_def split: sum.split bool.split)
  then show "st_swarm (scheduler_probe_peer L Q t p) = (st_swarm t)\<lparr>wrapper := s\<rparr>"
    and "st_pongs (scheduler_probe_peer L Q t p) = st_pongs t" and "st_probes (scheduler_probe_peer L Q t p) = st_probes t"
    and "events_conserved [Served msg (scheduler_probe_events p r)] (ie (q_chan (st_events t)), dropped (st_metrics t) (q_name (st_events t)))
      (ie (q_chan (st_events (scheduler_probe_peer L Q t p))),
       dropped (st_metrics (scheduler_probe_peer L Q t p)) (q_name (st_events (scheduler_probe_peer L Q t p))))"
    and "fits ie ce sz name (st_events t) \<Longrightarrow> fits ie ce sz name (st_events (scheduler_probe_peer L Q t p))"
    using i by (cases; simp add: events_conserved_def scheduler_probe_events_def)+
qed

text \<open>What a step keeps, as the interface asks for it.\<close>

abbreviation scheduler_keeps where
  "scheduler_keeps config ip cp iq cq ie ce \<equiv> step_keeps scheduler_queue (scheduler_queued ip iq) (\<lambda>t. ie (q_chan (st_events t)))
     (\<lambda>t. dropped (st_metrics t) (q_name (st_events t))) (scheduler_fits config ip cp iq cq ie ce)"

lemma scheduler_pass_keeps:
  assumes "scheduler_pass L rrp Q sw t a (Done (Some t'))" and "scheduler_channels Q ip cp iq cq ie ce"
  shows "scheduler_keeps config ip cp iq cq ie ce t a t'"
proof -
  from assms(2) have laws: "mpsc_laws (sq_pongs Q) ip cp" "mpsc_laws (sq_probes Q) iq cq" "mpsc_laws (sq_events Q) ie ce"
    by (simp_all add: scheduler_channels_def)
  note defs = step_keeps_def conserved_def scheduler_queued_def scheduler_fits_def events_conserved_def
  from assms(1) show ?thesis
  proof cases
    case (swarm b ev)
    then obtain c m where f: "forward_event (sq_events Q) (st_events t) (st_metrics t) ev = (c, m)"
      and t': "t' = t\<lparr>st_swarm := b, st_events := c, st_metrics := m\<rparr>"
      by (auto simp: scheduler_on_swarm_event_def split: prod.splits)
    from forward_event_items [OF laws(3) f] swarm(1) show ?thesis by (auto simp: step_keeps_def conserved_def scheduler_queued_def scheduler_fits_def t')
  next
    case (pongs c m p pong)
    then show ?thesis using queue_recv_items [OF laws(1) pongs(3)] by (auto simp: defs)
  next
    case (probes c m p)
    obtain s r where sr: "scheduler_try_probe_peer L (wrapper (st_swarm t)) p = (s, r)" by fastforce
    note i = queue_recv_items [OF laws(2) probes(3)]
      and f = scheduler_probe_peer_cases [OF laws(3), of L "t\<lparr>st_probes := c, st_metrics := m\<rparr>" p s r]
    from f(4) [of "SmProbe p"] probes sr i show ?thesis
      using f(2,3) f(5) by (auto simp: step_keeps_def conserved_def scheduler_queued_def scheduler_fits_def)
  qed
qed

lemma scheduler_step_keeps:
  assumes "scheduler_step L rrp Q sw t a t'" and "scheduler_channels Q ip cp iq cq ie ce"
  shows "scheduler_keeps config ip cp iq cq ie ce t a t'"
proof -
  from assms(2) have laws: "mpsc_laws (sq_pongs Q) ip cp" "mpsc_laws (sq_probes Q) iq cq" "mpsc_laws (sq_events Q) ie ce"
    by (simp_all add: scheduler_channels_def)
  note defs = step_keeps_def conserved_def scheduler_queued_def scheduler_fits_def events_conserved_def
  from assms(1) show ?thesis
  proof cases
    case (send_pong p pong r)
    then obtain c m where q: "queue_try_send (sq_pongs Q) (st_pongs t) (st_metrics t) (p, pong) = (c, m, r)" and t': "t' = t\<lparr>st_pongs := c, st_metrics := m\<rparr>"
      by (auto simp: scheduler_handle_send_pong_def split: prod.splits)
    from queue_try_send_items [OF laws(1) q] send_pong(1) show ?thesis by (auto simp: defs t')
  next
    case (probe_peer p r)
    then obtain c m where q: "queue_try_send (sq_probes Q) (st_probes t) (st_metrics t) p = (c, m, r)" and t': "t' = t\<lparr>st_probes := c, st_metrics := m\<rparr>"
      by (auto simp: scheduler_handle_probe_peer_def split: prod.splits)
    from queue_try_send_items [OF laws(2) q] probe_peer(1) show ?thesis by (auto simp: defs t')
  next
    case pass
    from scheduler_pass_keeps [OF this assms(2)] show ?thesis .
  next
    case (event c m e)
    then show ?thesis using queue_recv_items [OF laws(3) event(3)] by (auto simp: defs)
  qed
qed

lemma scheduler_step_behaves:
  assumes "scheduler_step L rrp Q sw t a t'"
  shows "behaves (scheduler_handles L rrp) sw (st_swarm t) a (st_swarm t')"
  using assms
proof cases
  case pass
  then show ?thesis
    by cases (auto simp: scheduler_handles_def scheduler_on_swarm_event_def scheduler_probe_peer_def Let_def
        split: prod.splits sum.splits bool.splits)
qed (auto simp: scheduler_handle_send_pong_def scheduler_handle_probe_peer_def split: prod.splits)

interpretation scheduler_loop: transport_loop "scheduler_step L rrp Q sw" scheduler_queue "scheduler_queued ip iq"
    "\<lambda>t. ie (q_chan (st_events t))" "\<lambda>t. dropped (st_metrics t) (q_name (st_events t))" st_swarm "scheduler_fits config ip cp iq cq ie ce"
    "scheduler_handles L rrp" sw "scheduler_channels Q ip cp iq cq ie ce"
  by unfold_locales (auto intro: scheduler_step_keeps scheduler_step_behaves)

lemma scheduler_started:
  assumes "scheduler_start_transport Q flavor m b config = Done t" and "scheduler_channels Q ip cp iq cq ie ce"
  shows "scheduler_fits config ip cp iq cq ie ce t" "scheduler_queued ip iq t n = []" "ie (q_chan (st_events t)) = []"
    "st_swarm t = b" "st_metrics t = m" "q_name (st_events t) = ''events''"
proof -
  from assms(1) have t: "st_pongs t = new_queue (sq_pongs Q) (sc_pongs_queue_size config) ''pongs''"
      "st_probes t = new_queue (sq_probes Q) (sc_probes_queue_size config) ''probes''"
      "st_events t = new_queue (sq_events Q) (sc_events_queue_size config) ''events''" "st_swarm t = b" "st_metrics t = m"
    by (auto simp: scheduler_start_transport_def)
  from assms(2) have laws: "mpsc_laws (sq_pongs Q) ip cp" "mpsc_laws (sq_probes Q) iq cq" "mpsc_laws (sq_events Q) ie ce"
    by (simp_all add: scheduler_channels_def)
  show "scheduler_fits config ip cp iq cq ie ce t" "scheduler_queued ip iq t n = []" "ie (q_chan (st_events t)) = []"
    "st_swarm t = b" "st_metrics t = m" "q_name (st_events t) = ''events''"
    using laws [THEN new_queue_fits(1)] laws [THEN new_queue_fits(2)]
    by (auto simp: t scheduler_fits_def scheduler_queued_def new_queue_def)
qed

section \<open>The application's view\<close>

abbreviation set_base where
  "set_base w self \<equiv> self\<lparr>sd_inner := (sd_inner self)\<lparr>si_base := w\<rparr>\<rparr>"

text \<open>
  How the swarm makes the behaviour work: commands are taken from the base behaviour, and its events are handled; the pong client may
  do anything, report any event and send commands.
\<close>

inductive scheduler_polled ::
    "('lru, 'fm, 'bm, 'ns, 'err) libs \<Rightarrow> ('lru, 'fm, 'bm, 'ns, 'cmd) scheduler \<Rightarrow> (scheduler_event, 'cmd) to_swarm list \<Rightarrow>
     ('lru, 'fm, 'bm, 'ns, 'cmd) scheduler \<Rightarrow> bool"
  for L where
  base_event: "drives (base_works L) (si_base (sd_inner s)) [GenerateEvent ev] w \<Longrightarrow>
    scheduler_on_inner_event L (set_base w s) (SiBase ev) = (s', evs) \<Longrightarrow> scheduler_polled L s evs s'"
| base_cmd: "drives (base_works L) (si_base (sd_inner s)) [c] w \<Longrightarrow> map_out c = Done c' \<Longrightarrow> scheduler_polled L s [c'] (set_base w s)"
| base_pending: "drives (base_works L) (si_base (sd_inner s)) [] w \<Longrightarrow> scheduler_polled L s [] (set_base w s)"
| pong_event: "scheduler_on_inner_event L (s\<lparr>sd_inner := (sd_inner s)\<lparr>si_pong := c\<rparr>\<rparr>) (SiPong ev) = (s', evs) \<Longrightarrow>
    scheduler_polled L s evs s'"
| pong_cmds: "List.map_filter generated cmds = [] \<Longrightarrow>
    scheduler_polled L s cmds (s\<lparr>sd_inner := (sd_inner s)\<lparr>si_pong := c\<rparr>\<rparr>)"

text \<open>The results of probes among the events, and the probes among the messages.\<close>

fun probe_key :: "scheduler_event \<Rightarrow> peer_id option" where
  "probe_key (ScPeerProbed p r) = Some p"
| "probe_key (ScPing p m) = None"

fun msg_probe :: "scheduler_msg \<Rightarrow> peer_id option" where
  "msg_probe (SmProbe p) = Some p"
| "msg_probe (SmPong p m) = None"

lemma msg_probe_queue: "List.map_filter msg_probe (on_queue scheduler_queue ''probes'' ms) = List.map_filter msg_probe ms"
proof (induction ms)
  case (Cons m ms)
  then show ?case by (cases m) (simp_all add: List.map_filter_simps)
qed simp

abbreviation probe_results where
  "probe_results cmds \<equiv> List.map_filter probe_key (List.map_filter generated cmds)"

text \<open>The commands of the scheduler report the probes that the base behaviour has reported to it.\<close>

definition scheduler_inv ::
    "('lru, 'fm, 'bm, 'ns, 'err) libs \<Rightarrow> ('lru, 'fm, 'bm, 'ns) base \<Rightarrow> ('lru, 'fm, 'bm, 'ns, 'cmd) scheduler \<Rightarrow> peer_id list \<Rightarrow>
     (scheduler_event, 'cmd) to_swarm list \<Rightarrow> bool" where
  "scheduler_inv L b0 s ps out \<longleftrightarrow>
     (\<exists>taken. base_delivered L b0 (si_base (sd_inner s)) ps taken \<and> probe_results out = probed taken)"

lemma scheduler_base_event_probes:
  "scheduler_on_inner_event L s (SiBase ev) = (s', evs) \<Longrightarrow>
     s' = s \<and> probe_results evs = probed [GenerateEvent ev :: (base_event, 'cmd) to_swarm]"
  by (auto simp: scheduler_on_inner_event_def scheduler_on_base_event_def scheduler_on_ping_def scheduler_on_peer_probed_def
      List.map_filter_simps split: base_event.splits option.splits if_splits)

lemma map_out_not_probed: "map_out c = Done c' \<Longrightarrow> probe_result c = [] \<and> generated c' = None"
  by (cases c) auto

lemma scheduler_polled_inv:
  fixes s :: "('lru, 'fm, 'bm, 'ns, 'cmd) scheduler"
  assumes "scheduler_polled L s evs s'" and "scheduler_inv L b0 s ps out"
  shows "scheduler_inv L b0 s' ps (out @ evs)"
proof -
  from assms(2) obtain taken where d: "base_delivered L b0 (si_base (sd_inner s)) ps taken" and t: "probe_results out = probed taken"
    by (auto simp: scheduler_inv_def)
  from assms(1) show ?thesis
  proof cases
    case (base_event ev w)
    note e = scheduler_base_event_probes [where 'cmd = 'cmd, OF base_event(2)]
    from base_delivered_drives [OF d base_event(1)] e t show ?thesis
      by (auto simp: scheduler_inv_def intro!: exI [of _ "taken @ [GenerateEvent ev]"])
  next
    case (base_cmd c w c')
    from base_delivered_drives [OF d base_cmd(3)] map_out_not_probed [OF base_cmd(4)] t base_cmd(1,2) show ?thesis
      by (auto simp: scheduler_inv_def List.map_filter_simps intro!: exI [of _ "taken @ [c]"])
  next
    case (base_pending w)
    with base_delivered_drives [OF d base_pending(3)] t show ?thesis by (auto simp: scheduler_inv_def)
  next
    case (pong_event c ev)
    with d t base_delivered_find [OF d] show ?thesis
      by (auto simp: scheduler_inv_def scheduler_on_inner_event_def scheduler_on_pong_event_def List.map_filter_simps
          split: client_event.splits intro!: exI [of _ taken])
  next
    case (pong_cmds c)
    with d t show ?thesis by (auto simp: scheduler_inv_def List.map_filter_simps)
  qed
qed

text \<open>
  A probe that the application asks for is added to the running ones, or its result is known at once. In either case the invariant stays.
\<close>

lemma scheduler_inv_probe:
  assumes inv: "scheduler_inv L b0 s ps out" and s': "scheduler_try_probe_peer L s p = (s', r)"
  obtains new where "scheduler_inv L b0 s' (ps @ new) out" "mset new + mset (List.map_filter probe_key (scheduler_probe_events p r)) \<subseteq># {#p#}"
proof -
  from inv obtain tk where d: "base_delivered L b0 (si_base (sd_inner s)) ps tk" and tk: "probe_results out = probed tk"
    by (auto simp: scheduler_inv_def)
  obtain b where b: "base_try_probe_peer L (wrapper (si_base (sd_inner s))) p = (b, r)" "s' = set_base ((si_base (sd_inner s))\<lparr>wrapper := b\<rparr>) s"
    using s' by (auto simp: scheduler_try_probe_peer_def Let_def split: prod.splits)
  from base_delivered_probe [OF d b(1)] obtain new where
    new: "base_delivered L b0 (si_base (sd_inner s')) (ps @ new) tk" "new = [] \<or> new = [p] \<and> r = Inr False"
    by (auto simp: b(2))
  show thesis
  proof
    show "scheduler_inv L b0 s' (ps @ new) out" using new(1) tk by (auto simp: scheduler_inv_def)
    show "mset new + mset (List.map_filter probe_key (scheduler_probe_events p r)) \<subseteq># {#p#}"
      using new(2) by (auto simp: scheduler_probe_events_def List.map_filter_simps)
  qed
qed

lemma scheduler_inv_drives:
  assumes "drives (scheduler_polled L) b out b'" and "scheduler_inv L b0 (wrapper b) ps (taken @ pending_events b)"
  shows "scheduler_inv L b0 (wrapper b') ps ((taken @ out) @ pending_events b')"
proof -
  have "scheduler_inv L b0 (wrapper b') ps (taken @ out @ pending_events b')"
  proof (rule drives_invariant [OF assms(1), where I = "\<lambda>s cs. scheduler_inv L b0 s ps (taken @ cs)"])
    fix s cs evs s' assume "scheduler_inv L b0 s ps (taken @ cs)" "scheduler_polled L s evs s'"
    from scheduler_polled_inv [OF this(2,1)] show "scheduler_inv L b0 s' ps (taken @ cs @ evs)" by simp
  qed (rule assms(2))
  then show ?thesis by simp
qed

lemma scheduler_trace_probes:
  fixes b :: "(('lru, 'fm, 'bm, 'ns, 'cmd) scheduler, scheduler_event, 'cmd) wrapped"
  assumes "trace (behaves (scheduler_handles L rrp) sw) (scheduler_new L now b0 config) as b"
    and sw: "swarm_drives (scheduler_polled L) sw"
  shows "\<exists>ps taken at_once. scheduler_inv L (base_subscribe_pings L now b0) (wrapper b) ps (taken @ pending_events b) \<and>
    mset (List.map_filter probe_key (offered as)) = mset (probe_results taken) + at_once \<and>
    mset ps + at_once \<subseteq># mset (List.map_filter msg_probe (served as))"
  using assms(1)
proof (induction "scheduler_new L now b0 config :: (('lru, 'fm, 'bm, 'ns, 'cmd) scheduler, scheduler_event, 'cmd) wrapped" as b rule: trace.induct)
  case start
  have "base_delivered L (base_subscribe_pings L now b0) (wrapped_from (base_subscribe_pings L now b0)) [] []"
    by (auto simp: base_delivered_def wrapped_from_def intro!: exI base_run.start)
  then show ?case
    by (intro exI [of _ "[]"] exI [of _ "{#}"])
       (auto simp: scheduler_inv_def scheduler_new_def Let_def wrapped_from_def List.map_filter_simps intro!: exI [of _ "[]"])
next
  case (act as b a b')
  let ?inv = "scheduler_inv L (base_subscribe_pings L now b0)"
  from act obtain ps taken at_once where inv: "?inv (wrapper b) ps (taken @ pending_events b)"
    and off: "mset (List.map_filter probe_key (offered as)) = mset (probe_results taken) + at_once"
    and sub: "mset ps + at_once \<subseteq># mset (List.map_filter msg_probe (served as))" by blast
  show ?case
  proof (cases a)
    case (Served m es)
    note h = act.hyps(3) [unfolded Served behaves_simps scheduler_handles_def]
    show ?thesis
    proof (cases m)
      case (SmPong p pong)
      with h have b': "b' = deref_mut (\<lambda>s. scheduler_send_pong rrp s p pong) b" "es = []" by auto
      have "?inv (wrapper b') ps (taken @ pending_events b')" using inv by (simp add: b' scheduler_inv_def scheduler_send_pong_def)
      with off sub b'(2) Served SmPong show ?thesis
        by (intro exI [of _ ps] exI [of _ taken] exI [of _ at_once]) (simp add: List.map_filter_simps)
    next
      case (SmProbe p)
      with h obtain s r where s: "scheduler_try_probe_peer L (wrapper b) p = (s, r)" "b' = b\<lparr>wrapper := s\<rparr>" "es = scheduler_probe_events p r" by auto
      from scheduler_inv_probe [OF inv s(1)] obtain new where new: "?inv (wrapper b') (ps @ new) (taken @ pending_events b')"
        "mset new + mset (List.map_filter probe_key es) \<subseteq># {#p#}" by (auto simp: s)
      note new(1)
      moreover have "mset (List.map_filter probe_key (offered (as @ [a]))) = mset (probe_results taken) + (at_once + mset (List.map_filter probe_key es))"
        using off by (simp add: Served)
      moreover have "mset (ps @ new) + (at_once + mset (List.map_filter probe_key es)) \<subseteq># mset (List.map_filter msg_probe (served (as @ [a])))"
        using subset_mset.add_mono [OF sub new(2)] by (simp add: Served SmProbe List.map_filter_simps ac_simps)
      ultimately show ?thesis by blast
    qed
  next
    case (FromSwarm ev)
    with act.hyps(3) have "sw b b' ev" by simp
    with sw obtain out where out: "drives (scheduler_polled L) b out b'"
      "List.map_filter generated out = (case ev of Behaviour e \<Rightarrow> [e] | OtherSwarmOut \<Rightarrow> [])" by (rule swarm_drivesE)
    have "?inv (wrapper b') ps ((taken @ out) @ pending_events b')" by (rule scheduler_inv_drives [OF out(1) inv])
    moreover have "mset (List.map_filter probe_key (offered (as @ [a]))) = mset (probe_results (taken @ out)) + at_once"
      using off by (simp add: FromSwarm out(2))
    ultimately show ?thesis using sub FromSwarm by (intro exI [of _ ps] exI [of _ "taken @ out"] exI [of _ at_once] conjI) simp_all
  qed (use act.hyps(3) inv off sub in \<open>auto intro!: exI [of _ ps] exI [of _ taken] exI [of _ at_once]\<close>)
qed

section \<open>Properties\<close>

text \<open>The scheduler's transport delivers like the others.\<close>

lemma scheduler_delivery:
  assumes "scheduler_start_transport Q flavor m b config = Done t0" and "trace (scheduler_step L rrp Q sw) t0 as t"
    and "scheduler_channels Q ip cp iq cq ie ce"
  shows "\<forall>n. on_queue scheduler_queue n (served as) @ scheduler_queued ip iq t n = on_queue scheduler_queue n (submitted as)"
    and "subseq (received as @ ie (q_chan (st_events t))) (offered as)"
    and "dropped (st_metrics t) ''events'' =
      dropped m ''events'' + of_nat (length (offered as) - length (received as @ ie (q_chan (st_events t))))"
    and "scheduler_fits config ip cp iq cq ie ce t"
    and "trace (behaves (scheduler_handles L rrp) sw) b as (st_swarm t)"
proof -
  note start = scheduler_started [OF assms(1,3)]
  note d = scheduler_loop.delivery [OF assms(2,3) start(1-3)]
  have "q_name (st_events t) = ''events''" using d(5) by (simp add: scheduler_fits_def fits_def)
  with d start show "\<forall>n. on_queue scheduler_queue n (served as) @ scheduler_queued ip iq t n = on_queue scheduler_queue n (submitted as)"
    and "subseq (received as @ ie (q_chan (st_events t))) (offered as)"
    and "dropped (st_metrics t) ''events'' =
      dropped m ''events'' + of_nat (length (offered as) - length (received as @ ie (q_chan (st_events t))))"
    and "scheduler_fits config ip cp iq cq ie ce t"
    and "trace (behaves (scheduler_handles L rrp) sw) b as (st_swarm t)" by simp_all
qed

text \<open>
  C13. What the application sees of its probes. Suppose that the swarm only drives the behaviour and no probe is running at the start. Then, in
  every history of the scheduler's transport, the results of probes that the application receives, those of connected peers that are
  reported at once included, can be matched with probes that it has submitted and the queue has taken: each result is for
  the peer of its own probe, and no probe gets two results.
\<close>

theorem scheduler_probe_results:
  assumes "scheduler_start_transport Q flavor m (scheduler_new L now b0 config) config = Done t0" and "trace (scheduler_step L rrp Q sw) t0 as t"
    and "scheduler_channels Q ip cp iq cq ie ce" and "swarm_drives (scheduler_polled L) sw"
    and "futures_map_laws (l_timers L) cap" and "fm_keys (l_timers L) (bb_probe_timeouts b0) = {}"
  shows "mset (List.map_filter probe_key (received as)) \<subseteq># mset (List.map_filter msg_probe (submitted as))"
proof -
  note d = scheduler_delivery [OF assms(1-3)]
  from scheduler_trace_probes [OF d(5) assms(4)] obtain ps taken at_once where
    inv: "scheduler_inv L (base_subscribe_pings L now b0) (wrapper (st_swarm t)) ps (taken @ pending_events (st_swarm t))"
    and off: "mset (List.map_filter probe_key (offered as)) = mset (probe_results taken) + at_once"
    and sub: "mset ps + at_once \<subseteq># mset (List.map_filter msg_probe (served as))" by blast
  from inv obtain tk where tk: "base_delivered L (base_subscribe_pings L now b0) (si_base (sd_inner (wrapper (st_swarm t)))) ps tk"
    "probe_results (taken @ pending_events (st_swarm t)) = probed tk" by (auto simp: scheduler_inv_def)
  have "bb_probe_timeouts (base_subscribe_pings L now b0) = bb_probe_timeouts b0"
    using on_pubsub_frame(1) [of b0] by (simp add: base_subscribe_pings_def same_peers_def)
  with base_delivered_probes [OF tk(1) assms(5)] assms(6) have le: "mset (probed tk) \<subseteq># mset ps" by simp
  have "subseq (received as) (offered as)" using d(2) subseq_append_le subseq_order.order_trans by blast
  then have "mset (List.map_filter probe_key (received as)) \<subseteq># mset (List.map_filter probe_key (offered as))"
    by (rule subseq_mset [OF subseq_map_filter])
  also have "\<dots> \<subseteq># mset (probed tk) + at_once" unfolding off tk(2) [symmetric] by simp
  also have "\<dots> \<subseteq># mset ps + at_once" using le by simp
  also note sub
  also have "mset (List.map_filter msg_probe (served as)) \<subseteq># mset (List.map_filter msg_probe (submitted as))"
  proof -
    have "on_queue scheduler_queue ''probes'' (submitted as) = on_queue scheduler_queue ''probes'' (served as) @ scheduler_queued ip iq t ''probes''"
      using d(1) by simp
    then have "List.map_filter msg_probe (submitted as) =
        List.map_filter msg_probe (served as) @ List.map_filter msg_probe (scheduler_queued ip iq t ''probes'')"
      using msg_probe_queue [of "submitted as"] msg_probe_queue [of "served as"] by simp
    then show ?thesis by simp
  qed
  finally show ?thesis .
qed

text \<open>
  For the witness: a probe is submitted and served; the peer is then connected to, the behaviour reports it, and the application takes the
  result. The swarm is the most liberal one that drives the behaviour.
\<close>

type_synonym demo_sd =
  "((peer_id \<Rightarrow> multiaddr set option, nat \<times> peer_id list, (query_id, peer_id) fmap, (unit + peer_id fset) list, unit) scheduler, scheduler_event, unit) wrapped"

definition demo_scheduler_queues ::
    "(nat \<times> (peer_id \<times> pong) list, nat \<times> peer_id list, nat \<times> scheduler_event list) scheduler_queues" where
  "demo_scheduler_queues = \<lparr>sq_pongs = demo_mpsc, sq_probes = demo_mpsc, sq_events = demo_mpsc\<rparr>"

definition demo_scheduler_swarm :: "demo_sd \<Rightarrow> demo_sd \<Rightarrow> scheduler_event swarm_out \<Rightarrow> bool" where
  "demo_scheduler_swarm b b' ev \<longleftrightarrow>
     (\<exists>out. drives (scheduler_polled demo_libs) b out b' \<and>
        List.map_filter generated out = (case ev of Behaviour e \<Rightarrow> [e] | OtherSwarmOut \<Rightarrow> []))"

abbreviation demo_scheduler_step where
  "demo_scheduler_step \<equiv> scheduler_step demo_libs demo_rr demo_scheduler_queues demo_scheduler_swarm"

lemma demo_scheduler_drives: "swarm_drives (scheduler_polled demo_libs) demo_scheduler_swarm"
  by (simp add: swarm_drives_def demo_scheduler_swarm_def)

lemma demo_scheduler_channels: "scheduler_channels demo_scheduler_queues snd fst snd fst snd fst"
  by (simp add: scheduler_channels_def demo_scheduler_queues_def demo_mpsc_laws)

lemma demo_scheduler_probe:
  fixes s0 :: "(peer_id \<Rightarrow> multiaddr set option, nat \<times> peer_id list, (query_id, peer_id) fmap, (unit + peer_id fset) list, unit) scheduler"
  assumes "s0 = wrapper (scheduler_new demo_libs 0 demo_base scheduler_config_default)"
  shows "\<exists>s s'. scheduler_try_probe_peer demo_libs s0 (PeerId [3]) = (s, Inr False) \<and>
    scheduler_polled demo_libs s [GenerateEvent (ScPeerProbed (PeerId [3]) True)] s'"
proof -
  let ?p = "PeerId [3]" and ?b = "base_subscribe_pings demo_libs 0 demo_base"
  have b: "si_base (sd_inner s0) = wrapped_from ?b" by (simp add: assms scheduler_new_def Let_def wrapped_from_def)
  have t: "l_timers demo_libs = demo_timers" by (simp add: demo_libs_def)
  have f: "bb_outbound_conns ?b = fmempty" "bb_probe_timeouts ?b = (1000, [])"
    using demo_base_fields(1) on_pubsub_frame(1) [of demo_base]
    by (auto simp: base_subscribe_pings_def same_peers_def demo_base_def base_new_def Let_def demo_libs_def demo_timers_def base_config_default_def)
  obtain b1 where b1: "base_try_probe_peer demo_libs ?b ?p = (b1, Inr False)"
    and t1: "bb_probe_timeouts b1 = (1000, [?p])" "bb_outbound_conns b1 = fmempty"
    by (simp add: base_try_probe_peer_def f t demo_timers_def find_and_dial_frame)
  obtain b2 where "base_on_swarm_event demo_libs b1 (ConnectionEstablished ?p Dialer) =
      (Done (b2, [GenerateEvent (EvPeerProbed ?p True)]) :: (_ \<times> unit base_out) run)"
    by (simp add: base_on_swarm_event_def base_on_connection_established_def Let_def t1 add_chk_def demo_libs_def demo_timers_def)
  from base_works.swarm [OF this] have w: "base_works demo_libs b1 ([GenerateEvent (EvPeerProbed ?p True)] :: unit base_out) b2" .
  let ?w1 = "\<lparr>wrapper = b1, pending_events = []\<rparr> :: (_, base_event, unit) wrapped"
  let ?s = "set_base ?w1 s0"
  have "drives (base_works demo_libs) ?w1 [] \<lparr>wrapper = b2, pending_events = [GenerateEvent (EvPeerProbed ?p True)]\<rparr>"
    using drives.work [OF drives.nothing, of "base_works demo_libs" ?w1] w by simp
  from drives.take [OF this, of "GenerateEvent (EvPeerProbed ?p True)" "[]"]
  have d: "drives (base_works demo_libs) (si_base (sd_inner ?s)) [GenerateEvent (EvPeerProbed ?p True)] \<lparr>wrapper = b2, pending_events = []\<rparr>" by simp
  have "scheduler_polled demo_libs ?s [GenerateEvent (ScPeerProbed ?p True)] (set_base \<lparr>wrapper = b2, pending_events = []\<rparr> ?s)"
    by (rule scheduler_polled.base_event [OF d])
       (simp add: scheduler_on_inner_event_def scheduler_on_base_event_def scheduler_on_peer_probed_def)
  moreover have "scheduler_try_probe_peer demo_libs s0 ?p = (?s, Inr False)"
    using b1 by (simp add: scheduler_try_probe_peer_def b wrapped_from_def)
  ultimately show ?thesis by blast
qed

lemma demo_scheduler_history:
  "\<exists>t0 as t. scheduler_start_transport demo_scheduler_queues (Some MultiThread) metrics_init
       (scheduler_new demo_libs 0 demo_base scheduler_config_default) scheduler_config_default = Done t0 \<and>
     trace demo_scheduler_step t0 as t \<and> submitted as = [SmProbe (PeerId [3])] \<and> received as = [ScPeerProbed (PeerId [3]) True]"
proof -
  let ?b = "scheduler_new demo_libs 0 demo_base scheduler_config_default :: demo_sd"
  let ?p = "PeerId [3]" and ?e = "ScPeerProbed (PeerId [3]) True" and ?Q = demo_scheduler_queues
  obtain t0 where t0: "scheduler_start_transport ?Q (Some MultiThread) metrics_init ?b scheduler_config_default = Done t0"
    by (simp add: scheduler_start_transport_def spawn_transport_def task_manager_new_def task_manager_spawn_def)
  have f0: "st_swarm t0 = ?b" "q_chan (st_probes t0) = (1000, [])" "q_chan (st_events t0) = (1000, [])"
    using t0 by (auto simp: scheduler_start_transport_def new_queue_def demo_scheduler_queues_def demo_mpsc_def scheduler_config_default_def)
  obtain s s' where s: "scheduler_try_probe_peer demo_libs (wrapper ?b) ?p = (s, Inr False)"
    "scheduler_polled demo_libs s [GenerateEvent ?e] s'" using demo_scheduler_probe by blast
  obtain t1 where t1: "scheduler_handle_probe_peer ?Q t0 ?p = (t1, Inr ())"
    and f1: "st_swarm t1 = ?b" "q_chan (st_probes t1) = (1000, [?p])" "q_chan (st_events t1) = (1000, [])"
    by (simp add: scheduler_handle_probe_peer_def queue_try_send_def f0 demo_scheduler_queues_def demo_mpsc_def)
  have 1: "demo_scheduler_step t0 (Submitted (SmProbe ?p) True) t1" using scheduler_step.probe_peer [OF t1] by simp
  let ?r = "t1\<lparr>st_probes := (st_probes t1)\<lparr>q_chan := (1000, [])\<rparr>, st_metrics := dec_queue_size (q_name (st_probes t1)) (st_metrics t1)\<rparr>"
  have recv: "queue_recv (sq_probes ?Q) (st_probes t1) (st_metrics t1) =
      ((st_probes t1)\<lparr>q_chan := (1000, [])\<rparr>, dec_queue_size (q_name (st_probes t1)) (st_metrics t1), Ready (Some ?p))"
    by (simp add: queue_recv_def f1 demo_scheduler_queues_def demo_mpsc_def)
  have probe: "scheduler_probe_peer demo_libs ?Q ?r ?p = ?r\<lparr>st_swarm := ?b\<lparr>wrapper := s\<rparr>\<rparr>" (is "_ = ?t2")
    by (simp add: scheduler_probe_peer_def f1 s)
  have 2: "demo_scheduler_step t1 (Served (SmProbe ?p) []) ?t2"
    using scheduler_step.pass [OF scheduler_pass.probes [OF recv, of demo_libs demo_rr demo_scheduler_swarm, unfolded probe]]
    by (simp add: f1 s scheduler_probe_events_def)
  let ?b1 = "?b\<lparr>wrapper := s', pending_events := [GenerateEvent ?e]\<rparr>"
  have "drives (scheduler_polled demo_libs) (?b\<lparr>wrapper := s\<rparr>) [] ?b1"
    using drives.work [OF drives.nothing, of "scheduler_polled demo_libs" "?b\<lparr>wrapper := s\<rparr>"] s(2)
    by (simp add: scheduler_new_def Let_def wrapped_from_def)
  from drives.take [OF this, of "GenerateEvent ?e" "[]"]
  have sw: "demo_scheduler_swarm (st_swarm ?t2) (?b1\<lparr>pending_events := []\<rparr>) (Behaviour ?e)"
    by (auto simp: demo_scheduler_swarm_def List.map_filter_simps intro!: exI [of _ "[GenerateEvent ?e]"])
  define t3 where "t3 = scheduler_on_swarm_event ?Q (?t2\<lparr>st_swarm := ?b1\<lparr>pending_events := []\<rparr>\<rparr>) (Behaviour ?e)"
  have 3: "demo_scheduler_step ?t2 (FromSwarm (Behaviour ?e)) t3"
    unfolding t3_def by (rule scheduler_step.pass, rule scheduler_pass.swarm, rule sw)
  have f3: "q_chan (st_events t3) = (1000, [?e])"
    by (simp add: t3_def scheduler_on_swarm_event_def forward_event_def queue_send_lossy_def queue_try_send_def f1
        demo_scheduler_queues_def demo_mpsc_def)
  have "\<exists>t4. demo_scheduler_step t3 (Received ?e) t4"
    by (rule exI, rule scheduler_step.event) (simp add: queue_recv_def f3 demo_scheduler_queues_def demo_mpsc_def)
  then obtain t4 where 4: "demo_scheduler_step t3 (Received ?e) t4" ..
  note tr = trace.act [OF trace.act [OF trace.act [OF trace.act [OF trace.start [of demo_scheduler_step t0] 1] 2] 3] 4]
  show ?thesis by (rule exI, rule exI, rule exI, rule conjI, rule t0, rule conjI, rule tr)
      (simp add: submitted_def received_def List.map_filter_simps)
qed

theorem scheduler_probe_results_witness:
  "\<exists>t0 as t. trace demo_scheduler_step t0 as t \<and> List.map_filter probe_key (received as) = [PeerId [3]] \<and>
     {#PeerId [3]#} \<subseteq># mset (List.map_filter msg_probe (submitted as))"
proof -
  from demo_scheduler_history obtain t0 as t where
    h: "scheduler_start_transport demo_scheduler_queues (Some MultiThread) metrics_init
         (scheduler_new demo_libs 0 demo_base scheduler_config_default) scheduler_config_default = Done t0"
      "trace demo_scheduler_step t0 as t" "received as = [ScPeerProbed (PeerId [3]) True]" by blast
  have k: "List.map_filter probe_key (received as) = [PeerId [3]]" by (simp add: h(3) List.map_filter_simps)
  from scheduler_probe_results [OF h(1,2) demo_scheduler_channels demo_scheduler_drives demo_timers_laws_libs demo_base_fields(2)] k
  have "{#PeerId [3]#} \<subseteq># mset (List.map_filter msg_probe (submitted as))" by simp
  with h(2) k show ?thesis by blast
qed

end
