(* ===== verification/Observer.thy ===== *)
theory Observer
  imports Transport_Loop
begin

text \<open>
  The observer (transport/src/actors/observer.rs): it hands on the pings, the logs of the
  workers and the acknowledgements of the logs collector, and sends nothing.
\<close>

datatype observer_event =
    ObPing peer_id ping
  | ObLogsCollected logs_collected
  | ObWorkerQueryLogs peer_id query_logs

record observer_config =
  oc_logs_collector_id :: peer_id
  oc_events_queue_size :: nat
  oc_shutdown_timeout :: nat

definition observer_config_new :: "peer_id \<Rightarrow> observer_config" where
  "observer_config_new logs_collector_id = \<lparr>oc_logs_collector_id = logs_collector_id, oc_events_queue_size = 100,
     oc_shutdown_timeout = default_shutdown_timeout\<rparr>"

record ('lru, 'fm, 'bm, 'ns, 'cmd) observer =
  ob_base :: "(('lru, 'fm, 'bm, 'ns) base, base_event, 'cmd) wrapped"
  ob_logs_collector_id :: peer_id

definition observer_new ::
    "('lru, 'fm, 'bm, 'ns, 'err) libs \<Rightarrow> nat \<Rightarrow> ('lru, 'fm, 'bm, 'ns) base \<Rightarrow> peer_id \<Rightarrow>
     (('lru, 'fm, 'bm, 'ns, 'cmd) observer, observer_event, 'cmd) wrapped" where
  "observer_new L now base logs_collector_id =
     (let base = base_subscribe_pings L now base;
          base = base_subscribe_worker_logs L now base;
          base = base_subscribe_logs_collected L now base;
          base = base_allow_peer base logs_collector_id in
      wrapped_from \<lparr>ob_base = wrapped_from base, ob_logs_collector_id = logs_collector_id\<rparr>)"

definition observer_on_base_event ::
    "('lru, 'fm, 'bm, 'ns, 'cmd) observer \<Rightarrow> base_event \<Rightarrow> observer_event option" where
  "observer_on_base_event self ev =
     (case ev of
        EvLogsCollected peer_id msg \<Rightarrow> if peer_id = ob_logs_collector_id self then Some (ObLogsCollected msg) else None
      | EvPing peer_id p \<Rightarrow> Some (ObPing peer_id p)
      | EvWorkerQueryLogs peer_id query_logs \<Rightarrow> Some (ObWorkerQueryLogs peer_id query_logs)
      | _ \<Rightarrow> None)"

definition observer_on_inner_event ::
    "('lru, 'fm, 'bm, 'ns, 'cmd) observer \<Rightarrow> base_event \<Rightarrow>
     ('lru, 'fm, 'bm, 'ns, 'cmd) observer \<times> (observer_event, 'cmd) to_swarm list" where
  "observer_on_inner_event self ev =
     (self, case observer_on_base_event self ev of Some e \<Rightarrow> [GenerateEvent e] | None \<Rightarrow> [])"

section \<open>The transport and its handle\<close>

record ('b, 'ce) observer_transport =
  ot_swarm :: 'b
  ot_events :: "'ce queue"
  ot_metrics :: metrics
  ot_task_manager :: "unit task_manager"

text \<open>The handle is made last, from the queues and the transport, with the task that runs the transport.\<close>

definition observer_handle_new ::
    "runtime_flavor option \<Rightarrow> metrics \<Rightarrow> 'b \<Rightarrow> 'ce queue \<Rightarrow> nat \<Rightarrow>
     ('b, 'ce) observer_transport run" where
  "observer_handle_new flavor m swarm events shutdown_timeout =
     run_bind (spawn_transport flavor shutdown_timeout) (\<lambda>tm.
       Done \<lparr>ot_swarm = swarm, ot_events = events,
             ot_metrics = m, ot_task_manager = tm\<rparr>)"

definition observer_start_transport ::
    "('ce, observer_event) mpsc \<Rightarrow> runtime_flavor option \<Rightarrow> metrics \<Rightarrow> 'b \<Rightarrow> observer_config \<Rightarrow> ('b, 'ce) observer_transport run" where
  "observer_start_transport mp flavor m swarm config =
     observer_handle_new flavor m swarm
       (new_queue mp (oc_events_queue_size config) ''events'')
       (oc_shutdown_timeout config)"

declare observer_handle_new_def [simp]

definition observer_on_swarm_event ::
    "('ce, observer_event) mpsc \<Rightarrow> ('b, 'ce) observer_transport \<Rightarrow> observer_event swarm_out \<Rightarrow> ('b, 'ce) observer_transport" where
  "observer_on_swarm_event mp self ev =
     (let (c, m) = forward_event mp (ot_events self) (ot_metrics self) ev in self\<lparr>ot_events := c, ot_metrics := m\<rparr>)"

inductive observer_pass ::
    "('ce, observer_event) mpsc \<Rightarrow> ('b \<Rightarrow> 'b \<Rightarrow> observer_event swarm_out \<Rightarrow> bool) \<Rightarrow>
     ('b, 'ce) observer_transport \<Rightarrow> (unit, observer_event) act \<Rightarrow> ('b, 'ce) observer_transport option \<Rightarrow> bool"
  for mp sw where
  cancelled: "tm_cancel_token (ot_task_manager t) \<Longrightarrow> observer_pass mp sw t Stopped None"
| swarm: "sw (ot_swarm t) b ev \<Longrightarrow> observer_pass mp sw t (FromSwarm ev) (Some (observer_on_swarm_event mp (t\<lparr>ot_swarm := b\<rparr>) ev))"

text \<open>The transport together with the application, which only takes events.\<close>

inductive observer_step ::
    "('ce, observer_event) mpsc \<Rightarrow> ('b \<Rightarrow> 'b \<Rightarrow> observer_event swarm_out \<Rightarrow> bool) \<Rightarrow>
     ('b, 'ce) observer_transport \<Rightarrow> (unit, observer_event) act \<Rightarrow> ('b, 'ce) observer_transport \<Rightarrow> bool"
  for mp sw where
  pass: "observer_pass mp sw t a (Some t') \<Longrightarrow> observer_step mp sw t a t'"
| event: "queue_recv mp (ot_events t) (ot_metrics t) = (c, m, Ready (Some e)) \<Longrightarrow>
    observer_step mp sw t (Received e) (t\<lparr>ot_events := c, ot_metrics := m\<rparr>)"

abbreviation observer_keeps where
  "observer_keeps config ie ce \<equiv> step_keeps (\<lambda>_. []) (\<lambda>_ _. []) (\<lambda>t. ie (q_chan (ot_events t)))
     (\<lambda>t. dropped (ot_metrics t) (q_name (ot_events t))) (\<lambda>t. fits ie ce (oc_events_queue_size config) ''events'' (ot_events t))"

lemma observer_step_keeps:
  assumes "observer_step mp sw t a t'" and laws: "mpsc_laws mp ie ce"
  shows "observer_keeps config ie ce t a t'"
  using assms(1)
proof cases
  case pass
  then show ?thesis
    using forward_event_items [OF laws] by cases (fastforce simp: step_keeps_def conserved_def observer_on_swarm_event_def split: prod.splits)
next
  case (event c m e)
  then show ?thesis using queue_recv_items [OF laws event(3)] by (auto simp: step_keeps_def conserved_def events_conserved_def)
qed

lemma observer_step_behaves:
  assumes "observer_step mp sw t a t'"
  shows "behaves (\<lambda>_ _ _ _. False) sw (ot_swarm t) a (ot_swarm t')"
  using assms by cases (auto simp: observer_on_swarm_event_def elim!: observer_pass.cases split: prod.splits)

interpretation observer_loop: transport_loop "observer_step mp sw" "\<lambda>_. []" "\<lambda>_ _. []"
    "\<lambda>t. ie (q_chan (ot_events t))" "\<lambda>t. dropped (ot_metrics t) (q_name (ot_events t))" ot_swarm
    "\<lambda>t. fits ie ce (oc_events_queue_size config) ''events'' (ot_events t)" "\<lambda>_ _ _ _. False" sw "mpsc_laws mp ie ce"
  by unfold_locales (auto intro: observer_step_keeps observer_step_behaves)

lemma observer_started:
  assumes "observer_start_transport mp flavor m b config = Done t" and "mpsc_laws mp ie ce"
  shows "fits ie ce (oc_events_queue_size config) ''events'' (ot_events t)" "ie (q_chan (ot_events t)) = []"
    "ot_swarm t = b" "ot_metrics t = m" "q_name (ot_events t) = ''events''"
proof -
  from assms(1) have t: "ot_events t = new_queue mp (oc_events_queue_size config) ''events''" "ot_swarm t = b" "ot_metrics t = m"
    by (auto simp: observer_start_transport_def)
  show "fits ie ce (oc_events_queue_size config) ''events'' (ot_events t)" "ie (q_chan (ot_events t)) = []"
    "ot_swarm t = b" "ot_metrics t = m" "q_name (ot_events t) = ''events''"
    using new_queue_fits [OF assms(2)] by (auto simp: t new_queue_def)
qed

text \<open>The observer's transport delivers like the others.\<close>

lemma observer_delivery:
  assumes "observer_start_transport mp flavor m b config = Done t0" and "trace (observer_step mp sw) t0 as t" and "mpsc_laws mp ie ce"
  shows "subseq (received as @ ie (q_chan (ot_events t))) (offered as)"
    and "dropped (ot_metrics t) ''events'' =
      dropped m ''events'' + of_nat (length (offered as) - length (received as @ ie (q_chan (ot_events t))))"
    and "trace (behaves (\<lambda>_ _ _ _. False) sw) b as (ot_swarm t)"
proof -
  note start = observer_started [OF assms(1,3)]
  note d = observer_loop.delivery [OF assms(2,3) start(1) refl start(2)]
  have "q_name (ot_events t) = ''events''" using d(5) by (simp add: fits_def)
  with d start show "subseq (received as @ ie (q_chan (ot_events t))) (offered as)"
    and "dropped (ot_metrics t) ''events'' =
      dropped m ''events'' + of_nat (length (offered as) - length (received as @ ie (q_chan (ot_events t))))"
    and "trace (behaves (\<lambda>_ _ _ _. False) sw) b as (ot_swarm t)" by simp_all
qed

end
