(* ===== verification/Logs_Collector.thy ===== *)
theory Logs_Collector
  imports Transport_Loop
begin

text \<open>
  The logs collector (transport/src/actors/logs_collector.rs): it receives the query logs of
  the workers and of the gateways, hands on those that are authentic, and publishes up to
  which number it has collected the logs of each worker.
\<close>

section \<open>The behaviour\<close>

datatype logs_collector_event =
    LcWorkerLogs peer_id "query_executed list"
  | LcQuerySubmitted query_submitted
  | LcQueryFinished query_finished

record ('lru, 'fm, 'bm, 'ns, 'cmd) logs_collector_inner =
  li_base :: "(('lru, 'fm, 'bm, 'ns) base, base_event, 'cmd) wrapped"
  li_gateway_logs :: "((gateway_log_msg, u32) server, gateway_log_msg request, 'cmd) wrapped"

datatype logs_collector_inner_event =
    LiBase base_event
  | LiGatewayLogs "gateway_log_msg request"

record logs_collector_config =
  lc_max_gateway_log_size :: u64
  lc_logs_collected_queue_size :: nat
  lc_events_queue_size :: nat
  lc_shutdown_timeout :: nat

definition logs_collector_config_default :: logs_collector_config where
  "logs_collector_config_default = \<lparr>lc_max_gateway_log_size = max_gateway_log_size, lc_logs_collected_queue_size = 100,
     lc_events_queue_size = 100, lc_shutdown_timeout = default_shutdown_timeout\<rparr>"

record ('lru, 'fm, 'bm, 'ns, 'cmd) logs_collector =
  lg_inner :: "('lru, 'fm, 'bm, 'ns, 'cmd) logs_collector_inner"

definition logs_collector_new ::
    "('lru, 'fm, 'bm, 'ns, 'err) libs \<Rightarrow> nat \<Rightarrow> ('lru, 'fm, 'bm, 'ns) base \<Rightarrow> logs_collector_config \<Rightarrow>
     (('lru, 'fm, 'bm, 'ns, 'cmd) logs_collector, logs_collector_event, 'cmd) wrapped" where
  "logs_collector_new L now base config =
     (let base = base_subscribe_worker_logs L now base;
          base = base_subscribe_logs_collected L now base in
      wrapped_from \<lparr>lg_inner = \<lparr>li_base = wrapped_from base,
        li_gateway_logs = wrapped_from (server_new (proto_codec_new (lc_max_gateway_log_size config) ack_size) gateway_logs_protocol)\<rparr>\<rparr>)"

text \<open>\<open>filter_map\<close>: a log is kept if it names the sender as its worker and, only then looked at, its signatures are valid.\<close>

fun valid_logs :: "crypto \<Rightarrow> protobuf \<Rightarrow> peer_id \<Rightarrow> string \<Rightarrow> query_executed list \<Rightarrow> query_executed list run" where
  "valid_logs cr pb peer_id worker_id [] = Done []"
| "valid_logs cr pb peer_id worker_id (log # logs) =
     (if qe_worker_id log = worker_id
      then run_bind (query_executed_verify_signature cr pb peer_id log) (\<lambda>(ok, log).
             run_bind (valid_logs cr pb peer_id worker_id logs) (\<lambda>rest. Done (if ok then log # rest else rest)))
      else valid_logs cr pb peer_id worker_id logs)"

definition logs_collector_on_worker_logs ::
    "crypto \<Rightarrow> protobuf \<Rightarrow> peer_id \<Rightarrow> query_logs \<Rightarrow> logs_collector_event option run" where
  "logs_collector_on_worker_logs cr pb peer_id logs =
     run_bind (valid_logs cr pb peer_id (peer_to_base58 cr peer_id) (queries_executed logs)) (\<lambda>logs.
       Done (if logs \<noteq> [] then Some (LcWorkerLogs peer_id logs) else None))"

definition logs_collector_on_gateway_log :: "crypto \<Rightarrow> peer_id \<Rightarrow> gateway_log_msg \<Rightarrow> logs_collector_event option" where
  "logs_collector_on_gateway_log cr peer_id msg =
     (let gateway_id = peer_to_base58 cr peer_id in
      case gl_msg msg of
        Some (GL_QueryFinished log) \<Rightarrow> if qf_client_id log = gateway_id then Some (LcQueryFinished log) else None
      | Some (GL_QuerySubmitted log) \<Rightarrow> if qs_client_id log = gateway_id then Some (LcQuerySubmitted log) else None
      | None \<Rightarrow> None)"

definition logs_collector_logs_collected ::
    "('lru, 'fm, 'bm, 'ns, 'err) libs \<Rightarrow> nat \<Rightarrow> ('lru, 'fm, 'bm, 'ns, 'cmd) logs_collector \<Rightarrow> logs_collected \<Rightarrow>
     ('lru, 'fm, 'bm, 'ns, 'cmd) logs_collector" where
  "logs_collector_logs_collected L now self msg =
     self\<lparr>lg_inner := (lg_inner self)\<lparr>li_base :=
       deref_mut (\<lambda>b. base_publish_logs_collected L now b msg) (li_base (lg_inner self))\<rparr>\<rparr>"

text \<open>A gateway's message is acknowledged whether or not it is valid.\<close>

definition logs_collector_on_inner_event ::
    "('lru, 'fm, 'bm, 'ns, 'err) libs \<Rightarrow> (gateway_log_msg, u32, 'cmd) rr \<Rightarrow> ('lru, 'fm, 'bm, 'ns, 'cmd) logs_collector \<Rightarrow>
     logs_collector_inner_event \<Rightarrow> (('lru, 'fm, 'bm, 'ns, 'cmd) logs_collector \<times> (logs_collector_event, 'cmd) to_swarm list) run" where
  "logs_collector_on_inner_event L rr self ev =
     run_bind (case ev of
          LiBase (EvWorkerQueryLogs peer_id logs) \<Rightarrow>
            run_bind (logs_collector_on_worker_logs (l_crypto L) (l_protobuf L) peer_id logs) (\<lambda>e. Done (self, e))
        | LiGatewayLogs rq \<Rightarrow>
            Done (self\<lparr>lg_inner := (lg_inner self)\<lparr>li_gateway_logs :=
                    deref_mut (\<lambda>s. fst (server_try_send_response rr s (rq_response_channel rq) 1)) (li_gateway_logs (lg_inner self))\<rparr>\<rparr>,
                  logs_collector_on_gateway_log (l_crypto L) (rq_peer_id rq) (rq_request rq))
        | _ \<Rightarrow> Done (self, None))
       (\<lambda>(self, ev). Done (self, case ev of Some e \<Rightarrow> [GenerateEvent e] | None \<Rightarrow> []))"

section \<open>The transport and its handle\<close>

record ('b, 'cl, 'ce) logs_collector_transport =
  lt_swarm :: 'b
  lt_logs_collected :: "'cl queue"
  lt_events :: "'ce queue"
  lt_metrics :: metrics
  lt_task_manager :: "unit task_manager"

record ('cl, 'ce) logs_collector_queues =
  lq_logs_collected :: "('cl, logs_collected) mpsc"
  lq_events :: "('ce, logs_collector_event) mpsc"

text \<open>The handle is made last, from the queues and the transport, with the task that runs the transport.\<close>

definition logs_collector_handle_new ::
    "runtime_flavor option \<Rightarrow> metrics \<Rightarrow> 'b \<Rightarrow> 'cl queue \<Rightarrow> 'ce queue \<Rightarrow> nat \<Rightarrow>
     ('b, 'cl, 'ce) logs_collector_transport run" where
  "logs_collector_handle_new flavor m swarm logs_collected events shutdown_timeout =
     run_bind (spawn_transport flavor shutdown_timeout) (\<lambda>tm.
       Done \<lparr>lt_swarm = swarm, lt_logs_collected = logs_collected, lt_events = events,
             lt_metrics = m, lt_task_manager = tm\<rparr>)"

definition logs_collector_start_transport ::
    "('cl, 'ce) logs_collector_queues \<Rightarrow> runtime_flavor option \<Rightarrow> metrics \<Rightarrow> 'b \<Rightarrow> logs_collector_config \<Rightarrow>
     ('b, 'cl, 'ce) logs_collector_transport run" where
  "logs_collector_start_transport Q flavor m swarm config =
     logs_collector_handle_new flavor m swarm
       (new_queue (lq_logs_collected Q) (lc_logs_collected_queue_size config) ''logs_collected'')
       (new_queue (lq_events Q) (lc_events_queue_size config) ''events'')
       (lc_shutdown_timeout config)"

declare logs_collector_handle_new_def [simp]

definition logs_collector_handle_logs_collected ::
    "('cl, 'ce) logs_collector_queues \<Rightarrow> ('b, 'cl, 'ce) logs_collector_transport \<Rightarrow> logs_collected \<Rightarrow>
     ('b, 'cl, 'ce) logs_collector_transport \<times> (queue_full + unit)" where
  "logs_collector_handle_logs_collected Q self msg =
     (let (c, m, r) = queue_try_send (lq_logs_collected Q) (lt_logs_collected self) (lt_metrics self) msg in
      (self\<lparr>lt_logs_collected := c, lt_metrics := m\<rparr>, r))"

definition logs_collector_on_swarm_event ::
    "('cl, 'ce) logs_collector_queues \<Rightarrow> ('b, 'cl, 'ce) logs_collector_transport \<Rightarrow> logs_collector_event swarm_out \<Rightarrow>
     ('b, 'cl, 'ce) logs_collector_transport" where
  "logs_collector_on_swarm_event Q self ev =
     (let (c, m) = forward_event (lq_events Q) (lt_events self) (lt_metrics self) ev in
      self\<lparr>lt_events := c, lt_metrics := m\<rparr>)"

text \<open>One pass of the loop of \<open>run\<close> at time \<open>now\<close>; the only messages are acknowledgements of logs.\<close>

inductive logs_collector_pass ::
    "('lru, 'fm, 'bm, 'ns, 'err) libs \<Rightarrow> nat \<Rightarrow> ('cl, 'ce) logs_collector_queues \<Rightarrow>
     ((('lru, 'fm, 'bm, 'ns, 'cmd) logs_collector, logs_collector_event, 'cmd) wrapped \<Rightarrow> (('lru, 'fm, 'bm, 'ns, 'cmd) logs_collector, logs_collector_event, 'cmd) wrapped \<Rightarrow> logs_collector_event swarm_out \<Rightarrow> bool) \<Rightarrow>
     ((('lru, 'fm, 'bm, 'ns, 'cmd) logs_collector, logs_collector_event, 'cmd) wrapped, 'cl, 'ce) logs_collector_transport \<Rightarrow> (logs_collected, logs_collector_event) act \<Rightarrow>
     ((('lru, 'fm, 'bm, 'ns, 'cmd) logs_collector, logs_collector_event, 'cmd) wrapped, 'cl, 'ce) logs_collector_transport option \<Rightarrow> bool"
  for L now Q sw where
  cancelled: "tm_cancel_token (lt_task_manager t) \<Longrightarrow> logs_collector_pass L now Q sw t Stopped None"
| swarm: "sw (lt_swarm t) b ev \<Longrightarrow>
    logs_collector_pass L now Q sw t (FromSwarm ev) (Some (logs_collector_on_swarm_event Q (t\<lparr>lt_swarm := b\<rparr>) ev))"
| logs_collected: "queue_recv (lq_logs_collected Q) (lt_logs_collected t) (lt_metrics t) = (c, m, Ready (Some msg)) \<Longrightarrow>
    logs_collector_pass L now Q sw t (Served msg [])
      (Some (t\<lparr>lt_logs_collected := c, lt_metrics := m,
               lt_swarm := deref_mut (\<lambda>s. logs_collector_logs_collected L now s msg) (lt_swarm t)\<rparr>))"

text \<open>The transport together with the application.\<close>

inductive logs_collector_step ::
    "('lru, 'fm, 'bm, 'ns, 'err) libs \<Rightarrow> ('cl, 'ce) logs_collector_queues \<Rightarrow>
     ((('lru, 'fm, 'bm, 'ns, 'cmd) logs_collector, logs_collector_event, 'cmd) wrapped \<Rightarrow> (('lru, 'fm, 'bm, 'ns, 'cmd) logs_collector, logs_collector_event, 'cmd) wrapped \<Rightarrow> logs_collector_event swarm_out \<Rightarrow> bool) \<Rightarrow>
     ((('lru, 'fm, 'bm, 'ns, 'cmd) logs_collector, logs_collector_event, 'cmd) wrapped, 'cl, 'ce) logs_collector_transport \<Rightarrow> (logs_collected, logs_collector_event) act \<Rightarrow>
     ((('lru, 'fm, 'bm, 'ns, 'cmd) logs_collector, logs_collector_event, 'cmd) wrapped, 'cl, 'ce) logs_collector_transport \<Rightarrow> bool"
  for L Q sw where
  logs_collected: "logs_collector_handle_logs_collected Q t msg = (t', r) \<Longrightarrow> logs_collector_step L Q sw t (Submitted msg (r = Inr ())) t'"
| pass: "logs_collector_pass L now Q sw t a (Some t') \<Longrightarrow> logs_collector_step L Q sw t a t'"
| event: "queue_recv (lq_events Q) (lt_events t) (lt_metrics t) = (c, m, Ready (Some e)) \<Longrightarrow>
    logs_collector_step L Q sw t (Received e) (t\<lparr>lt_events := c, lt_metrics := m\<rparr>)"

definition logs_collector_queued ::
    "('cl \<Rightarrow> logs_collected list) \<Rightarrow> ('b, 'cl, 'ce) logs_collector_transport \<Rightarrow> string \<Rightarrow> logs_collected list" where
  "logs_collector_queued il t n = (if n = ''logs_collected'' then il (q_chan (lt_logs_collected t)) else [])"

definition logs_collector_fits ::
    "logs_collector_config \<Rightarrow> ('cl \<Rightarrow> logs_collected list) \<Rightarrow> ('cl \<Rightarrow> nat) \<Rightarrow> ('ce \<Rightarrow> logs_collector_event list) \<Rightarrow> ('ce \<Rightarrow> nat) \<Rightarrow>
     ('b, 'cl, 'ce) logs_collector_transport \<Rightarrow> bool" where
  "logs_collector_fits config il cl ie ce t \<longleftrightarrow>
     fits il cl (lc_logs_collected_queue_size config) ''logs_collected'' (lt_logs_collected t) \<and>
     fits ie ce (lc_events_queue_size config) ''events'' (lt_events t)"

definition logs_collector_channels ::
    "('cl, 'ce) logs_collector_queues \<Rightarrow> ('cl \<Rightarrow> logs_collected list) \<Rightarrow> ('cl \<Rightarrow> nat) \<Rightarrow> ('ce \<Rightarrow> logs_collector_event list) \<Rightarrow>
     ('ce \<Rightarrow> nat) \<Rightarrow> bool" where
  "logs_collector_channels Q il cl ie ce \<longleftrightarrow> mpsc_laws (lq_logs_collected Q) il cl \<and> mpsc_laws (lq_events Q) ie ce"

definition logs_collector_handles ::
    "('lru, 'fm, 'bm, 'ns, 'err) libs \<Rightarrow> logs_collected \<Rightarrow> (('lru, 'fm, 'bm, 'ns, 'cmd) logs_collector, logs_collector_event, 'cmd) wrapped \<Rightarrow> (('lru, 'fm, 'bm, 'ns, 'cmd) logs_collector, logs_collector_event, 'cmd) wrapped \<Rightarrow> logs_collector_event list \<Rightarrow> bool" where
  "logs_collector_handles L msg b b' es \<longleftrightarrow>
     es = [] \<and> (\<exists>now. b' = deref_mut (\<lambda>s. logs_collector_logs_collected L now s msg) b)"

text \<open>What a step keeps, as the interface asks for it.\<close>

abbreviation logs_collector_keeps where
  "logs_collector_keeps config il cl ie ce \<equiv> step_keeps (\<lambda>_. ''logs_collected'') (logs_collector_queued il) (\<lambda>t. ie (q_chan (lt_events t)))
     (\<lambda>t. dropped (lt_metrics t) (q_name (lt_events t))) (logs_collector_fits config il cl ie ce)"

lemma logs_collector_pass_keeps:
  assumes "logs_collector_pass L now Q sw t a (Some t')" and "logs_collector_channels Q il cl ie ce"
  shows "logs_collector_keeps config il cl ie ce t a t'"
proof -
  from assms(2) have laws: "mpsc_laws (lq_logs_collected Q) il cl" "mpsc_laws (lq_events Q) ie ce" by (simp_all add: logs_collector_channels_def)
  note defs = step_keeps_def conserved_def logs_collector_queued_def logs_collector_fits_def events_conserved_def
  from assms(1) show ?thesis
  proof cases
    case (swarm b ev)
    then obtain c m where f: "forward_event (lq_events Q) (lt_events t) (lt_metrics t) ev = (c, m)"
      and t': "t' = t\<lparr>lt_swarm := b, lt_events := c, lt_metrics := m\<rparr>"
      by (auto simp: logs_collector_on_swarm_event_def split: prod.splits)
    from forward_event_items [OF laws(2) f] swarm(1) show ?thesis by (auto simp: step_keeps_def conserved_def logs_collector_queued_def logs_collector_fits_def t')
  next
    case (logs_collected c m msg)
    then show ?thesis using queue_recv_items [OF laws(1) logs_collected(3)] by (auto simp: defs)
  qed
qed

lemma logs_collector_step_keeps:
  assumes "logs_collector_step L Q sw t a t'" and "logs_collector_channels Q il cl ie ce"
  shows "logs_collector_keeps config il cl ie ce t a t'"
proof -
  from assms(2) have laws: "mpsc_laws (lq_logs_collected Q) il cl" "mpsc_laws (lq_events Q) ie ce" by (simp_all add: logs_collector_channels_def)
  note defs = step_keeps_def conserved_def logs_collector_queued_def logs_collector_fits_def events_conserved_def
  from assms(1) show ?thesis
  proof cases
    case (logs_collected msg r)
    then obtain c m where q: "queue_try_send (lq_logs_collected Q) (lt_logs_collected t) (lt_metrics t) msg = (c, m, r)" and t': "t' = t\<lparr>lt_logs_collected := c, lt_metrics := m\<rparr>"
      by (auto simp: logs_collector_handle_logs_collected_def split: prod.splits)
    from queue_try_send_items [OF laws(1) q] logs_collected(1) show ?thesis by (auto simp: defs t')
  next
    case (pass now)
    from logs_collector_pass_keeps [OF this assms(2)] show ?thesis .
  next
    case (event c m e)
    then show ?thesis using queue_recv_items [OF laws(2) event(3)] by (auto simp: defs)
  qed
qed

lemma logs_collector_step_behaves:
  assumes "logs_collector_step L Q sw t a t'"
  shows "behaves (logs_collector_handles L) sw (lt_swarm t) a (lt_swarm t')"
  using assms
proof cases
  case (pass now)
  then show ?thesis by cases (auto simp: logs_collector_handles_def logs_collector_on_swarm_event_def split: prod.splits)
qed (auto simp: logs_collector_handle_logs_collected_def split: prod.splits)

interpretation logs_collector_loop: transport_loop "logs_collector_step L Q sw" "\<lambda>_. ''logs_collected''" "logs_collector_queued il"
    "\<lambda>t. ie (q_chan (lt_events t))" "\<lambda>t. dropped (lt_metrics t) (q_name (lt_events t))" lt_swarm "logs_collector_fits config il cl ie ce"
    "logs_collector_handles L" sw "logs_collector_channels Q il cl ie ce"
  by unfold_locales (auto intro: logs_collector_step_keeps logs_collector_step_behaves)

lemma logs_collector_started:
  assumes "logs_collector_start_transport Q flavor m b config = Done t" and "logs_collector_channels Q il cl ie ce"
  shows "logs_collector_fits config il cl ie ce t" "logs_collector_queued il t n = []" "ie (q_chan (lt_events t)) = []"
    "lt_swarm t = b" "lt_metrics t = m" "q_name (lt_events t) = ''events''"
proof -
  from assms(1) have t: "lt_logs_collected t = new_queue (lq_logs_collected Q) (lc_logs_collected_queue_size config) ''logs_collected''"
      "lt_events t = new_queue (lq_events Q) (lc_events_queue_size config) ''events''" "lt_swarm t = b" "lt_metrics t = m"
    by (auto simp: logs_collector_start_transport_def)
  from assms(2) have laws: "mpsc_laws (lq_logs_collected Q) il cl" "mpsc_laws (lq_events Q) ie ce" by (simp_all add: logs_collector_channels_def)
  show "logs_collector_fits config il cl ie ce t" "logs_collector_queued il t n = []" "ie (q_chan (lt_events t)) = []"
    "lt_swarm t = b" "lt_metrics t = m" "q_name (lt_events t) = ''events''"
    using laws [THEN new_queue_fits(1)] laws [THEN new_queue_fits(2)]
    by (auto simp: t logs_collector_fits_def logs_collector_queued_def new_queue_def)
qed

text \<open>The collector's transport delivers like the others.\<close>

lemma logs_collector_delivery:
  assumes "logs_collector_start_transport Q flavor m b config = Done t0" and "trace (logs_collector_step L Q sw) t0 as t"
    and "logs_collector_channels Q il cl ie ce"
  shows "served as @ il (q_chan (lt_logs_collected t)) = submitted as"
    and "subseq (received as @ ie (q_chan (lt_events t))) (offered as)"
    and "dropped (lt_metrics t) ''events'' =
      dropped m ''events'' + of_nat (length (offered as) - length (received as @ ie (q_chan (lt_events t))))"
    and "trace (behaves (logs_collector_handles L) sw) b as (lt_swarm t)"
proof -
  note start = logs_collector_started [OF assms(1,3)]
  note d = logs_collector_loop.delivery [OF assms(2,3) start(1-3)]
  have "q_name (lt_events t) = ''events''" using d(5) by (simp add: logs_collector_fits_def fits_def)
  with d start show "served as @ il (q_chan (lt_logs_collected t)) = submitted as"
    and "subseq (received as @ ie (q_chan (lt_events t))) (offered as)"
    and "dropped (lt_metrics t) ''events'' =
      dropped m ''events'' + of_nat (length (offered as) - length (received as @ ie (q_chan (lt_events t))))"
    and "trace (behaves (logs_collector_handles L) sw) b as (lt_swarm t)"
    using d(1) [rule_format, of "''logs_collected''"] by (simp_all add: logs_collector_queued_def)
qed

section \<open>Which logs are handed on\<close>

text \<open>
  A peer ID is a multihash, so it has at least the two bytes in front of the digest that
  \<open>verify_signature\<close> skips.
\<close>

definition peer_ids_wf :: "crypto \<Rightarrow> bool" where
  "peer_ids_wf cr \<longleftrightarrow> (\<forall>s p. peer_from_str cr s = Some p \<longrightarrow> 2 \<le> length (to_bytes p))"

definition client_signed :: "crypto \<Rightarrow> protobuf \<Rightarrow> query_executed \<Rightarrow> bool" where
  "client_signed cr pb m \<longleftrightarrow>
     (case (peer_from_str cr (qe_client_id m), qe_query m) of
        (Some client, Some q) \<Rightarrow> verify_signature cr (query_signed pb) client q = Done (True, q)
      | _ \<Rightarrow> False)"

definition authentic_log :: "crypto \<Rightarrow> protobuf \<Rightarrow> peer_id \<Rightarrow> query_executed \<Rightarrow> bool" where
  "authentic_log cr pb peer m \<longleftrightarrow> qe_worker_id m = peer_to_base58 cr peer \<and>
     verify_signature cr (query_executed_signed pb) peer m = Done (True, m) \<and> client_signed cr pb m"

lemma verify_log_total:
  assumes "peer_ids_wf cr" and "2 \<le> length (to_bytes peer)"
  shows "query_executed_verify_signature cr pb peer m =
    Done (verify_signature cr (query_executed_signed pb) peer m = Done (True, m) \<and> client_signed cr pb m, m)"
proof -
  have len: "\<not> length (to_bytes p) < 2" if "peer_from_str cr s = Some p" for s p
    using assms(1) that by (fastforce simp: peer_ids_wf_def)
  show ?thesis
    using assms(2) len [of "qe_client_id m"]
    by (cases "qe_query m"; cases "peer_from_str cr (qe_client_id m)")
       (simp_all add: query_executed_verify_signature_def query_executed_sig.verify_signature_eq query_sig.verify_signature_eq
         client_signed_def)
qed

lemma valid_logs_filter:
  assumes "peer_ids_wf cr" and "2 \<le> length (to_bytes peer)"
  shows "valid_logs cr pb peer (peer_to_base58 cr peer) logs = Done (filter (authentic_log cr pb peer) logs)"
  by (induction logs) (simp_all add: verify_log_total [OF assms] authentic_log_def)

lemma on_worker_logs_filter:
  assumes "peer_ids_wf cr" and "2 \<le> length (to_bytes peer)"
  shows "logs_collector_on_worker_logs cr pb peer logs =
    (let ms = filter (authentic_log cr pb peer) (queries_executed logs) in Done (if ms \<noteq> [] then Some (LcWorkerLogs peer ms) else None))"
  by (simp add: logs_collector_on_worker_logs_def valid_logs_filter [OF assms] Let_def)

text \<open>The worker logs among the outputs of the collector, in order.\<close>

definition collected_logs :: "peer_id \<Rightarrow> (logs_collector_event, 'cmd) to_swarm list \<Rightarrow> query_executed list" where
  "collected_logs peer out = concat (map (\<lambda>c. case c of GenerateEvent (LcWorkerLogs p ms) \<Rightarrow> if p = peer then ms else [] | _ \<Rightarrow> []) out)"

lemma collected_logs_simps [simp]:
  "collected_logs peer [] = []" "collected_logs peer (xs @ ys) = collected_logs peer xs @ collected_logs peer ys"
  by (simp_all add: collected_logs_def)

lemma collector_handles_logs:
  assumes "peer_ids_wf (l_crypto L)" and "2 \<le> length (to_bytes peer)"
  shows "\<exists>out. logs_collector_on_inner_event L rr c (LiBase (EvWorkerQueryLogs peer logs)) = Done (c, out) \<and>
    collected_logs peer out = filter (authentic_log (l_crypto L) (l_protobuf L) peer) (queries_executed logs)"
  by (auto simp: logs_collector_on_inner_event_def on_worker_logs_filter [OF assms] Let_def collected_logs_def)

text \<open>Every bundle of a worker that can be decoded yields its authentic logs.\<close>

lemma collector_receives_bundles:
  assumes "peer_ids_wf (l_crypto L)" and "2 \<le> length (to_bytes peer)"
    and "logs_codec (l_protobuf L) Q" and "\<forall>b\<in>set bs. set b \<subseteq> Q"
  shows "\<exists>out. receive_all L (\<lambda>c e. logs_collector_on_inner_event L rr c (LiBase e)) c
      (map (\<lambda>b. \<lparr>pm_peer_id = peer, pm_topic = worker_logs_topic,
                 pm_data = enc_worker_logs_msg (l_protobuf L) (worker_logs_msg_from_queries b)\<rparr>) bs) = Done (c, out) \<and>
    collected_logs peer out = filter (authentic_log (l_crypto L) (l_protobuf L) peer) (concat bs)"
  using assms(4)
proof (induction bs)
  case (Cons b bs)
  from collector_handles_logs [OF assms(1,2), of rr c "query_logs_from b"] obtain o1 where
    o1: "logs_collector_on_inner_event L rr c (LiBase (EvWorkerQueryLogs peer (query_logs_from b))) = Done (c, o1)"
      "collected_logs peer o1 = filter (authentic_log (l_crypto L) (l_protobuf L) peer) b"
    by (auto simp: query_logs_from_def)
  from Cons obtain o2 where
    o2: "receive_all L (\<lambda>c e. logs_collector_on_inner_event L rr c (LiBase e)) c
      (map (\<lambda>b. \<lparr>pm_peer_id = peer, pm_topic = worker_logs_topic,
                 pm_data = enc_worker_logs_msg (l_protobuf L) (worker_logs_msg_from_queries b)\<rparr>) bs) = Done (c, o2)"
      "collected_logs peer o2 = filter (authentic_log (l_crypto L) (l_protobuf L) peer) (concat bs)" by auto
  have "receive L (\<lambda>c e. logs_collector_on_inner_event L rr c (LiBase e)) c
      \<lparr>pm_peer_id = peer, pm_topic = worker_logs_topic,
       pm_data = enc_worker_logs_msg (l_protobuf L) (worker_logs_msg_from_queries b)\<rparr> = Done (c, o1)"
    using decode_bundle [OF assms(3), of b peer] Cons.prems o1(1) by (simp add: receive_worker_logs)
  with o1(2) o2 show ?case by simp
qed simp

section \<open>The application's view\<close>

text \<open>
  How the swarm makes the behaviour work: the base behaviour and the server may do anything, report any event and send commands;
  the events are handled.
\<close>

inductive logs_collector_polled ::
    "('lru, 'fm, 'bm, 'ns, 'err) libs \<Rightarrow> (gateway_log_msg, u32, 'cmd) rr \<Rightarrow> ('lru, 'fm, 'bm, 'ns, 'cmd) logs_collector \<Rightarrow>
     (logs_collector_event, 'cmd) to_swarm list \<Rightarrow> ('lru, 'fm, 'bm, 'ns, 'cmd) logs_collector \<Rightarrow> bool"
  for L rr where
  base_event: "logs_collector_on_inner_event L rr (s\<lparr>lg_inner := (lg_inner s)\<lparr>li_base := b\<rparr>\<rparr>) (LiBase ev) = Done (s', evs) \<Longrightarrow>
    logs_collector_polled L rr s evs s'"
| gateway_event: "logs_collector_on_inner_event L rr (s\<lparr>lg_inner := (lg_inner s)\<lparr>li_gateway_logs := v\<rparr>\<rparr>) (LiGatewayLogs rq) = Done (s', evs) \<Longrightarrow>
    logs_collector_polled L rr s evs s'"
| cmds: "List.map_filter generated cmds = [] \<Longrightarrow> logs_collector_polled L rr s cmds (s\<lparr>lg_inner := \<lparr>li_base = b, li_gateway_logs = v\<rparr>\<rparr>)"

lemma valid_logs_authentic:
  "valid_logs cr pb peer (peer_to_base58 cr peer) logs = Done ms \<Longrightarrow> set ms \<subseteq> set logs \<and> (\<forall>m\<in>set ms. authentic_log cr pb peer m)"
proof (induction logs arbitrary: ms)
  case (Cons log logs)
  show ?case
  proof (cases "qe_worker_id log = peer_to_base58 cr peer")
    case True
    with Cons.prems obtain ok log' rest where v: "query_executed_verify_signature cr pb peer log = Done (ok, log')"
      "valid_logs cr pb peer (peer_to_base58 cr peer) logs = Done rest" "ms = (if ok then log' # rest else rest)" by auto
    from query_executed_verify_iff [OF v(1)] have "log' = log" "ok \<Longrightarrow> authentic_log cr pb peer log"
      using True by (auto simp: authentic_log_def client_signed_def)
    with Cons.IH [OF v(2)] v(3) show ?thesis by auto
  next
    case False
    with Cons show ?thesis by auto
  qed
qed simp

text \<open>What an event of the collector vouches for.\<close>

fun vouched :: "crypto \<Rightarrow> protobuf \<Rightarrow> logs_collector_event \<Rightarrow> bool" where
  "vouched cr pb (LcWorkerLogs p ms) \<longleftrightarrow> ms \<noteq> [] \<and> (\<forall>m\<in>set ms. authentic_log cr pb p m)"
| "vouched cr pb (LcQuerySubmitted log) \<longleftrightarrow> (\<exists>gateway. qs_client_id log = peer_to_base58 cr gateway)"
| "vouched cr pb (LcQueryFinished log) \<longleftrightarrow> (\<exists>gateway. qf_client_id log = peer_to_base58 cr gateway)"

lemma logs_collector_polled_vouched:
  assumes "logs_collector_polled L rr s evs s'"
  shows "\<forall>e\<in>set (List.map_filter generated evs). vouched (l_crypto L) (l_protobuf L) e"
  using assms
proof cases
  case (base_event b ev)
  then show ?thesis
    by (cases ev) (auto simp: logs_collector_on_inner_event_def logs_collector_on_worker_logs_def List.map_filter_simps
        dest: valid_logs_authentic split: if_splits)
next
  case (gateway_event v rq)
  then show ?thesis
    by (auto simp: logs_collector_on_inner_event_def logs_collector_on_gateway_log_def Let_def List.map_filter_simps
        split: if_splits option.splits gateway_log_kind.splits)
qed simp

section \<open>Properties\<close>

text \<open>
  What the collector hands on is authentic. On logs from a worker it never panics, and it
  emits, in their order and unchanged, exactly those that name the sender as their worker, carry
  its signature, and contain a query signed by the client they name; no event if there are none. On a
  message from a gateway it emits the log exactly if it names the sender as the client, and
  acknowledges the message in any case. It reacts to nothing else.
\<close>

lemma logs_collector_authentic:
  assumes "peer_ids_wf (l_crypto L)" and "2 \<le> length (to_bytes peer)"
  shows "logs_collector_on_inner_event L rr c (LiBase (EvWorkerQueryLogs peer logs)) =
      Done (c, let ms = filter (authentic_log (l_crypto L) (l_protobuf L) peer) (queries_executed logs)
               in if ms = [] then [] else [GenerateEvent (LcWorkerLogs peer ms)]) \<and>
    (\<exists>c' out. logs_collector_on_inner_event L rr c (LiGatewayLogs rq) = Done (c', out) \<and>
       (\<forall>e. GenerateEvent e \<in> set out \<longleftrightarrow>
          (\<exists>q. gl_msg (rq_request rq) = Some (GL_QuerySubmitted q) \<and> qs_client_id q = peer_to_base58 (l_crypto L) (rq_peer_id rq) \<and>
               e = LcQuerySubmitted q) \<or>
          (\<exists>q. gl_msg (rq_request rq) = Some (GL_QueryFinished q) \<and> qf_client_id q = peer_to_base58 (l_crypto L) (rq_peer_id rq) \<and>
               e = LcQueryFinished q)) \<and>
       wrapper (li_gateway_logs (lg_inner c')) =
         fst (server_try_send_response rr (wrapper (li_gateway_logs (lg_inner c))) (rq_response_channel rq) 1) \<and>
       li_base (lg_inner c') = li_base (lg_inner c)) \<and>
    ((\<forall>p ls. ev \<noteq> EvWorkerQueryLogs p ls) \<longrightarrow> logs_collector_on_inner_event L rr c (LiBase ev) = Done (c, []))"
proof (intro conjI)
  show "logs_collector_on_inner_event L rr c (LiBase (EvWorkerQueryLogs peer logs)) =
      Done (c, let ms = filter (authentic_log (l_crypto L) (l_protobuf L) peer) (queries_executed logs)
               in if ms = [] then [] else [GenerateEvent (LcWorkerLogs peer ms)])"
    by (simp add: logs_collector_on_inner_event_def on_worker_logs_filter [OF assms] Let_def)
  show "(\<forall>p ls. ev \<noteq> EvWorkerQueryLogs p ls) \<longrightarrow> logs_collector_on_inner_event L rr c (LiBase ev) = Done (c, [])"
    by (cases ev) (simp_all add: logs_collector_on_inner_event_def)
qed (auto simp: logs_collector_on_inner_event_def logs_collector_on_gateway_log_def Let_def deref_mut_simps
     split: option.split gateway_log_kind.split)

text \<open>
  For the witnesses: peer IDs of at least two bytes, a log of the worker \<open>[0, 1]\<close> signed with its key, and
  an encoding of the messages with copies of this log by their number.
\<close>

definition demo_wf_crypto :: crypto where
  "demo_wf_crypto = demo_crypto\<lparr>peer_from_str := \<lambda>s. if 2 \<le> length s then Some (PeerId (map (of_nat \<circ> of_char) s)) else None\<rparr>"

abbreviation demo_worker_log :: query_executed where
  "demo_worker_log \<equiv> \<lparr>qe_client_id = [CHR 0x00, CHR 0x01, CHR 0x07], qe_worker_id = [CHR 0x00, CHR 0x01],
     qe_query = Some demo_query, qe_query_hash = [], qe_exec_time_ms = None, qe_result = None,
     qe_seq_no = None, qe_timestamp_ms = None, qe_signature = []\<rparr>"

abbreviation demo_signed_log :: query_executed where
  "demo_signed_log \<equiv> \<lparr>qe_client_id = [CHR 0x00, CHR 0x01, CHR 0x07], qe_worker_id = [CHR 0x00, CHR 0x01],
     qe_query = Some demo_query, qe_query_hash = [], qe_exec_time_ms = None, qe_result = None,
     qe_seq_no = None, qe_timestamp_ms = None, qe_signature = [0, 1, 7, 0, 1]\<rparr>"

definition demo_flow_libs ::
    "(peer_id \<Rightarrow> multiaddr set option, nat \<times> peer_id list, (query_id, peer_id) fmap, (unit + peer_id fset) list, unit) libs" where
  "demo_flow_libs = demo_libs\<lparr>l_crypto := demo_wf_crypto, l_protobuf := demo_protobuf\<lparr>
     enc_worker_logs_msg := \<lambda>m. case wl_msg m of Some (WL_QueryLogs l) \<Rightarrow> replicate (length (queries_executed l)) 0 | _ \<Rightarrow> [],
     dec_worker_logs_msg := \<lambda>b. Some (worker_logs_msg_from_queries (replicate (length b) demo_signed_log))\<rparr>\<rparr>"

lemma demo_flow_wf: "peer_ids_wf (l_crypto demo_flow_libs)"
  by (auto simp: demo_flow_libs_def demo_wf_crypto_def peer_ids_wf_def split: if_splits)

lemma demo_signed_log_authentic:
  "client_signed (l_crypto demo_flow_libs) (l_protobuf demo_flow_libs) demo_worker_log"
  "authentic_log (l_crypto demo_flow_libs) (l_protobuf demo_flow_libs) (PeerId [0, 1]) demo_signed_log"
  by (simp_all add: authentic_log_def client_signed_def demo_flow_libs_def demo_wf_crypto_def demo_crypto_def demo_protobuf_def
      verify_signature_def signed_defs char_of_def bit_0)

definition demo_collector ::
    "(peer_id \<Rightarrow> multiaddr set option, nat \<times> peer_id list, (query_id, peer_id) fmap, (unit + peer_id fset) list, unit) logs_collector" where
  "demo_collector = wrapper (logs_collector_new demo_flow_libs 0 demo_base logs_collector_config_default)"


text \<open>For the witness: a gateway's log arrives, and the application takes it.\<close>

type_synonym demo_lc =
  "((peer_id \<Rightarrow> multiaddr set option, nat \<times> peer_id list, (query_id, peer_id) fmap, (unit + peer_id fset) list, unit) logs_collector, logs_collector_event, unit) wrapped"

definition demo_collector_queues :: "(nat \<times> logs_collected list, nat \<times> logs_collector_event list) logs_collector_queues" where
  "demo_collector_queues = \<lparr>lq_logs_collected = demo_mpsc, lq_events = demo_mpsc\<rparr>"

definition demo_submitted :: query_submitted where
  "demo_submitted = \<lparr>qs_client_id = peer_to_base58 (l_crypto demo_libs) (PeerId [7]), qs_worker_id = ''w'', qs_query_id = ''q1'', qs_dataset = ''d'',
     qs_query = ''q'', qs_query_hash = []\<rparr>"

definition demo_collector_swarm :: "demo_lc \<Rightarrow> demo_lc \<Rightarrow> logs_collector_event swarm_out \<Rightarrow> bool" where
  "demo_collector_swarm b b' ev \<longleftrightarrow>
     (\<exists>out. drives (logs_collector_polled demo_libs demo_rr) b out b' \<and>
        List.map_filter generated out = (case ev of Behaviour e \<Rightarrow> [e] | OtherSwarmOut \<Rightarrow> []))"

abbreviation demo_collector_step where
  "demo_collector_step \<equiv> logs_collector_step demo_libs demo_collector_queues demo_collector_swarm"

lemma demo_collector_history:
  "\<exists>t0 as t. logs_collector_start_transport demo_collector_queues (Some MultiThread) metrics_init
       (logs_collector_new demo_libs 0 demo_base logs_collector_config_default) logs_collector_config_default = Done t0 \<and>
     trace demo_collector_step t0 as t \<and> received as = [LcQuerySubmitted demo_submitted]"
proof -
  let ?b = "logs_collector_new demo_libs 0 demo_base logs_collector_config_default :: demo_lc"
  let ?e = "LcQuerySubmitted demo_submitted" and ?Q = demo_collector_queues
  obtain t0 where t0: "logs_collector_start_transport ?Q (Some MultiThread) metrics_init ?b logs_collector_config_default = Done t0"
    by (simp add: logs_collector_start_transport_def spawn_transport_def task_manager_new_def task_manager_spawn_def)
  have f0: "lt_swarm t0 = ?b" "q_chan (lt_events t0) = (100, [])"
    using t0 by (auto simp: logs_collector_start_transport_def new_queue_def demo_collector_queues_def demo_mpsc_def logs_collector_config_default_def)
  let ?rq = "\<lparr>rq_peer_id = PeerId [7], rq_request = gateway_log_msg_from (GL_QuerySubmitted demo_submitted), rq_response_channel = 0\<rparr>"
  have "\<exists>s. logs_collector_on_inner_event demo_libs demo_rr (wrapper ?b) (LiGatewayLogs ?rq) = Done (s, [GenerateEvent ?e])"
    by (simp add: logs_collector_on_inner_event_def logs_collector_on_gateway_log_def gateway_log_msg_from_def demo_submitted_def)
  then obtain s where "logs_collector_on_inner_event demo_libs demo_rr (wrapper ?b) (LiGatewayLogs ?rq) = Done (s, [GenerateEvent ?e])" ..
  then have w: "logs_collector_polled demo_libs demo_rr (wrapper ?b) [GenerateEvent ?e] s"
    by (intro logs_collector_polled.gateway_event [where v = "li_gateway_logs (lg_inner (wrapper ?b))" and rq = ?rq]) simp
  let ?b1 = "?b\<lparr>wrapper := s, pending_events := [GenerateEvent ?e]\<rparr>"
  have "drives (logs_collector_polled demo_libs demo_rr) ?b [] ?b1"
    using drives.work [OF drives.nothing, of "logs_collector_polled demo_libs demo_rr" ?b] w
    by (simp add: logs_collector_new_def Let_def wrapped_from_def)
  from drives.take [OF this, of "GenerateEvent ?e" "[]"]
  have sw: "demo_collector_swarm (lt_swarm t0) (?b1\<lparr>pending_events := []\<rparr>) (Behaviour ?e)"
    by (auto simp: demo_collector_swarm_def f0 List.map_filter_simps intro!: exI [of _ "[GenerateEvent ?e]"])
  define t1 where "t1 = logs_collector_on_swarm_event ?Q (t0\<lparr>lt_swarm := ?b1\<lparr>pending_events := []\<rparr>\<rparr>) (Behaviour ?e)"
  have 1: "demo_collector_step t0 (FromSwarm (Behaviour ?e)) t1"
    unfolding t1_def by (rule logs_collector_step.pass, rule logs_collector_pass.swarm, rule sw)
  have f1: "q_chan (lt_events t1) = (100, [?e])"
    by (simp add: t1_def logs_collector_on_swarm_event_def forward_event_def queue_send_lossy_def queue_try_send_def f0
        demo_collector_queues_def demo_mpsc_def)
  have "\<exists>t2. demo_collector_step t1 (Received ?e) t2"
    by (rule exI, rule logs_collector_step.event) (simp add: queue_recv_def f1 demo_collector_queues_def demo_mpsc_def)
  then obtain t2 where 2: "demo_collector_step t1 (Received ?e) t2" ..
  note tr = trace.act [OF trace.act [OF trace.start [of demo_collector_step t0] 1] 2]
  show ?thesis by (rule exI, rule exI, rule exI, rule conjI, rule t0, rule conjI, rule tr) (simp add: received_def List.map_filter_simps)
qed


end
