(* ===== verification/Builder.thy ===== *)
theory Builder
  imports Contract_Client Gateway Worker Scheduler Observer Logs_Collector
begin

text \<open>
  Building a node (transport/src/builder.rs): the command-line arguments give a builder, the
  builder a swarm with the behaviour of one actor, and the swarm a running transport.

  The swarm belongs to libp2p. It is represented by its behaviour, the settings of its QUIC transport, and the calls made
  on it; whether a call succeeds is given by the parameter record \<open>swarm_lib\<close>. Times are in seconds.
\<close>

section \<open>Arguments and errors\<close>

record transport_args =
  ta_key :: "path option"
  ta_p2p_listen_addrs :: "multiaddr list"
  ta_p2p_public_addrs :: "multiaddr list"
  ta_boot_nodes :: "boot_node list"
  ta_rpc :: rpc_args

definition listen_addrs :: "transport_args \<Rightarrow> multiaddr list" where
  "listen_addrs args = ta_p2p_listen_addrs args"

datatype error =
    ErrTransport string
  | ErrListen string
  | ErrDial string
  | ErrContract client_error

definition error_from_noise :: "string \<Rightarrow> error" where
  "error_from_noise e = ErrTransport e"

definition error_from_io :: "string \<Rightarrow> error" where
  "error_from_io e = ErrTransport e"

text \<open>The errors that \<open>from_cli\<close> passes on in an \<open>anyhow::Error\<close>.\<close>

datatype cli_error = KeyError key_error | ClientError client_error

section \<open>The swarm\<close>

datatype swarm_call =
    ListenOn multiaddr
  | AddExternalAddress multiaddr
  | SwarmDial peer_id "multiaddr list"

record quic_settings =
  qs_mtu_upper_bound :: u16
  qs_keep_alive_interval :: u64 \<comment> \<open>milliseconds\<close>
  qs_max_idle_timeout :: u32

record 'b swarm =
  sm_behaviour :: 'b
  sm_quic :: quic_settings
  sm_calls :: "swarm_call list"

text \<open>
  What may fail: setting up DNS and the relay client, and, after the calls so far, listening on an address and dialling.
\<close>

record swarm_lib =
  sl_with_dns :: "string option"
  sl_with_relay_client :: "string option"
  sl_listen_on :: "swarm_call list \<Rightarrow> multiaddr \<Rightarrow> string option"
  sl_dial :: "swarm_call list \<Rightarrow> peer_id \<Rightarrow> multiaddr list \<Rightarrow> string option"

definition swarm_listen_on :: "swarm_lib \<Rightarrow> 'b swarm \<Rightarrow> multiaddr \<Rightarrow> string + 'b swarm" where
  "swarm_listen_on sl sw addr =
     (case sl_listen_on sl (sm_calls sw) addr of
        Some e \<Rightarrow> Inl e
      | None \<Rightarrow> Inr (sw\<lparr>sm_calls := sm_calls sw @ [ListenOn addr]\<rparr>))"

definition swarm_dial :: "swarm_lib \<Rightarrow> 'b swarm \<Rightarrow> peer_id \<Rightarrow> multiaddr list \<Rightarrow> string + 'b swarm" where
  "swarm_dial sl sw p addrs =
     (case sl_dial sl (sm_calls sw) p addrs of
        Some e \<Rightarrow> Inl e
      | None \<Rightarrow> Inr (sw\<lparr>sm_calls := sm_calls sw @ [SwarmDial p addrs]\<rparr>))"

definition swarm_add_external_address :: "multiaddr \<Rightarrow> 'b swarm \<Rightarrow> 'b swarm" where
  "swarm_add_external_address addr sw = sw\<lparr>sm_calls := sm_calls sw @ [AddExternalAddress addr]\<rparr>"

text \<open>A loop whose body may return early with an error, which is converted.\<close>

fun try_all :: "('e \<Rightarrow> 'f) \<Rightarrow> ('s \<Rightarrow> 'a \<Rightarrow> 'e + 's) \<Rightarrow> 'a list \<Rightarrow> 's \<Rightarrow> 'f + 's" where
  "try_all conv f [] s = Inr s"
| "try_all conv f (x # xs) s = (case f s x of Inl e \<Rightarrow> Inl (conv e) | Inr s \<Rightarrow> try_all conv f xs s)"

section \<open>The builder\<close>

record transport_builder =
  tb_keypair :: keypair
  tb_listen_addrs :: "multiaddr list"
  tb_public_addrs :: "multiaddr list"
  tb_boot_nodes :: "boot_node list"
  tb_relay_addrs :: "multiaddr list"
  tb_relay :: bool
  tb_quic_config :: quic_config
  tb_base_config :: base_config
  tb_contract_client :: ethers_client
  tb_dht_protocol :: string

definition builder_from_cli ::
    "ed25519 \<Rightarrow> (path \<Rightarrow> bool) \<Rightarrow> (path \<Rightarrow> bool) \<Rightarrow> keypair \<Rightarrow> (path, node) fmap \<Rightarrow> ('http, 'ws) rpc_libs \<Rightarrow>
     (('http, 'ws) transport \<Rightarrow> chain) \<Rightarrow> (string \<Rightarrow> string option) \<Rightarrow> transport_args \<Rightarrow>
     (path, node) fmap \<times> (cli_error + transport_builder) run" where
  "builder_from_cli ed can_read can_write fresh fs R node env args =
     (let listen_addrs = listen_addrs args in
      case get_keypair ed can_read can_write fresh fs (ta_key args) of
        (fs, Inl e) \<Rightarrow> (fs, Done (Inl (KeyError e)))
      | (fs, Inr keypair) \<Rightarrow>
          (fs, run_bind (get_client R node (ta_rpc args)) (\<lambda>res. Done (case res of
             Inl e \<Rightarrow> Inl (ClientError e)
           | Inr contract_client \<Rightarrow> Inr
               \<lparr>tb_keypair = keypair, tb_listen_addrs = listen_addrs, tb_public_addrs = ta_p2p_public_addrs args,
                tb_boot_nodes = ta_boot_nodes args, tb_relay_addrs = [], tb_relay = False,
                tb_quic_config = quic_config_from_env env, tb_base_config = base_config_default,
                tb_contract_client = contract_client, tb_dht_protocol = dht_protocol (ra_network (ta_rpc args))\<rparr>))))"

definition with_listen_addrs :: "transport_builder \<Rightarrow> multiaddr list \<Rightarrow> transport_builder" where
  "with_listen_addrs self addrs = self\<lparr>tb_listen_addrs := tb_listen_addrs self @ addrs\<rparr>"

definition with_public_addrs :: "transport_builder \<Rightarrow> multiaddr list \<Rightarrow> transport_builder" where
  "with_public_addrs self addrs = self\<lparr>tb_public_addrs := tb_public_addrs self @ addrs\<rparr>"

definition with_boot_nodes :: "transport_builder \<Rightarrow> boot_node list \<Rightarrow> transport_builder" where
  "with_boot_nodes self nodes = self\<lparr>tb_boot_nodes := tb_boot_nodes self @ nodes\<rparr>"

definition with_relay :: "transport_builder \<Rightarrow> bool \<Rightarrow> transport_builder" where
  "with_relay self relay = self\<lparr>tb_relay := relay\<rparr>"

definition with_relay_addrs :: "transport_builder \<Rightarrow> multiaddr list \<Rightarrow> transport_builder" where
  "with_relay_addrs self addrs = self\<lparr>tb_relay_addrs := tb_relay_addrs self @ addrs, tb_relay := True\<rparr>"

definition with_quic_config :: "transport_builder \<Rightarrow> (quic_config \<Rightarrow> quic_config) \<Rightarrow> transport_builder" where
  "with_quic_config self f = self\<lparr>tb_quic_config := f (tb_quic_config self)\<rparr>"

definition local_peer_id :: "crypto \<Rightarrow> transport_builder \<Rightarrow> peer_id" where
  "local_peer_id cr self = pubkey_peer_id cr (keypair_public cr (tb_keypair self))"

text \<open>
  \<open>stream\<close> makes the stream of node lists from the contract client and the interval
  (\<open>network_nodes_stream\<close>, one item of which is \<open>network_nodes\<close>).
\<close>

definition build_swarm ::
    "swarm_lib \<Rightarrow> ('lru, 'fm, 'bm, 'ns, 'err) libs \<Rightarrow> (ethers_client \<Rightarrow> nat \<Rightarrow> 'ns) \<Rightarrow> metrics \<Rightarrow> transport_builder \<Rightarrow>
     (('lru, 'fm, 'bm, 'ns) base \<Rightarrow> 'b) \<Rightarrow> error + 'b swarm" where
  "build_swarm sl L stream m self behaviour =
     (let quic = \<lparr>qs_mtu_upper_bound = mtu_discovery_max (tb_quic_config self),
                  qs_keep_alive_interval = ucast (keep_alive_interval_ms (tb_quic_config self)),
                  qs_max_idle_timeout = max_idle_timeout_ms (tb_quic_config self)\<rparr> in
      case sl_with_dns sl of Some e \<Rightarrow> Inl (error_from_io e) | None \<Rightarrow>
      case sl_with_relay_client sl of Some e \<Rightarrow> Inl (error_from_noise e) | None \<Rightarrow>
      let base = base_new L (tb_keypair self) (stream (tb_contract_client self)) (tb_base_config self) (tb_boot_nodes self) (tb_dht_protocol self) m;
          swarm = \<lparr>sm_behaviour = behaviour base, sm_quic = quic, sm_calls = []\<rparr>;
          self = (if tb_relay self \<and> tb_relay_addrs self = []
                  then self\<lparr>tb_relay_addrs := map (\<lambda>bn. bn_address bn @ [P2p (bn_peer_id bn)]) (tb_boot_nodes self)\<rparr>
                  else self) in
      case try_all ErrListen (swarm_listen_on sl) (tb_listen_addrs self) swarm of Inl e \<Rightarrow> Inl e | Inr swarm \<Rightarrow>
      let swarm = fold swarm_add_external_address (tb_public_addrs self) swarm in
      case try_all ErrDial (\<lambda>sw bn. swarm_dial sl sw (bn_peer_id bn) [bn_address bn]) (tb_boot_nodes self) swarm of
        Inl e \<Rightarrow> Inl e
      | Inr swarm \<Rightarrow>
          if tb_relay self
          then try_all ErrListen (\<lambda>sw addr. swarm_listen_on sl sw (addr @ [P2pCircuit])) (tb_relay_addrs self) swarm
          else Inr swarm)"

text \<open>\<open>self.build_swarm(..)?\<close> followed by \<open>Ok(start_transport(..))\<close>.\<close>

definition start_on :: "error + 'b swarm \<Rightarrow> ('b swarm \<Rightarrow> 't run) \<Rightarrow> (error + 't) run" where
  "start_on swarm start = (case swarm of Inl e \<Rightarrow> Done (Inl e) | Inr sw \<Rightarrow> run_bind (start sw) (\<lambda>t. Done (Inr t)))"

definition build_gateway where
  "build_gateway sl L stream m Q flavor now self config =
     start_on (build_swarm sl L stream m self (\<lambda>base. gateway_new L now base config)) (\<lambda>sw. gateway_start_transport Q flavor m sw config)"

definition build_logs_collector where
  "build_logs_collector sl L stream m Q flavor now self config =
     start_on (build_swarm sl L stream m self (\<lambda>base. logs_collector_new L now base config))
       (\<lambda>sw. logs_collector_start_transport Q flavor m sw config)"

definition build_observer where
  "build_observer sl L stream m Q flavor now self config =
     start_on (build_swarm sl L stream m self (\<lambda>base. observer_new L now base (oc_logs_collector_id config)))
       (\<lambda>sw. observer_start_transport Q flavor m sw config)"

definition build_scheduler where
  "build_scheduler sl L stream m Q flavor now self config =
     start_on (build_swarm sl L stream m self (\<lambda>base. scheduler_new L now base config))
       (\<lambda>sw. scheduler_start_transport Q flavor m sw config)"

text \<open>
  Waiting for the registration. The chain behind a provider changes: \<open>adv t\<close> is the chain at time \<open>t\<close>. A call made at
  time \<open>t\<close> takes \<open>lat t\<close>. The result is the time at which the loop is left. If the
  registration time lies in the future, \<open>elapsed\<close> fails and the time elapsed counts as zero.
\<close>

definition client_at :: "(nat \<Rightarrow> chain \<Rightarrow> chain) \<Rightarrow> nat \<Rightarrow> ethers_client \<Rightarrow> ethers_client" where
  "client_at adv t c = c\<lparr>ec_l1_client := adv t (ec_l1_client c), ec_l2_client := adv t (ec_l2_client c)\<rparr>"

partial_function (option) wait_registered ::
    "(nat \<Rightarrow> chain \<Rightarrow> chain) \<Rightarrow> (nat \<Rightarrow> nat) \<Rightarrow> ethers_client \<Rightarrow> peer_id \<Rightarrow> nat \<Rightarrow> nat \<Rightarrow> nat client_result option" where
  "wait_registered adv lat client peer_id nodes_update_interval now =
     (let t = now + lat now in
      case worker_registration_time (client_at adv now client) peer_id of
        Panic \<Rightarrow> Some Panic
      | Done res \<Rightarrow>
          (case res of
             Inl e \<Rightarrow> Some (Done (Inl e))
           | Inr None \<Rightarrow> wait_registered adv lat client peer_id nodes_update_interval (t + 60)
           | Inr (Some reg_time) \<Rightarrow>
               let elapsed = t - reg_time in
               Some (Done (Inr (if elapsed < nodes_update_interval then t + (nodes_update_interval - elapsed) else t)))))"

definition build_worker where
  "build_worker sl L stream m Q flavor adv lat now self config =
     (let local_peer_id = local_peer_id (l_crypto L) self in
      case wait_registered adv lat (tb_contract_client self) local_peer_id (bc_nodes_update_interval (tb_base_config self)) now of
        None \<Rightarrow> None
      | Some Panic \<Rightarrow> Some Panic
      | Some (Done (Inl e)) \<Rightarrow> Some (Done (Inl (ErrContract e)))
      | Some (Done (Inr now)) \<Rightarrow>
          Some (start_on (build_swarm sl L stream m self (\<lambda>base. worker_behaviour_new L now base local_peer_id config))
            (\<lambda>sw. worker_start_transport Q flavor m sw config)))"

section \<open>The calls on a new swarm\<close>

text \<open>
  The calls that \<open>build_swarm\<close> means to make, in order, and their execution up to the first failure.
\<close>

definition relay_addrs_of :: "transport_builder \<Rightarrow> multiaddr list" where
  "relay_addrs_of self =
     (if tb_relay_addrs self = [] then map (\<lambda>bn. bn_address bn @ [P2p (bn_peer_id bn)]) (tb_boot_nodes self) else tb_relay_addrs self)"

definition swarm_plan :: "transport_builder \<Rightarrow> swarm_call list" where
  "swarm_plan self = map ListenOn (tb_listen_addrs self) @ map AddExternalAddress (tb_public_addrs self) @
     map (\<lambda>bn. SwarmDial (bn_peer_id bn) [bn_address bn]) (tb_boot_nodes self) @
     (if tb_relay self then map (\<lambda>a. ListenOn (a @ [P2pCircuit])) (relay_addrs_of self) else [])"

definition call_error :: "swarm_lib \<Rightarrow> swarm_call list \<Rightarrow> swarm_call \<Rightarrow> error option" where
  "call_error sl calls c = (case c of
     ListenOn a \<Rightarrow> map_option ErrListen (sl_listen_on sl calls a)
   | SwarmDial p as \<Rightarrow> map_option ErrDial (sl_dial sl calls p as)
   | AddExternalAddress a \<Rightarrow> None)"

fun run_plan :: "swarm_lib \<Rightarrow> swarm_call list \<Rightarrow> swarm_call list \<Rightarrow> error + swarm_call list" where
  "run_plan sl calls [] = Inr calls"
| "run_plan sl calls (c # cs) = (case call_error sl calls c of Some e \<Rightarrow> Inl e | None \<Rightarrow> run_plan sl (calls @ [c]) cs)"

lemma run_plan_append:
  "run_plan sl calls (xs @ ys) = (case run_plan sl calls xs of Inl e \<Rightarrow> Inl e | Inr calls \<Rightarrow> run_plan sl calls ys)"
  by (induction sl calls xs rule: run_plan.induct) (auto split: option.split)

lemma run_plan_ok:
  assumes "\<forall>pre c post. plan = pre @ c # post \<longrightarrow> call_error sl (calls @ pre) c = None"
  shows "run_plan sl calls plan = Inr (calls @ plan)"
  using assms
proof (induction plan arbitrary: calls)
  case (Cons c cs)
  then have "call_error sl (calls @ []) c = None" by blast
  moreover have "call_error sl ((calls @ [c]) @ pre) d = None" if "cs = pre @ d # post" for pre d post
    using Cons.prems [rule_format, of "c # pre" d post] that by simp
  ultimately show ?case using Cons.IH [of "calls @ [c]"] by simp
qed simp

lemma listen_all_plan:
  "try_all ErrListen (\<lambda>sw a. swarm_listen_on sl sw (f a)) as sw =
     map_sum id (\<lambda>calls. sw\<lparr>sm_calls := calls\<rparr>) (run_plan sl (sm_calls sw) (map (\<lambda>a. ListenOn (f a)) as))"
  by (induction as arbitrary: sw) (simp_all add: swarm_listen_on_def call_error_def split: option.split)

lemma dial_all_plan:
  "try_all ErrDial (\<lambda>sw x. swarm_dial sl sw (p x) (f x)) xs sw =
     map_sum id (\<lambda>calls. sw\<lparr>sm_calls := calls\<rparr>) (run_plan sl (sm_calls sw) (map (\<lambda>x. SwarmDial (p x) (f x)) xs))"
  by (induction xs arbitrary: sw) (simp_all add: swarm_dial_def call_error_def split: option.split)

lemma external_plan:
  "fold swarm_add_external_address as sw = sw\<lparr>sm_calls := sm_calls sw @ map AddExternalAddress as\<rparr>"
  "run_plan sl calls (map AddExternalAddress as) = Inr (calls @ map AddExternalAddress as)"
  by (induction as arbitrary: sw calls) (simp_all add: swarm_add_external_address_def call_error_def)

lemma fold_boot_nodes:
  "allowed (ib_allow (fold add_boot_node bns inner)) = allowed (ib_allow inner) \<union> bn_peer_id ` set bns"
  by (induction bns arbitrary: inner) (auto simp: add_boot_node_def allow_peer_call_def)

section \<open>Waiting for the registration\<close>

lemma wait_registered_returns:
  assumes "\<forall>t. worker_registration_time (client_at adv t client) p = Done (Inr (if t < T then None else Some r))"
    and "r \<le> T" and "\<forall>t. lat t \<le> D"
  shows "\<exists>t. wait_registered adv lat client p iv now = Some (Done (Inr t)) \<and> now \<le> t \<and> r + iv \<le> t \<and>
    t \<le> max (max now (T + D + 60) + D) (r + iv)"
proof (induction "T - now" arbitrary: now rule: less_induct)
  case less
  have lat: "lat now \<le> D" using assms(3) by blast
  show ?case
  proof (cases "now < T")
    case True
    then have "T - (now + lat now + 60) < T - now" by simp
    from less [OF this] obtain t where
      t: "wait_registered adv lat client p iv (now + lat now + 60) = Some (Done (Inr t))" "now + lat now + 60 \<le> t" "r + iv \<le> t"
        "t \<le> max (max (now + lat now + 60) (T + D + 60) + D) (r + iv)" by blast
    have "wait_registered adv lat client p iv now = Some (Done (Inr t))"
      using t(1) True by (subst wait_registered.simps) (simp add: assms(1))
    moreover have "t \<le> max (max now (T + D + 60) + D) (r + iv)" using t(4) True lat by linarith
    ultimately show ?thesis using t(2,3) by (intro exI [of _ t]) simp
  next
    case False
    let ?t = "now + lat now"
    have "wait_registered adv lat client p iv now =
        Some (Done (Inr (if ?t - r < iv then ?t + (iv - (?t - r)) else ?t)))" (is "_ = Some (Done (Inr ?res))")
      using False by (subst wait_registered.simps) (simp add: assms(1) Let_def)
    moreover have "?res = max ?t (r + iv)" using False assms(2) by auto
    ultimately have "wait_registered adv lat client p iv now = Some (Done (Inr (max ?t (r + iv))))" by simp
    moreover have "now \<le> max ?t (r + iv)" "r + iv \<le> max ?t (r + iv)" "max ?t (r + iv) \<le> max (max now (T + D + 60) + D) (r + iv)"
      using lat by linarith+
    ultimately show ?thesis by blast
  qed
qed

lemma build_swarm_eq:
  "build_swarm sl L stream m self behaviour =
     (case (sl_with_dns sl, sl_with_relay_client sl) of
        (Some e, _) \<Rightarrow> Inl (ErrTransport e)
      | (None, Some e) \<Rightarrow> Inl (ErrTransport e)
      | (None, None) \<Rightarrow>
          (case run_plan sl [] (swarm_plan self) of
             Inl e \<Rightarrow> Inl e
           | Inr calls \<Rightarrow> Inr
               \<lparr>sm_behaviour = behaviour (base_new L (tb_keypair self) (stream (tb_contract_client self)) (tb_base_config self) (tb_boot_nodes self) (tb_dht_protocol self) m),
                sm_quic = \<lparr>qs_mtu_upper_bound = mtu_discovery_max (tb_quic_config self),
                           qs_keep_alive_interval = ucast (keep_alive_interval_ms (tb_quic_config self)),
                           qs_max_idle_timeout = max_idle_timeout_ms (tb_quic_config self)\<rparr>,
                sm_calls = calls\<rparr>))"
proof -
  have listen: "try_all ErrListen (swarm_listen_on sl) as sw =
      map_sum id (\<lambda>calls. sw\<lparr>sm_calls := calls\<rparr>) (run_plan sl (sm_calls sw) (map ListenOn as))" for as and sw :: "'b swarm"
    using listen_all_plan [of sl "\<lambda>a. a" as sw] by simp
  show ?thesis
    by (simp add: build_swarm_def Let_def listen listen_all_plan dial_all_plan external_plan swarm_plan_def relay_addrs_of_def
        run_plan_append error_from_io_def error_from_noise_def split: option.split sum.split)
qed

section \<open>Properties\<close>

text \<open>
  Building the swarm is executing a plan. Unless DNS or the relay client cannot be set up, which
  is reported as a transport error, the calls made on the new swarm are, in this order: to listen on the given
  addresses, to register the public ones, to dial every boot node at its address, and, with relaying on, to listen through
  every relay, which are the boot nodes if none is given. The first call that fails ends the construction, with
  a listen or a dial error; if none fails, the swarm has made all of them, and its behaviour is that of
  the actor on a base behaviour for the builder's key, with the boot nodes as the allowed peers.
\<close>

lemma build_swarm_plan:
  "build_swarm sl L stream m self behaviour =
     (case (sl_with_dns sl, sl_with_relay_client sl) of
        (Some e, _) \<Rightarrow> Inl (ErrTransport e)
      | (None, Some e) \<Rightarrow> Inl (ErrTransport e)
      | (None, None) \<Rightarrow>
          (case run_plan sl [] (swarm_plan self) of
             Inl e \<Rightarrow> Inl e
           | Inr calls \<Rightarrow> Inr
               \<lparr>sm_behaviour = behaviour (base_new L (tb_keypair self) (stream (tb_contract_client self)) (tb_base_config self) (tb_boot_nodes self) (tb_dht_protocol self) m),
                sm_quic = \<lparr>qs_mtu_upper_bound = mtu_discovery_max (tb_quic_config self),
                           qs_keep_alive_interval = ucast (keep_alive_interval_ms (tb_quic_config self)),
                           qs_max_idle_timeout = max_idle_timeout_ms (tb_quic_config self)\<rparr>,
                sm_calls = calls\<rparr>)) \<and>
   allowed (ib_allow (bb_inner (base_new L (tb_keypair self) ns (tb_base_config self) (tb_boot_nodes self) (tb_dht_protocol self) m))) =
     bn_peer_id ` set (tb_boot_nodes self)"
  by (rule conjI [OF build_swarm_eq]) (simp add: base_new_def fold_boot_nodes Let_def)

text \<open>
  C24. A worker starts once it is registered. Suppose that its registration becomes visible at some time \<open>T\<close>, with a
  block time \<open>r\<close> not after \<open>T\<close>, and that a call of the contract client takes at most \<open>D\<close>. Then waiting ends, at a time by which
  the other nodes have had a full update interval since the registration to learn of it, and no later than that or
  one polling period and two calls after \<open>T\<close>. If no call on the swarm fails, on a multi-threaded runtime, \<open>build_worker\<close> then returns a
  running worker whose swarm has made all the planned calls.
\<close>

theorem build_worker_starts:
  assumes "\<forall>t. worker_registration_time (client_at adv t (tb_contract_client self)) (local_peer_id (l_crypto L) self) =
      Done (Inr (if t < T then None else Some r))" and "r \<le> T" and "\<forall>t. lat t \<le> D"
    and "sl_with_dns sl = None" and "sl_with_relay_client sl = None" and "\<forall>calls c. call_error sl calls c = None"
  shows "\<exists>t tr. build_worker sl L stream m Q (Some MultiThread) adv lat now self config = Some (Done (Inr tr)) \<and>
    r + bc_nodes_update_interval (tb_base_config self) \<le> t \<and>
    t \<le> max (max now (T + D + 60) + D) (r + bc_nodes_update_interval (tb_base_config self)) \<and>
    sm_calls (wt_swarm tr) = swarm_plan self \<and>
    sm_behaviour (wt_swarm tr) = worker_behaviour_new L t
      (base_new L (tb_keypair self) (stream (tb_contract_client self)) (tb_base_config self) (tb_boot_nodes self) (tb_dht_protocol self) m)
      (local_peer_id (l_crypto L) self) config"
proof -
  from wait_registered_returns [OF assms(1-3)] obtain t where
    t: "wait_registered adv lat (tb_contract_client self) (local_peer_id (l_crypto L) self) (bc_nodes_update_interval (tb_base_config self)) now =
      Some (Done (Inr t))"
      "r + bc_nodes_update_interval (tb_base_config self) \<le> t"
      "t \<le> max (max now (T + D + 60) + D) (r + bc_nodes_update_interval (tb_base_config self))" by blast
  have "run_plan sl [] (swarm_plan self) = Inr (swarm_plan self)" using run_plan_ok [of "swarm_plan self" sl "[]"] assms(6) by simp
  with assms(4,5) t show ?thesis
    by (simp add: build_worker_def Let_def start_on_def build_swarm_eq worker_start_transport_def spawn_transport_def
        task_manager_new_def task_manager_spawn_def del: run_bind_eq_Done) blast
qed

text \<open>
  For the witness: a swarm on which no call fails, and a chain on which the worker registered in block 10 (mined at time
  120) is visible from time 200 on.
\<close>

definition demo_swarm_lib :: swarm_lib where
  "demo_swarm_lib = \<lparr>sl_with_dns = None, sl_with_relay_client = None, sl_listen_on = \<lambda>_ _. None, sl_dial = \<lambda>_ _ _. None\<rparr>"

definition demo_adv :: "nat \<Rightarrow> chain \<Rightarrow> chain" where
  "demo_adv t ch = (if t < 200 then ch\<lparr>worker_ids := \<lambda>_ _. Inr 0\<rparr> else ch)"

definition demo_builder :: transport_builder where
  "demo_builder = \<lparr>tb_keypair = Keypair [], tb_listen_addrs = [[Ip4 0]], tb_public_addrs = [],
     tb_boot_nodes = [\<lparr>bn_peer_id = PeerId [1], bn_address = [Dns ''boot'']\<rparr>], tb_relay_addrs = [], tb_relay = True,
     tb_quic_config = quic_config_from_env (\<lambda>_. None), tb_base_config = base_config_default,
     tb_contract_client = demo_ethers, tb_dht_protocol = dht_protocol Tethys\<rparr>"

definition demo_chan :: "(nat \<times> 'a list, 'a) mpsc" where
  "demo_chan = \<lparr>ch_new = \<lambda>n. (n, []),
     ch_try_send = \<lambda>(n, xs) x. if length xs < n then ((n, xs @ [x]), None) else ((n, xs), Some Full),
     ch_recv = \<lambda>(n, xs). case xs of [] \<Rightarrow> ((n, []), Pending) | x # xs \<Rightarrow> ((n, xs), Ready (Some x))\<rparr>"

definition demo_worker_queues where
  "demo_worker_queues = \<lparr>wq_pings = demo_chan, wq_query_results = demo_chan, wq_logs = demo_chan, wq_events = demo_chan\<rparr>"

type_synonym demo_behaviour =
  "(peer_id \<Rightarrow> multiaddr set option, nat \<times> peer_id list, (query_id, peer_id) fmap, (unit + peer_id fset) list, unit) worker_behaviour"

type_synonym demo_worker_transport =
  "((demo_behaviour, worker_event, unit) wrapped swarm, nat \<times> ping list, nat \<times> query_result list,
    nat \<times> query_executed list list, nat \<times> worker_event list) worker_transport"

definition demo_nodes_stream :: "ethers_client \<Rightarrow> nat \<Rightarrow> (unit + peer_id fset) list" where
  "demo_nodes_stream c interval = []"

lemma demo_registration:
  "worker_registration_time (client_at demo_adv t demo_ethers) p = Done (Inr (if t < 200 then None else Some 120))"
  by (simp add: worker_registration_time_def client_at_def demo_adv_def demo_ethers_def demo_chain_def demo_worker_def
      try_call_def system_time_def Let_def)

theorem build_worker_starts_witness:
  "\<exists>tr :: demo_worker_transport. build_worker demo_swarm_lib demo_libs demo_nodes_stream metrics_init demo_worker_queues (Some MultiThread) demo_adv (\<lambda>_. 1) 0
       demo_builder (worker_config_new (PeerId [8]) (PeerId [9])) = Some (Done (Inr tr)) \<and>
     sm_behaviour (wt_swarm tr) = worker_behaviour_new demo_libs 420 (base_new demo_libs (Keypair []) (\<lambda>_. []) base_config_default
       [\<lparr>bn_peer_id = PeerId [1], bn_address = [Dns ''boot'']\<rparr>] (dht_protocol Tethys) metrics_init) (PeerId [0, 1]) (worker_config_new (PeerId [8]) (PeerId [9])) \<and>
     sm_calls (wt_swarm tr) = [ListenOn [Ip4 0], SwarmDial (PeerId [1]) [[Dns ''boot'']],
       ListenOn [Dns ''boot'', P2p (PeerId [1]), P2pCircuit]]"
proof -
  let ?iv = "bc_nodes_update_interval (tb_base_config demo_builder)"
  have iv: "?iv = 300" by (simp add: demo_builder_def base_config_default_def)
  have 1: "\<forall>t. worker_registration_time (client_at demo_adv t (tb_contract_client demo_builder)) (local_peer_id (l_crypto demo_libs) demo_builder) =
      Done (Inr (if t < 200 then None else Some 120))" by (simp add: demo_registration demo_builder_def)
  have 2: "sl_with_dns demo_swarm_lib = None" "sl_with_relay_client demo_swarm_lib = None" "\<forall>calls c. call_error demo_swarm_lib calls c = None"
    by (simp_all add: demo_swarm_lib_def call_error_def split: swarm_call.split)
  have peer: "local_peer_id (l_crypto demo_libs) demo_builder = PeerId [0, 1]"
    by (simp add: local_peer_id_def demo_builder_def demo_libs_def demo_crypto_def)
  from build_worker_starts [OF 1 _ _ 2, of "\<lambda>_. 1" 1 demo_nodes_stream metrics_init demo_worker_queues 0
      "worker_config_new (PeerId [8]) (PeerId [9])", where 'f = unit] iv
  obtain t and tr :: demo_worker_transport where t: "t = 420" and r: "build_worker demo_swarm_lib demo_libs demo_nodes_stream metrics_init demo_worker_queues (Some MultiThread) demo_adv
      (\<lambda>_. 1) 0 demo_builder (worker_config_new (PeerId [8]) (PeerId [9])) = Some (Done (Inr tr))"
    "sm_calls (wt_swarm tr) = swarm_plan demo_builder"
    "sm_behaviour (wt_swarm tr) = worker_behaviour_new demo_libs t (base_new demo_libs (tb_keypair demo_builder)
       (demo_nodes_stream (tb_contract_client demo_builder)) (tb_base_config demo_builder) (tb_boot_nodes demo_builder) (tb_dht_protocol demo_builder) metrics_init)
       (PeerId [0, 1]) (worker_config_new (PeerId [8]) (PeerId [9]))"
    unfolding peer by (auto simp: peer)
  have "demo_nodes_stream c = (\<lambda>_. [])" for c by (simp add: fun_eq_iff demo_nodes_stream_def)
  with r t show ?thesis by (simp add: swarm_plan_def relay_addrs_of_def demo_builder_def)
qed

end
