(* ===== verification/Bootnode.thy ===== *)
theory Bootnode
  imports Builder
begin

text \<open>
  The boot node (transport/src/bin/bootnode.rs): the program that other nodes connect to first, and
  the key generator (transport/src/bin/keygen.rs). The boot node has no actor: it sets up a swarm of its own, then
  follows the list of registered nodes and tells its peers' addresses to kademlia.
\<close>

section \<open>State\<close>

record bootnode_cli =
  cl_transport :: transport_args
  cl_allowed_nodes :: "peer_id list"

datatype bootnode_kad_call = SetServerMode | AddAddress peer_id multiaddr

text \<open>What the behaviours, and the swarm, are created with.\<close>

record bootnode_settings =
  bs_discovery :: discovery_settings
  bs_throttle_clients_global_max :: nat
  bs_throttle_clients_peer_max :: nat
  bs_gossip_key :: keypair
  bs_max_established_per_peer :: nat
  bs_idle_connection_timeout :: nat

text \<open>The behaviours that the program calls; the others are only created and then run by the swarm.\<close>

record bootnode_behaviour =
  bh_settings :: bootnode_settings
  bh_kademlia :: "bootnode_kad_call list"
  bh_allow :: "allow_call list"

record bootnode =
  bo_swarm :: "bootnode_behaviour swarm"
  bo_registered_nodes :: "peer_id fset"

text \<open>The errors that \<open>main\<close> returns in an \<open>anyhow::Error\<close>.\<close>

datatype bootnode_error =
    BootKey key_error
  | BootClient client_error
  | BootDns string
  | BootListen string
  | BootDial string
  | BootSignal string

definition boot_allow :: "peer_id \<Rightarrow> bootnode_behaviour swarm \<Rightarrow> bootnode_behaviour swarm" where
  "boot_allow p sw = sw\<lparr>sm_behaviour := (sm_behaviour sw)\<lparr>bh_allow := bh_allow (sm_behaviour sw) @ [AllowPeer p]\<rparr>\<rparr>"

definition boot_disallow :: "peer_id \<Rightarrow> bootnode_behaviour swarm \<Rightarrow> bootnode_behaviour swarm" where
  "boot_disallow p sw = sw\<lparr>sm_behaviour := (sm_behaviour sw)\<lparr>bh_allow := bh_allow (sm_behaviour sw) @ [DisallowPeer p]\<rparr>\<rparr>"

definition boot_kademlia :: "bootnode_kad_call \<Rightarrow> bootnode_behaviour swarm \<Rightarrow> bootnode_behaviour swarm" where
  "boot_kademlia c sw = sw\<lparr>sm_behaviour := (sm_behaviour sw)\<lparr>bh_kademlia := bh_kademlia (sm_behaviour sw) @ [c]\<rparr>\<rparr>"

section \<open>Starting\<close>

text \<open>
  Connecting to another boot node: it is allowed and then dialled by its peer ID only; its address is
  written to the log, but not passed on.
\<close>

definition bootnode_connect :: "swarm_lib \<Rightarrow> bootnode_behaviour swarm \<Rightarrow> boot_node \<Rightarrow> string + bootnode_behaviour swarm" where
  "bootnode_connect sl sw bn = swarm_dial sl (boot_allow (bn_peer_id bn) sw) (bn_peer_id bn) []"

definition bootnode_settings_new :: "crypto \<Rightarrow> keypair \<Rightarrow> network \<Rightarrow> bootnode_settings" where
  "bootnode_settings_new cr keypair network =
     (let public = keypair_public cr keypair in
      \<lparr>bs_discovery = \<lparr>ds_local_peer_id = pubkey_peer_id cr public, ds_id_protocol = id_protocol, ds_identify_key = public,
         ds_identify_interval = 60, ds_push_listen_addr_updates = True, ds_dht_protocol = dht_protocol network,
         ds_replication_factor = 20, ds_autonat_timeout = 60\<rparr>,
       bs_throttle_clients_global_max = 64, bs_throttle_clients_peer_max = 16, bs_gossip_key = keypair,
       bs_max_established_per_peer = 3, bs_idle_connection_timeout = 120\<rparr>)"

definition bootnode_swarm ::
    "swarm_lib \<Rightarrow> quic_settings \<Rightarrow> (string \<Rightarrow> string option) \<Rightarrow> crypto \<Rightarrow> keypair \<Rightarrow> bootnode_cli \<Rightarrow> bootnode_error + bootnode_behaviour swarm" where
  "bootnode_swarm sl quic env cr keypair cli =
     (let args = cl_transport cli;
          local_id = pubkey_peer_id cr (keypair_public cr keypair);
          quic = quic\<lparr>qs_mtu_upper_bound := mtu_discovery_max (quic_config_from_env env)\<rparr> in
      case sl_with_dns sl of Some e \<Rightarrow> Inl (BootDns e) | None \<Rightarrow>
      let swarm = \<lparr>sm_behaviour = \<lparr>bh_settings = bootnode_settings_new cr keypair (ra_network (ta_rpc args)), bh_kademlia = [], bh_allow = []\<rparr>, sm_quic = quic, sm_calls = []\<rparr> in
      case try_all BootListen (swarm_listen_on sl) (listen_addrs args) swarm of Inl e \<Rightarrow> Inl e | Inr swarm \<Rightarrow>
      let swarm = fold swarm_add_external_address (ta_p2p_public_addrs args) swarm;
          swarm = boot_kademlia SetServerMode swarm in
      case try_all BootDial (bootnode_connect sl) (filter (\<lambda>node. bn_peer_id node \<noteq> local_id) (ta_boot_nodes args)) swarm of
        Inl e \<Rightarrow> Inl e
      | Inr swarm \<Rightarrow> Inr (fold boot_allow (cl_allowed_nodes cli) swarm))"

text \<open>
  \<open>main\<close>, up to its loop. \<open>quic\<close> are the library's settings of the QUIC transport, and \<open>signals\<close> the error of
  installing the signal handlers, if there is one.
\<close>

definition bootnode_start ::
    "ed25519 \<Rightarrow> (path \<Rightarrow> bool) \<Rightarrow> (path \<Rightarrow> bool) \<Rightarrow> keypair \<Rightarrow> (path, node) fmap \<Rightarrow> ('http, 'ws) rpc_libs \<Rightarrow>
     (('http, 'ws) transport \<Rightarrow> chain) \<Rightarrow> (string \<Rightarrow> string option) \<Rightarrow> crypto \<Rightarrow> swarm_lib \<Rightarrow> quic_settings \<Rightarrow> string option \<Rightarrow>
     bootnode_cli \<Rightarrow> (path, node) fmap \<times> (bootnode_error + bootnode \<times> ethers_client) run" where
  "bootnode_start ed can_read can_write fresh fs R node env cr sl quic signals cli =
     (case get_keypair ed can_read can_write fresh fs (ta_key (cl_transport cli)) of
        (fs, Inl e) \<Rightarrow> (fs, Done (Inl (BootKey e)))
      | (fs, Inr keypair) \<Rightarrow>
          (fs, run_bind (get_client R node (ta_rpc (cl_transport cli))) (\<lambda>res. Done (case res of
             Inl e \<Rightarrow> Inl (BootClient e)
           | Inr contract_client \<Rightarrow>
               (case bootnode_swarm sl quic env cr keypair cli of
                  Inl e \<Rightarrow> Inl e
                | Inr swarm \<Rightarrow>
                    (case signals of
                       Some e \<Rightarrow> Inl (BootSignal e)
                     | None \<Rightarrow> Inr (\<lparr>bo_swarm = swarm, bo_registered_nodes = {||}\<rparr>, contract_client)))))))"

section \<open>The loop\<close>

definition bootnode_on_nodes ::
    "(peer_id fset \<Rightarrow> peer_id list) \<Rightarrow> bootnode \<Rightarrow> client_error + peer_id fset \<Rightarrow> bootnode" where
  "bootnode_on_nodes order self res =
     (case res of
        Inl e \<Rightarrow> self
      | Inr nodes \<Rightarrow>
          if nodes = bo_registered_nodes self then self
          else let swarm = fold boot_disallow (order (bo_registered_nodes self |-| nodes)) (bo_swarm self);
                   swarm = fold boot_allow (order (nodes |-| bo_registered_nodes self)) swarm in
               self\<lparr>bo_swarm := swarm, bo_registered_nodes := nodes\<rparr>)"

datatype bootnode_event = BootIdentifyReceived peer_id "multiaddr list" | BootOtherEvent

definition bootnode_on_event :: "(string \<Rightarrow> string option) \<Rightarrow> bootnode \<Rightarrow> bootnode_event \<Rightarrow> bootnode" where
  "bootnode_on_event env self ev =
     (case ev of
        BootIdentifyReceived peer_id addrs \<Rightarrow>
          self\<lparr>bo_swarm := fold (\<lambda>addr. boot_kademlia (AddAddress peer_id addr)) (filter (addr_is_reachable env) addrs) (bo_swarm self)\<rparr>
      | BootOtherEvent \<Rightarrow> self)"

text \<open>What the \<open>select!\<close> of the loop may yield; a signal ends the loop.\<close>

datatype bootnode_input =
    SwarmInput bootnode_event
  | NodesInput "client_error + peer_id fset"
  | SignalInput

fun bootnode_loop :: "(peer_id fset \<Rightarrow> peer_id list) \<Rightarrow> (string \<Rightarrow> string option) \<Rightarrow> bootnode \<Rightarrow> bootnode_input list \<Rightarrow> bootnode" where
  "bootnode_loop order env self [] = self"
| "bootnode_loop order env self (SwarmInput ev # inputs) = bootnode_loop order env (bootnode_on_event env self ev) inputs"
| "bootnode_loop order env self (NodesInput res # inputs) = bootnode_loop order env (bootnode_on_nodes order self res) inputs"
| "bootnode_loop order env self (SignalInput # inputs) = self"

section \<open>The key generator\<close>

text \<open>\<open>main\<close> of keygen.rs: what it prints, or its error.\<close>

definition keygen ::
    "ed25519 \<Rightarrow> (path \<Rightarrow> bool) \<Rightarrow> (path \<Rightarrow> bool) \<Rightarrow> keypair \<Rightarrow> (path, node) fmap \<Rightarrow> crypto \<Rightarrow> path \<Rightarrow>
     (path, node) fmap \<times> (key_error + string)" where
  "keygen ed can_read can_write fresh fs cr filename =
     (case get_keypair ed can_read can_write fresh fs (Some filename) of
        (fs, Inl e) \<Rightarrow> (fs, Inl e)
      | (fs, Inr keypair) \<Rightarrow> (fs, Inr (peer_to_base58 cr (pubkey_peer_id cr (keypair_public cr keypair)))))"

section \<open>The node list\<close>

lemma fold_boot_allow:
  "bh_allow (sm_behaviour (fold boot_allow ps sw)) = bh_allow (sm_behaviour sw) @ map AllowPeer ps"
  "bh_allow (sm_behaviour (fold boot_disallow ps sw)) = bh_allow (sm_behaviour sw) @ map DisallowPeer ps"
  by (induction ps arbitrary: sw) (simp_all add: boot_allow_def boot_disallow_def)

lemma fold_boot_allowed:
  "allowed (bh_allow (sm_behaviour (fold boot_allow ps sw))) = allowed (bh_allow (sm_behaviour sw)) \<union> set ps"
  "allowed (bh_allow (sm_behaviour (fold boot_disallow ps sw))) = allowed (bh_allow (sm_behaviour sw)) - set ps"
  by (simp_all add: fold_boot_allow allowed_append_map)

interpretation boot_nodes: node_list "bootnode_on_nodes order" bo_registered_nodes "\<lambda>s. bh_allow (sm_behaviour (bo_swarm s))" order for order
  by unfold_locales
     (auto simp: bootnode_on_nodes_def Let_def fold_boot_allowed peer_order_laws_def)

text \<open>The results of the node stream that the loop handles before a signal.\<close>

fun nodes_handled :: "bootnode_input list \<Rightarrow> (client_error + peer_id fset) list" where
  "nodes_handled [] = []"
| "nodes_handled (SwarmInput ev # inputs) = nodes_handled inputs"
| "nodes_handled (NodesInput res # inputs) = res # nodes_handled inputs"
| "nodes_handled (SignalInput # inputs) = []"

lemma bootnode_on_event_frame:
  "bh_allow (sm_behaviour (bo_swarm (bootnode_on_event env s ev))) = bh_allow (sm_behaviour (bo_swarm s))"
  "bo_registered_nodes (bootnode_on_event env s ev) = bo_registered_nodes s"
proof -
  have "bh_allow (sm_behaviour (fold (\<lambda>a. boot_kademlia (f a)) as sw)) = bh_allow (sm_behaviour sw)" for f sw and as :: "multiaddr list"
    by (induction as arbitrary: sw) (simp_all add: boot_kademlia_def)
  then show "bh_allow (sm_behaviour (bo_swarm (bootnode_on_event env s ev))) = bh_allow (sm_behaviour (bo_swarm s))"
    "bo_registered_nodes (bootnode_on_event env s ev) = bo_registered_nodes s"
    by (simp_all add: bootnode_on_event_def split: bootnode_event.split)
qed

lemma bootnode_loop_implements:
  assumes "peer_order_laws order" and "boot_nodes.implements s st"
  shows "boot_nodes.implements (bootnode_loop order env s inputs) (fold node_spec (nodes_handled inputs) st)"
  using assms(2)
proof (induction inputs arbitrary: s st rule: nodes_handled.induct)
  case (2 ev inputs)
  then have "boot_nodes.implements (bootnode_on_event env s ev) st"
    by (auto simp: boot_nodes.implements_def bootnode_on_event_frame)
  with "2.IH" show ?case by simp
next
  case (3 res inputs)
  with boot_nodes.update_refines [OF assms(1)] show ?case by simp
qed simp_all

section \<open>Properties\<close>

text \<open>
  In libp2p, dialling a peer without an address is an error unless one of the behaviours knows an
  address of the peer; right after the start none does.
\<close>

definition dial_needs_address :: "swarm_lib \<Rightarrow> bool" where
  "dial_needs_address sl \<longleftrightarrow> (\<forall>calls p. sl_dial sl calls p [] \<noteq> None)"

lemma try_all_total: "(\<And>s x. \<exists>s'. f s x = Inr s') \<Longrightarrow> \<exists>s'. try_all conv f xs s = Inr s'"
proof (induction xs arbitrary: s)
  case (Cons x xs)
  from Cons.prems [of s x] obtain s1 where "f s x = Inr s1" by blast
  with Cons.IH [OF Cons.prems, of s1] show ?case by simp
qed simp

lemma try_all_fails: "xs \<noteq> [] \<Longrightarrow> (\<And>s x. \<exists>e. f s x = Inl e) \<Longrightarrow> \<exists>e. try_all conv f xs s = Inl (conv e)"
  by (cases xs) (simp_all, metis old.sum.simps(5))


text \<open>For the witness.\<close>

definition demo_rpc_libs :: "(string, string) rpc_libs" where
  "demo_rpc_libs = \<lparr>url_parse = Inr, http_new = \<lambda>u. u, ws_connect = Inr\<rparr>"

definition demo_args :: transport_args where
  "demo_args = \<lparr>ta_key = None, ta_p2p_listen_addrs = [[Ip4 0]], ta_p2p_public_addrs = [],
     ta_boot_nodes = [\<lparr>bn_peer_id = PeerId [0, 1], bn_address = []\<rparr>, \<lparr>bn_peer_id = PeerId [0, 2], bn_address = [Dns ''boot2'']\<rparr>],
     ta_rpc = \<lparr>rpc_url = ''http://node'', l1_rpc_url = None,
       ra_contract_addrs = \<lparr>gateway_registry_contract_addr = None, worker_registration_contract_addr = None,
         network_controller_contract_addr = None, allocations_viewer_contract_addr = None, multicall_contract_addr = None\<rparr>,
       ra_network = Mainnet\<rparr>\<rparr>"


end
