(* ===== verification/Flows.thy ===== *)
theory Flows
  imports Codec Gateway Worker Scheduler Observer Logs_Collector
begin

text \<open>
  Exchanges between actors, composed from what each of them does: a query from the gateway's handle to the worker's
  application and its result back, the acknowledgement of logs from the collector to workers and observers, the scheduler's
  pongs to workers, and the logs of gateways to the collector.
\<close>

section \<open>A query and its result\<close>

abbreviation gateway_client where
  "gateway_client g \<equiv> wrapper (gi_query (gw_inner g))"

text \<open>The gateway signs a query with its key and hands it to the protocol, if the client has room.\<close>

lemma gateway_sends_signed:
  assumes "key_of_peer (l_crypto L) (bb_keypair (wrapper (gi_base (gw_inner g)))) gpeer" and "q_query_id q = Some qid"
    and "fcard (fmdom (cl_original_requests (gateway_client g))) < cl_max_buffered (gateway_client g)"
  shows "\<exists>g' q' i. gateway_send_query L rr g wpeer q = Done g' \<and> query_accepted L rr g wpeer q = [(i, wpeer, qid)] \<and>
    cl_inner (gateway_client g') = cl_inner (gateway_client g) @ [RrSend wpeer q'] \<and> i = rr_id rr (cl_inner (gateway_client g')) \<and>
    q'\<lparr>q_signature := []\<rparr> = q\<lparr>q_signature := []\<rparr> \<and>
    verify_signature (l_crypto L) (query_signed (l_protobuf L)) gpeer q' = Done (True, q')"
proof -
  from query_sig.verify_sign [OF assms(1), of "l_protobuf L" q] obtain q' where
    s: "sign (l_crypto L) (query_signed (l_protobuf L)) (bb_keypair (wrapper (gi_base (gw_inner g)))) q = Done q'"
    and v: "verify_signature (l_crypto L) (query_signed (l_protobuf L)) gpeer q' = Done (True, q')" by blast
  have q': "q'\<lparr>q_signature := []\<rparr> = q\<lparr>q_signature := []\<rparr>" using s by (auto simp: sign_def query_signed_def)
  have b: "base_sign L (wrapper (gi_base (gw_inner g))) (query_signed (l_protobuf L)) q = Done q'" using s by (simp add: base_sign_def)
  let ?calls = "cl_inner (gateway_client g) @ [RrSend wpeer q']"
  have c: "client_try_send_request rr (gateway_client g) wpeer q' =
      ((gateway_client g)\<lparr>cl_inner := ?calls, cl_original_requests := fmupd (rr_id rr ?calls) q' (cl_original_requests (gateway_client g))\<rparr>,
       Inr (rr_id rr ?calls))"
    using assms(3) by (simp add: client_try_send_request_def rr_send_request_def Let_def)
  from b c assms(2) v q' show ?thesis
    by (simp add: gateway_send_query_def query_accepted_def Let_def del: run_bind_eq_Done)
qed

text \<open>The worker hands on a query that its sender has signed, and routes the result to the channel of the request.\<close>

lemma worker_answers_signed:
  assumes "verify_signature (l_crypto L) (query_signed (l_protobuf L)) gpeer q = Done (True, q)" and "q_query_id q = Some (qr_query_id res)"
  shows "\<exists>w'. worker_on_inner_event L rrp w (WiQuery \<lparr>rq_peer_id = gpeer, rq_request = q, rq_response_channel = ch\<rparr>) =
      Done (w', [GenerateEvent (WkQuery gpeer q)]) \<and>
    worker_responses (worker_send_query_result rrq w' res) = worker_responses w @ [(ch, res)]"
  using assms by (simp add: worker_on_inner_event_def worker_on_query_def worker_send_query_result_def del: run_bind_eq_Done)

text \<open>
  C1. A query reaches the worker and its result comes back. A gateway that has room signs the query and gives it to the protocol once, for the worker;
  nothing but the signature is changed. Written to a substream and read by the worker's codec it is the same query, if it fits the worker's limit. The
  worker, which knows the gateway only by its peer ID, accepts it and emits it with the gateway's ID; the result
  that its application then sends goes to the channel of this request. Written to a substream and read by the gateway's codec, it is the same result, if it fits the
  gateway's limit. And at whatever later point of its run the gateway receives it, provided that the request was not answered
  before, it emits exactly this result, for this worker, and forgets the request.
\<close>

theorem query_flow:
  fixes rr :: "(query, query_result, 'cmd) rr"
  assumes run: "gateway_run L rr order conn b0 config g qs dl out"
    and laws: "rr_laws rr" "futures_map_laws (l_timers L) cap" "order_laws order"
    and key: "key_of_peer (l_crypto L) (bb_keypair (wrapper (gi_base (gw_inner g)))) gpeer" and qid: "q_query_id q = Some (qr_query_id res)"
    and room: "fcard (fmdom (cl_original_requests (gateway_client g))) < cl_max_buffered (gateway_client g)"
    and libs: "l_crypto L' = l_crypto L" "l_protobuf L' = l_protobuf L"
    and wire: "stream_laws rd wr io0" "\<forall>s. dec_query (enc_query (l_protobuf L) (q\<lparr>q_signature := s\<rparr>)) = Some (q\<lparr>q_signature := s\<rparr>)"
      "dec_result (enc_result res) = Some res"
  shows "\<exists>g' q' i. gateway_send_query L rr g wpeer q = Done g' \<and> gateway_run L rr order conn b0 config g' (qs @ [(i, wpeer, qr_query_id res)]) dl out \<and>
    cl_inner (gateway_client g') = cl_inner (gateway_client g) @ [RrSend wpeer q'] \<and> q'\<lparr>q_signature := []\<rparr> = q\<lparr>q_signature := []\<rparr> \<and>
    (\<forall>io. write_request wr (enc_query (l_protobuf L)) io0 q' = Inr io \<longrightarrow>
       length (enc_query (l_protobuf L) q') \<le> unat (wc_max_query_size wconfig) \<longrightarrow>
       read_request rd dec_query (proto_codec_new (wc_max_query_size wconfig) (wc_max_query_result_size wconfig)) io = Inr q') \<and>
    (\<forall>ch. \<exists>w'. worker_on_inner_event L' rrp w (WiQuery \<lparr>rq_peer_id = gpeer, rq_request = q', rq_response_channel = ch\<rparr>) =
         Done (w', [GenerateEvent (WkQuery gpeer q')]) \<and>
       worker_responses (worker_send_query_result rrw w' res) = worker_responses w @ [(ch, res)]) \<and>
    (\<forall>io. write_response wr enc_result io0 res = Inr io \<longrightarrow> length (enc_result res) \<le> unat (gc_max_query_result_size config) \<longrightarrow>
       read_response rd dec_result (proto_codec_new (gc_max_query_size config) (gc_max_query_result_size config)) io = Inr res) \<and>
    (\<forall>g2 qs2 dl2 out2. gateway_run L rr order conn b0 config g2 (qs @ (i, wpeer, qr_query_id res) # qs2) dl2 out2 \<longrightarrow>
       i \<notin> fst ` set (answered dl2) \<longrightarrow>
       (\<exists>g3. gateway_on_inner_event L g2 (GiQuery (Response wpeer i res)) = (g3, [GenerateEvent (GwQueryResult wpeer res)]) \<and>
             fmlookup (gw_query_ids g3) i = None))"
proof -
  from gateway_sends_signed [OF key qid room, of rr wpeer] obtain g' q' i where
    g': "gateway_send_query L rr g wpeer q = Done g'" "query_accepted L rr g wpeer q = [(i, wpeer, qr_query_id res)]"
      "cl_inner (gateway_client g') = cl_inner (gateway_client g) @ [RrSend wpeer q']" "q'\<lparr>q_signature := []\<rparr> = q\<lparr>q_signature := []\<rparr>"
    and v: "verify_signature (l_crypto L) (query_signed (l_protobuf L)) gpeer q' = Done (True, q')" by blast
  have "q' = q\<lparr>q_signature := q_signature q'\<rparr>" using g'(4) by (cases q; cases q') simp
  with wire(2) have dq: "dec_query (enc_query (l_protobuf L) q') = Some q'" by metis
  have "gateway_run L rr order conn b0 config g' (qs @ [(i, wpeer, qr_query_id res)]) dl out"
    using gateway_run.send [OF run g'(1)] g'(2) by simp
  moreover have "read_request rd dec_query (proto_codec_new (wc_max_query_size wconfig) (wc_max_query_result_size wconfig)) io = Inr q'"
    if "write_request wr (enc_query (l_protobuf L)) io0 q' = Inr io" "length (enc_query (l_protobuf L) q') \<le> unat (wc_max_query_size wconfig)" for io
    by (rule request_roundtrip [OF wire(1) that(1)]) (simp_all add: proto_codec_new_def that(2) dq)
  moreover have "read_response rd dec_result (proto_codec_new (gc_max_query_size config) (gc_max_query_result_size config)) io = Inr res"
    if "write_response wr enc_result io0 res = Inr io" "length (enc_result res) \<le> unat (gc_max_query_result_size config)" for io
    by (rule response_roundtrip [OF wire(1) that(1)]) (simp_all add: proto_codec_new_def that(2) wire(3))
  moreover have "\<exists>w'. worker_on_inner_event L' rrp w (WiQuery \<lparr>rq_peer_id = gpeer, rq_request = q', rq_response_channel = ch\<rparr>) =
         Done (w', [GenerateEvent (WkQuery gpeer q')]) \<and>
       worker_responses (worker_send_query_result rrw w' res) = worker_responses w @ [(ch, res)]" for ch
  proof (rule worker_answers_signed)
    show "verify_signature (l_crypto L') (query_signed (l_protobuf L')) gpeer q' = Done (True, q')" using v libs by simp
    show "q_query_id q' = Some (qr_query_id res)" using g'(4) qid by (cases q; cases q') simp
  qed
  moreover have "\<exists>g3. gateway_on_inner_event L g2 (GiQuery (Response wpeer i res)) = (g3, [GenerateEvent (GwQueryResult wpeer res)]) \<and>
      fmlookup (gw_query_ids g3) i = None"
    if "gateway_run L rr order conn b0 config g2 (qs @ (i, wpeer, qr_query_id res) # qs2) dl2 out2" "i \<notin> fst ` set (answered dl2)"
    for g2 qs2 dl2 out2
  proof -
    have "ids_ok (qs @ (i, wpeer, qr_query_id res) # qs2) dl2 (gw_query_ids g2)"
      using gateway_run_inv [OF that(1) laws] by (simp add: gateway_inv_def)
    with that(2) have "fmlookup (gw_query_ids g2) i = Some (qr_query_id res)" by (auto simp: ids_ok_def)
    then show ?thesis
      by (simp add: gateway_on_inner_event_def gateway_on_query_event_def gateway_on_query_result_def Let_def)
  qed
  ultimately show ?thesis using g'(1,3,4) by (intro exI [of _ g'] exI [of _ q'] exI [of _ i]) blast
qed

text \<open>For the witness: a gateway with the peer ID \<open>[0, 1]\<close>; queries are encoded by their signature, substreams are lists of bytes.\<close>

definition demo_query_libs ::
    "(peer_id \<Rightarrow> multiaddr set option, nat \<times> peer_id list, (query_id, peer_id) fmap, (unit + peer_id fset) list, unit) libs" where
  "demo_query_libs = demo_libs\<lparr>l_protobuf := demo_protobuf\<lparr>enc_query := q_signature\<rparr>\<rparr>"

definition demo_query_gateway ::
    "(peer_id \<Rightarrow> multiaddr set option, nat \<times> peer_id list, (query_id, peer_id) fmap, (unit + peer_id fset) list, unit) gateway" where
  "demo_query_gateway = wrapper (gateway_new demo_query_libs 0 demo_base demo_gateway_config)"

definition demo_answer :: query_result where
  "demo_answer = \<lparr>qr_query_id = ''q1'', qr_result = Some QR_NoAllocation\<rparr>"

lemma demo_query_gateway_fields:
  "bb_keypair (wrapper (gi_base (gw_inner demo_query_gateway))) = Keypair []"
  "cl_original_requests (gateway_client demo_query_gateway) = fmempty" "0 < cl_max_buffered (gateway_client demo_query_gateway)"
  by (simp_all add: demo_query_gateway_def gateway_new_def Let_def wrapped_from_def client_new_def gateway_config_new_def client_config_default_def
      base_allow_peer_def base_subscribe_pings_def on_pubsub_frame demo_base_def base_new_def)

theorem query_flow_witness:
  "\<exists>g' q' i w'. gateway_send_query demo_query_libs demo_rr demo_query_gateway (PeerId [5]) Gateway.demo_query = Done g' \<and>
     worker_on_inner_event demo_query_libs demo_rr demo_worker_behaviour
       (WiQuery \<lparr>rq_peer_id = PeerId [0, 1], rq_request = q', rq_response_channel = 4\<rparr>) = Done (w', [GenerateEvent (WkQuery (PeerId [0, 1]) q')]) \<and>
     worker_responses (worker_send_query_result demo_rr w' demo_answer) = worker_responses demo_worker_behaviour @ [(4, demo_answer)] \<and>
     (\<exists>g3. gateway_on_inner_event demo_query_libs g' (GiQuery (Response (PeerId [5]) i demo_answer)) =
        (g3, [GenerateEvent (GwQueryResult (PeerId [5]) demo_answer)]))"
proof -
  have run: "gateway_run demo_query_libs demo_rr demo_order demo_conn demo_base demo_gateway_config demo_query_gateway [] [] []"
    unfolding demo_query_gateway_def by (rule gateway_run.new)
  have t: "futures_map_laws (l_timers demo_query_libs) fst" using demo_timers_laws_libs by (simp add: demo_query_libs_def)
  have key: "key_of_peer (l_crypto demo_query_libs) (bb_keypair (wrapper (gi_base (gw_inner demo_query_gateway)))) (PeerId [0, 1])"
    using demo_key_of_peer [of "[]" 0 1] by (simp add: demo_query_gateway_fields demo_query_libs_def demo_libs_def)
  have room: "fcard (fmdom (cl_original_requests (gateway_client demo_query_gateway))) < cl_max_buffered (gateway_client demo_query_gateway)"
    using demo_query_gateway_fields(2,3) by (simp add: fcard.rep_eq)
  have qid: "q_query_id Gateway.demo_query = Some (qr_query_id demo_answer)" by (simp add: Gateway.demo_query_def demo_answer_def)
  let ?rd = "\<lambda>n io. Inr (take n io)" and ?wr = "\<lambda>io bs. Inr (io @ bs)"
  have s: "stream_laws ?rd ?wr []" by (simp add: stream_laws_def)
  let ?dec = "\<lambda>b. Some (Gateway.demo_query\<lparr>q_signature := b\<rparr>)"
  have d: "\<forall>s. ?dec (enc_query (l_protobuf demo_query_libs) (Gateway.demo_query\<lparr>q_signature := s\<rparr>)) = Some (Gateway.demo_query\<lparr>q_signature := s\<rparr>)"
    by (simp add: demo_query_libs_def)
  have r: "(\<lambda>_. Some demo_answer) ((\<lambda>_. []) demo_answer) = Some demo_answer" by simp
  from query_flow [where enc_result = "\<lambda>_. []", OF run demo_rr_laws t demo_order_laws key qid room refl refl s d r,
    of "PeerId [5]" demo_worker_config demo_rr demo_worker_behaviour demo_rr]
  obtain g' q' i where f: "gateway_send_query demo_query_libs demo_rr demo_query_gateway (PeerId [5]) Gateway.demo_query = Done g'"
    "gateway_run demo_query_libs demo_rr demo_order demo_conn demo_base demo_gateway_config g' ([] @ [(i, PeerId [5], qr_query_id demo_answer)]) [] []"
    "\<forall>ch. \<exists>w'. worker_on_inner_event demo_query_libs demo_rr demo_worker_behaviour
        (WiQuery \<lparr>rq_peer_id = PeerId [0, 1], rq_request = q', rq_response_channel = ch\<rparr>) = Done (w', [GenerateEvent (WkQuery (PeerId [0, 1]) q')]) \<and>
      worker_responses (worker_send_query_result demo_rr w' demo_answer) = worker_responses demo_worker_behaviour @ [(ch, demo_answer)]"
    "\<forall>g2 qs2 dl2 out2. gateway_run demo_query_libs demo_rr demo_order demo_conn demo_base demo_gateway_config g2
        ([] @ (i, PeerId [5], qr_query_id demo_answer) # qs2) dl2 out2 \<longrightarrow> i \<notin> fst ` set (answered dl2) \<longrightarrow>
      (\<exists>g3. gateway_on_inner_event demo_query_libs g2 (GiQuery (Response (PeerId [5]) i demo_answer)) =
         (g3, [GenerateEvent (GwQueryResult (PeerId [5]) demo_answer)]) \<and> fmlookup (gw_query_ids g3) i = None)"
    by - (elim exE conjE, rule that, assumption+)
  from f(4) [rule_format, OF f(2)] obtain g3 where
    g3: "gateway_on_inner_event demo_query_libs g' (GiQuery (Response (PeerId [5]) i demo_answer)) =
         (g3, [GenerateEvent (GwQueryResult (PeerId [5]) demo_answer)])" by auto
  from f(3) obtain w' where "worker_on_inner_event demo_query_libs demo_rr demo_worker_behaviour
        (WiQuery \<lparr>rq_peer_id = PeerId [0, 1], rq_request = q', rq_response_channel = 4\<rparr>) = Done (w', [GenerateEvent (WkQuery (PeerId [0, 1]) q')])"
      "worker_responses (worker_send_query_result demo_rr w' demo_answer) = worker_responses demo_worker_behaviour @ [(4, demo_answer)]" by blast
  with f(1) g3 show ?thesis by (intro exI conjI) assumption+
qed

section \<open>The acknowledgement of logs\<close>

abbreviation collector_base :: "('lru, 'fm, 'bm, 'ns, 'cmd) logs_collector \<Rightarrow> ('lru, 'fm, 'bm, 'ns) base" where
  "collector_base c \<equiv> wrapper (li_base (lg_inner c))"

abbreviation worker_handler where
  "worker_handler L rrp \<equiv> \<lambda>w e. worker_on_inner_event L rrp w (WiBase e)"

abbreviation observer_handler where
  "observer_handler \<equiv> \<lambda>ob e. Done (observer_on_inner_event ob e)"

lemma receive_logs_collected:
  "pm_topic msg = logs_collected_topic \<Longrightarrow> receive L h s msg =
    (case dec_logs_collected (l_protobuf L) (pm_data msg) of
       Some m \<Rightarrow> h s (EvLogsCollected (pm_peer_id msg) m) | None \<Rightarrow> Done (s, []))"
  by (simp add: receive_def base_on_pubsub_event_def decode_logs_collected_def del: feed.simps(2) split: option.split)

lemma receive_legacy_collected:
  assumes "pm_topic msg = worker_logs_topic"
    and "dec_worker_logs_msg (l_protobuf L) (pm_data msg) = Some (worker_logs_msg_from_logs_collected m)"
  shows "receive L h s msg = Done (s, [])"
  using assms
  by (simp add: receive_def base_on_pubsub_event_def decode_worker_logs_msg_def worker_logs_msg_from_logs_collected_def
      worker_logs_msg_from_msg_def)

lemma publish_other_topic: "subscribed L s t \<Longrightarrow> subscribed L (base_publish L now s t' data) t"
  by (auto simp: base_publish_def on_pubsub_frame pubsub_publish_def subscribed_def Let_def split: option.splits)

text \<open>What a worker and an observer make of an acknowledgement.\<close>

lemma receive_collected_actors:
  "pm_topic m = logs_collected_topic \<Longrightarrow> receive L (worker_handler L rrp) w m =
     Done (w, case dec_logs_collected (l_protobuf L) (pm_data m) of
       Some msg \<Rightarrow> if pm_peer_id m = wb_logs_collector_id w
         then [GenerateEvent (WkLogsCollected (fmlookup (sequence_numbers msg) (wb_local_peer_id w)))] else []
     | None \<Rightarrow> [])"
  "pm_topic m = logs_collected_topic \<Longrightarrow> receive L observer_handler ob m =
     Done (ob, case dec_logs_collected (l_protobuf L) (pm_data m) of
       Some msg \<Rightarrow> if pm_peer_id m = ob_logs_collector_id ob then [GenerateEvent (ObLogsCollected msg)] else []
     | None \<Rightarrow> [])"
  by (simp_all add: receive_logs_collected worker_on_inner_event_def worker_on_base_event_def worker_on_logs_collected_def
      observer_on_inner_event_def observer_on_base_event_def split: option.split)

text \<open>
  C15. Acknowledgements come from the collector only, and once. An acknowledgement that a logs collector publishes goes out on two topics; a worker or an
  observer that listens on both, in whichever order the messages come, emits exactly one event for it, and only if the sender
  is the collector it is configured with: the worker with the sequence number that is acknowledged for it, if any, the observer with all of them.
  A message on this topic from any other peer is without effect.
\<close>

theorem logs_collected_flow:
  assumes "subscribed L (collector_base c) logs_collected_topic" and "subscribed L (collector_base c) worker_logs_topic"
    and "sha256_topic (l_gossip L) logs_collected_topic \<noteq> sha256_topic (l_gossip L) worker_logs_topic"
    and "dec_logs_collected (l_protobuf L) (enc_logs_collected (l_protobuf L) msg) = Some msg"
    and "dec_worker_logs_msg (l_protobuf L) (enc_worker_logs_msg (l_protobuf L) (worker_logs_msg_from_logs_collected msg)) =
      Some (worker_logs_msg_from_logs_collected msg)"
    and "l_protobuf L' = l_protobuf L"
  shows "(\<exists>calls msgs. ps_inner (base_gossip (collector_base (logs_collector_logs_collected L now c msg))) = ps_inner (base_gossip (collector_base c)) @ calls \<and>
      length msgs = 2 \<and> published (l_gossip L) peer logs_collected_topic calls @ published (l_gossip L) peer worker_logs_topic calls = msgs \<and>
      (\<forall>ms\<in>{msgs, rev msgs}.
        receive_all L' (worker_handler L' rrp) w ms = Done (w, if peer = wb_logs_collector_id w
          then [GenerateEvent (WkLogsCollected (fmlookup (sequence_numbers msg) (wb_local_peer_id w)))] else []) \<and>
        receive_all L' observer_handler ob ms = Done (ob, if peer = ob_logs_collector_id ob then [GenerateEvent (ObLogsCollected msg)] else []))) \<and>
    (\<forall>m. pm_topic m = logs_collected_topic \<longrightarrow>
      (pm_peer_id m \<noteq> wb_logs_collector_id w \<longrightarrow> receive L' (worker_handler L' rrp) w m = Done (w, [])) \<and>
      (pm_peer_id m \<noteq> ob_logs_collector_id ob \<longrightarrow> receive L' observer_handler ob m = Done (ob, [])))"
proof
  let ?pb = "l_protobuf L" and ?b = "collector_base c"
  let ?h1 = "sha256_topic (l_gossip L) logs_collected_topic" and ?h2 = "sha256_topic (l_gossip L) worker_logs_topic"
  let ?d1 = "enc_logs_collected ?pb msg" and ?d2 = "enc_worker_logs_msg ?pb (worker_logs_msg_from_logs_collected msg)"
  let ?calls = "[GsPublish ?h1 ?d1, GsPublish ?h2 ?d2]"
  let ?m1 = "\<lparr>pm_peer_id = peer, pm_topic = logs_collected_topic, pm_data = ?d1\<rparr>"
    and ?m2 = "\<lparr>pm_peer_id = peer, pm_topic = worker_logs_topic, pm_data = ?d2\<rparr>"
  have "ps_inner (base_gossip (collector_base (logs_collector_logs_collected L now c msg))) = ps_inner (base_gossip ?b) @ ?calls"
    using publish_subscribed(1) [OF assms(1), of now ?d1] publish_subscribed(1) [OF publish_other_topic [OF assms(2)], of now now logs_collected_topic ?d1 ?d2]
    by (simp add: logs_collector_logs_collected_def base_publish_logs_collected_def Let_def)
  moreover have "published (l_gossip L) peer logs_collected_topic ?calls @ published (l_gossip L) peer worker_logs_topic ?calls = [?m1, ?m2]"
    using assms(3) by (simp add: published_def List.map_filter_simps)
  moreover have "\<forall>ms\<in>{[?m1, ?m2], rev [?m1, ?m2]}.
      receive_all L' (worker_handler L' rrp) w ms = Done (w, if peer = wb_logs_collector_id w
        then [GenerateEvent (WkLogsCollected (fmlookup (sequence_numbers msg) (wb_local_peer_id w)))] else []) \<and>
      receive_all L' observer_handler ob ms = Done (ob, if peer = ob_logs_collector_id ob then [GenerateEvent (ObLogsCollected msg)] else [])"
    using assms(4,5,6) by (simp add: receive_collected_actors receive_legacy_collected)
  ultimately show "\<exists>calls msgs. ps_inner (base_gossip (collector_base (logs_collector_logs_collected L now c msg))) = ps_inner (base_gossip ?b) @ calls \<and>
      length msgs = 2 \<and> published (l_gossip L) peer logs_collected_topic calls @ published (l_gossip L) peer worker_logs_topic calls = msgs \<and>
      (\<forall>ms\<in>{msgs, rev msgs}.
        receive_all L' (worker_handler L' rrp) w ms = Done (w, if peer = wb_logs_collector_id w
          then [GenerateEvent (WkLogsCollected (fmlookup (sequence_numbers msg) (wb_local_peer_id w)))] else []) \<and>
        receive_all L' observer_handler ob ms = Done (ob, if peer = ob_logs_collector_id ob then [GenerateEvent (ObLogsCollected msg)] else []))"
    by (intro exI [of _ ?calls] exI [of _ "[?m1, ?m2]"] conjI) simp_all
qed (simp add: receive_collected_actors split: option.split)

text \<open>For the witness: an acknowledgement for the worker with the ID \<open>w1\<close>.\<close>

definition demo_acknowledgement :: logs_collected where
  "demo_acknowledgement = \<lparr>sequence_numbers = fmupd ''w1'' 7 fmempty\<rparr>"

definition demo_ack_libs ::
    "(peer_id \<Rightarrow> multiaddr set option, nat \<times> peer_id list, (query_id, peer_id) fmap, (unit + peer_id fset) list, unit) libs" where
  "demo_ack_libs = demo_libs\<lparr>l_protobuf := demo_protobuf\<lparr>enc_logs_collected := \<lambda>_. [], dec_logs_collected := \<lambda>_. Some demo_acknowledgement,
     enc_worker_logs_msg := \<lambda>_. [], dec_worker_logs_msg := \<lambda>_. Some (worker_logs_msg_from_logs_collected demo_acknowledgement)\<rparr>\<rparr>"

definition demo_ack_collector ::
    "(peer_id \<Rightarrow> multiaddr set option, nat \<times> peer_id list, (query_id, peer_id) fmap, (unit + peer_id fset) list, unit) logs_collector" where
  "demo_ack_collector = wrapper (logs_collector_new demo_ack_libs 0 demo_base logs_collector_config_default)"

definition demo_ack_worker ::
    "(peer_id \<Rightarrow> multiaddr set option, nat \<times> peer_id list, (query_id, peer_id) fmap, (unit + peer_id fset) list, unit) worker_behaviour" where
  "demo_ack_worker = (wrapper (worker_behaviour_new demo_ack_libs 0 demo_base (PeerId [0, 1]) demo_worker_config))\<lparr>wb_local_peer_id := ''w1''\<rparr>"

definition demo_ack_observer ::
    "(peer_id \<Rightarrow> multiaddr set option, nat \<times> peer_id list, (query_id, peer_id) fmap, (unit + peer_id fset) list, unit) observer" where
  "demo_ack_observer = wrapper (observer_new demo_ack_libs 0 demo_base (PeerId [9]))"

lemma demo_base_topics: "ps_topics (base_gossip demo_base) = fmempty"
  by (simp add: demo_base_def base_new_def Let_def add_boot_node_def allow_peer_call_def wrapped_from_def pubsub_new_def)

lemma demo_ack_subscribed:
  "subscribed demo_ack_libs (collector_base demo_ack_collector) logs_collected_topic"
  "subscribed demo_ack_libs (collector_base demo_ack_collector) worker_logs_topic"
  by (simp_all add: subscribed_def demo_ack_collector_def logs_collector_new_def wrapped_from_def Let_def base_subscribe_worker_logs_def
      base_subscribe_logs_collected_def on_pubsub_frame pubsub_subscribe_def demo_ack_libs_def demo_libs_def demo_gossip_def
      topic_state_new_def demo_base_topics)

theorem logs_collected_flow_witness:
  "\<exists>msgs. length msgs = 2 \<and>
     receive_all demo_ack_libs (worker_handler demo_ack_libs demo_rr) demo_ack_worker msgs =
       Done (demo_ack_worker, [GenerateEvent (WkLogsCollected (Some 7))]) \<and>
     receive_all demo_ack_libs observer_handler demo_ack_observer msgs =
       Done (demo_ack_observer, [GenerateEvent (ObLogsCollected demo_acknowledgement)])"
proof -
  have h: "sha256_topic (l_gossip demo_ack_libs) logs_collected_topic \<noteq> sha256_topic (l_gossip demo_ack_libs) worker_logs_topic"
    by (simp add: demo_ack_libs_def demo_libs_def demo_gossip_def)
  have d1: "dec_logs_collected (l_protobuf demo_ack_libs) (enc_logs_collected (l_protobuf demo_ack_libs) demo_acknowledgement) = Some demo_acknowledgement"
    by (simp add: demo_ack_libs_def)
  have d2: "dec_worker_logs_msg (l_protobuf demo_ack_libs)
      (enc_worker_logs_msg (l_protobuf demo_ack_libs) (worker_logs_msg_from_logs_collected demo_acknowledgement)) =
      Some (worker_logs_msg_from_logs_collected demo_acknowledgement)" by (simp add: demo_ack_libs_def)
  have w: "wb_logs_collector_id demo_ack_worker = PeerId [9]" "wb_local_peer_id demo_ack_worker = ''w1''" "ob_logs_collector_id demo_ack_observer = PeerId [9]"
    by (simp_all add: demo_ack_worker_def worker_behaviour_new_def Let_def wrapped_from_def worker_config_new_def demo_ack_observer_def observer_new_def)
  from logs_collected_flow [OF demo_ack_subscribed h d1 d2 refl, of 0 "PeerId [9]" demo_rr demo_ack_worker demo_ack_observer, THEN conjunct1] w
  show ?thesis by - (elim exE conjE, rule_tac x = msgs in exI, simp add: demo_acknowledgement_def)
qed

section \<open>Pongs\<close>

text \<open>A client with room for a request gives it to the protocol once, for the peer; without room it leaves everything as it is.\<close>

lemma client_sends_once:
  "cl_inner (fst (client_try_send_request rr c p r)) =
     cl_inner c @ (if fcard (fmdom (cl_original_requests c)) < cl_max_buffered c then [RrSend p r] else [])"
  "cl_max_buffered c \<le> fcard (fmdom (cl_original_requests c)) \<Longrightarrow> fst (client_try_send_request rr c p r) = c"
  by (simp_all add: client_try_send_request_def rr_send_request_def Let_def)

abbreviation scheduler_client where
  "scheduler_client s \<equiv> wrapper (si_pong (sd_inner s))"

abbreviation pong_acks where
  "pong_acks w \<equiv> responses (wrapper (wi_pong (wb_inner w)))"

text \<open>
  A pong goes to the worker once, if the scheduler's client has room, and is dropped without notice otherwise. The worker
  acknowledges a pong of the scheduler it is configured with and hands it on; a pong of any other peer has no effect and is not
  even acknowledged, so that its sender runs into a timeout. Acknowledgement and timeout alike leave the scheduler as it is.
\<close>

lemma pong_flow:
  "cl_inner (scheduler_client (scheduler_send_pong rr s wpeer pong)) = cl_inner (scheduler_client s) @
     (if fcard (fmdom (cl_original_requests (scheduler_client s))) < cl_max_buffered (scheduler_client s) then [RrSend wpeer pong] else [])"
  "\<exists>w'. worker_on_inner_event L rrp w (WiPong \<lparr>rq_peer_id = wb_scheduler_id w, rq_request = pong, rq_response_channel = ch\<rparr>) =
     Done (w', [GenerateEvent (WkPong pong)]) \<and> pong_acks w' = pong_acks w @ [(ch, 1)] \<and> worker_responses w' = worker_responses w"
  "p \<noteq> wb_scheduler_id w \<Longrightarrow>
     worker_on_inner_event L rrp w (WiPong \<lparr>rq_peer_id = p, rq_request = pong, rq_response_channel = ch\<rparr>) = Done (w, [])"
  "scheduler_on_inner_event L s (SiPong (Response wpeer i ack)) = (s, [])" "scheduler_on_inner_event L s (SiPong (Timeout wpeer i)) = (s, [])"
  by (simp_all add: scheduler_send_pong_def deref_mut_def client_sends_once worker_on_inner_event_def worker_on_pong_event_def
      scheduler_on_inner_event_def scheduler_on_pong_event_def)

section \<open>Logs of gateways\<close>

abbreviation gateway_log_client where
  "gateway_log_client g \<equiv> wrapper (gi_logs (gw_inner g))"

abbreviation log_acks where
  "log_acks c \<equiv> responses (wrapper (li_gateway_logs (lg_inner c)))"

fun log_client :: "gateway_log_kind \<Rightarrow> string" where
  "log_client (GL_QuerySubmitted m) = qs_client_id m"
| "log_client (GL_QueryFinished m) = qf_client_id m"

fun log_event :: "gateway_log_kind \<Rightarrow> logs_collector_event" where
  "log_event (GL_QuerySubmitted m) = LcQuerySubmitted m"
| "log_event (GL_QueryFinished m) = LcQueryFinished m"

text \<open>
  A log that the gateway's handle wraps into a message goes to the collector the gateway is configured with, once, if the client
  has room. The collector acknowledges it in any case, and hands it on unchanged exactly if it names the gateway it came from.
\<close>

lemma gateway_log_flow:
  "cl_inner (gateway_log_client (gateway_send_log_msg rr g (gateway_log_msg_from log))) = cl_inner (gateway_log_client g) @
     (if fcard (fmdom (cl_original_requests (gateway_log_client g))) < cl_max_buffered (gateway_log_client g)
      then [RrSend (gw_logs_collector_id g) (gateway_log_msg_from log)] else [])"
  "\<exists>c'. logs_collector_on_inner_event L rrl c (LiGatewayLogs \<lparr>rq_peer_id = p, rq_request = gateway_log_msg_from log, rq_response_channel = ch\<rparr>) =
     Done (c', if log_client log = peer_to_base58 (l_crypto L) p then [GenerateEvent (log_event log)] else []) \<and>
     log_acks c' = log_acks c @ [(ch, 1)]"
  by (cases log; simp add: gateway_send_log_msg_def deref_mut_def client_sends_once logs_collector_on_inner_event_def
      logs_collector_on_gateway_log_def gateway_log_msg_from_def Let_def)+

section \<open>No panics\<close>

text \<open>
  A peer ID is a multihash: at least its two header bytes. For the identifiers that are parsed this is \<open>peer_ids_wf\<close>; the events
  carry identifiers of peers that the swarm has authenticated.
\<close>

abbreviation peer_wf :: "peer_id \<Rightarrow> bool" where
  "peer_wf p \<equiv> 2 \<le> length (to_bytes p)"

fun base_input_wf :: "inner_event \<Rightarrow> bool" where
  "base_input_wf (PubsubEvent m) = peer_wf (pm_peer_id m)"
| "base_input_wf _ = True"

fun worker_input_wf :: "worker_inner_event \<Rightarrow> bool" where
  "worker_input_wf (WiQuery rq) = peer_wf (rq_peer_id rq)"
| "worker_input_wf _ = True"

fun collector_input_wf :: "logs_collector_inner_event \<Rightarrow> bool" where
  "collector_input_wf (LiBase (EvWorkerQueryLogs p logs)) = peer_wf p"
| "collector_input_wf _ = True"

text \<open>Signing with an Ed25519 key does not fail.\<close>

definition signing_total :: "crypto \<Rightarrow> bool" where
  "signing_total cr \<longleftrightarrow> (\<forall>kp b. keypair_sign cr kp b \<noteq> None)"

lemma sign_total:
  assumes "signing_total cr"
  obtains m' where "sign cr T kp m = Done m'"
proof -
  from assms obtain s where "keypair_sign cr kp (encode_to_vec T (snd (detach_signature T m))) = Some s"
    by (auto simp: signing_total_def)
  then show thesis by (intro that) (simp add: sign_def case_prod_beta Let_def)
qed

lemma sign_all_total:
  assumes "\<And>m. \<exists>m'. f m = Done m'"
  shows "\<exists>ms'. sign_all f ms = Done ms'"
proof (induction ms)
  case (Cons m ms)
  moreover from assms obtain m' where "f m = Done m'" by blast
  ultimately show ?case by (auto simp del: run_bind_eq_Done)
qed simp

lemma base_sign_total: "signing_total (l_crypto L) \<Longrightarrow> \<exists>m'. base_sign L b T m = Done m'"
  by (rule sign_total [of "l_crypto L" T "bb_keypair b" m]) (auto simp: base_sign_def)

lemma verify_total:
  assumes "peer_wf p"
  obtains ok m' where "verify_signature cr T p m = Done (ok, m')"
  using assms by (auto simp: verify_signature_def case_prod_beta Let_def)


lemma demo_signing_total: "signing_total (l_crypto demo_flow_libs)"
  by (simp add: signing_total_def demo_flow_libs_def demo_wf_crypto_def demo_crypto_def)


end
