(* ===== verification/Contract_Examples.thy ===== *)
theory Contract_Examples
  imports Contract_Client
begin

text \<open>
  The four command-line programs that query the contracts (contract-client/examples). Each starts
  the logger, connects, asks the client one question and prints the answer, one line for every
  element; the question mark operator ends \<open>main\<close> with the first error. Nothing is printed
  before the last call has returned, so a program is given by the result of \<open>main\<close> with the values
  it prints. The command line is the record that the derived parser fills; the logger's start
  and chrono's conversion of a time, which panics outside of its calendar, are parameters.
\<close>

section \<open>What the programs share\<close>

datatype main_error = LoggerFailed string | ClientFailed client_error

type_synonym 'a main_result = "(main_error + 'a) run"

definition main_try :: "'a client_result \<Rightarrow> ('a \<Rightarrow> 'b main_result) \<Rightarrow> 'b main_result" where
  "main_try m k = run_bind m (\<lambda>r. case r of Inl e \<Rightarrow> Done (Inl (ClientFailed e)) | Inr x \<Rightarrow> k x)"

definition main_logger :: "string + unit \<Rightarrow> 'b main_result \<Rightarrow> 'b main_result" where
  "main_logger logger k = (case logger of Inl e \<Rightarrow> Done (Inl (LoggerFailed e)) | Inr _ \<Rightarrow> k)"

section \<open>The programs\<close>

record active_workers_cli =
  aw_rpc :: rpc_args

definition get_active_workers_main ::
    "string + unit \<Rightarrow> ('http, 'ws) rpc_libs \<Rightarrow> (('http, 'ws) transport \<Rightarrow> chain) \<Rightarrow> crypto \<Rightarrow> active_workers_cli \<Rightarrow>
     Contract_Client.worker list main_result" where
  "get_active_workers_main logger R node cr cli =
     main_logger logger
       (main_try (get_client R node (aw_rpc cli)) (\<lambda>client.
        main_try (active_workers cr client) (\<lambda>workers. Done (Inr workers))))"

record allocations_cli =
  ac_rpc :: rpc_args
  ac_client_id :: peer_id

definition get_allocations_main ::
    "string + unit \<Rightarrow> ('http, 'ws) rpc_libs \<Rightarrow> (('http, 'ws) transport \<Rightarrow> chain) \<Rightarrow> crypto \<Rightarrow> allocations_cli \<Rightarrow>
     allocation list main_result" where
  "get_allocations_main logger R node cr cli =
     main_logger logger
       (main_try (get_client R node (ac_rpc cli)) (\<lambda>client.
        main_try (current_allocations cr client (ac_client_id cli) None) (\<lambda>allocations. Done (Inr allocations))))"

record gateways_cli =
  gw_rpc :: rpc_args
  gw_worker_id :: peer_id

definition get_gateways_main ::
    "string + unit \<Rightarrow> ('http, 'ws) rpc_libs \<Rightarrow> (('http, 'ws) transport \<Rightarrow> chain) \<Rightarrow> bool \<Rightarrow> crypto \<Rightarrow>
     ((address, gateway_cluster) fmap \<Rightarrow> gateway_cluster list) \<Rightarrow> gateways_cli \<Rightarrow> gateway_cluster list main_result" where
  "get_gateways_main logger R node chk cr values cli =
     main_logger logger
       (main_try (get_client R node (gw_rpc cli)) (\<lambda>client.
        main_try (client_worker_id client (gw_worker_id cli)) (\<lambda>on_chain_id.
        main_try (gateway_clusters chk cr values client on_chain_id) (\<lambda>clusters. Done (Inr clusters)))))"

record registration_cli =
  rt_rpc :: rpc_args
  rt_peer_id :: peer_id

datatype 'd registration_line = RegisteredAt peer_id 'd | NotRegistered peer_id

definition worker_registration_time_main ::
    "string + unit \<Rightarrow> ('http, 'ws) rpc_libs \<Rightarrow> (('http, 'ws) transport \<Rightarrow> chain) \<Rightarrow> (nat \<Rightarrow> 'd run) \<Rightarrow> registration_cli \<Rightarrow>
     'd registration_line main_result" where
  "worker_registration_time_main logger R node utc cli =
     main_logger logger
       (main_try (get_client R node (rt_rpc cli)) (\<lambda>client.
        main_try (worker_registration_time client (rt_peer_id cli)) (\<lambda>time.
          case time of
            Some sys_time \<Rightarrow> run_bind (utc sys_time) (\<lambda>datetime. Done (Inr (RegisteredAt (rt_peer_id cli) datetime)))
          | None \<Rightarrow> Done (Inr (NotRegistered (rt_peer_id cli))))))"

section \<open>What they print\<close>

lemma main_logger_eq_Done [simp]:
  "main_logger logger k = Done (Inr x) \<longleftrightarrow> logger = Inr () \<and> k = Done (Inr x)"
  by (auto simp: main_logger_def split: sum.splits)

lemma main_try_eq_Done [simp]:
  "main_try m k = Done (Inr x) \<longleftrightarrow> (\<exists>y. m = Done (Inr y) \<and> k y = Done (Inr x))"
  by (cases m) (auto simp: main_try_def split: sum.splits)

text \<open>A program prints an answer exactly when the client has given it: never a partial one, and never after an error.\<close>

lemma get_active_workers_main_prints:
  "get_active_workers_main logger R node cr cli = Done (Inr ws) \<longleftrightarrow>
     logger = Inr () \<and> (\<exists>client. get_client R node (aw_rpc cli) = Done (Inr client) \<and> active_workers cr client = Done (Inr ws))"
  by (simp add: get_active_workers_main_def)

lemma get_allocations_main_prints:
  "get_allocations_main logger R node cr cli = Done (Inr as) \<longleftrightarrow>
     logger = Inr () \<and> (\<exists>client. get_client R node (ac_rpc cli) = Done (Inr client) \<and>
       current_allocations cr client (ac_client_id cli) None = Done (Inr as))"
  by (simp add: get_allocations_main_def)

lemma get_gateways_main_prints:
  "get_gateways_main logger R node chk cr values cli = Done (Inr cs) \<longleftrightarrow>
     logger = Inr () \<and> (\<exists>client i. get_client R node (gw_rpc cli) = Done (Inr client) \<and>
       client_worker_id client (gw_worker_id cli) = Done (Inr i) \<and> gateway_clusters chk cr values client i = Done (Inr cs))"
  by (auto simp: get_gateways_main_def)

text \<open>
  A worker is reported as not registered if the registry has no number for it, and also while the
  block of its registration is not known to the node.
\<close>

lemma worker_registration_time_None:
  "worker_registration_time client p = Done (Inr None) \<longleftrightarrow>
     (\<exists>i. worker_ids (ec_l2_client client) (ec_worker_registration client) (to_bytes p) = Inr i \<and>
       (i \<noteq> 0 \<longrightarrow> (\<exists>w. get_worker (ec_l2_client client) (ec_worker_registration client) i = Inr w \<and>
          unat (cw_registered_at w) < 2 ^ 64 \<and> get_block (ec_l1_client client) (ucast (cw_registered_at w)) = Inr None)))"
  by (auto simp: worker_registration_time_def Let_def try_call_def split: sum.splits option.splits)

lemma worker_registration_time_main_not_registered:
  "worker_registration_time_main logger R node utc cli = Done (Inr (NotRegistered p)) \<longleftrightarrow>
     logger = Inr () \<and> p = rt_peer_id cli \<and>
     (\<exists>client. get_client R node (rt_rpc cli) = Done (Inr client) \<and> worker_registration_time client p = Done (Inr None))"
  by (auto simp: worker_registration_time_main_def split: option.splits)

end
