(* ===== verification/Unit_Tests.thy ===== *)
theory Unit_Tests
  imports Base Task_Manager
begin

text \<open>
  The unit tests of the repository, on the model: what each test asserts of the code holds of the
  definitions that stand for it (the test modules of messages/src/range.rs, transport/src/util.rs,
  transport/src/behaviour/base.rs and transport/src/util/task_manager.rs). The lemmas are named after the tests.
\<close>

section \<open>Ranges\<close>

lemmas range_set_eval = range_set_from_def range_set_extend_def range_set_empty_def less_eq_range_def range_new_def add_chk_def upt_rec Let_def
lemmas range_search_eval = range_set_has_def find_containing_range_def containing_range_def binary_search_by_def binary_search_loop.simps point_cmp_def

lemma range_set_always_sorted_and_separated:
  "range_set_from chk [Range 10 20, Range 21 30, Range 35 40, Range 5 10] = Done \<lparr>ranges = [Range 5 30, Range 35 40]\<rparr>"
  by (simp add: range_set_eval del: run_bind_eq_Done)

definition test_ranges :: range_set where
  "test_ranges = \<lparr>ranges = [Range 0 10, Range 20 30, Range 40 50]\<rparr>"

lemma test_ranges_from: "range_set_from chk [Range 0 10, Range 20 30, Range 40 50] = Done test_ranges"
  by (simp add: range_set_eval test_ranges_def del: run_bind_eq_Done)

lemma range_set_has_test:
  "list_all (range_set_has test_ranges) [0, 5, 10, 21, 40, 41, 50]" "\<not> list_ex (range_set_has test_ranges) [11, 19, 35]"
  by (simp_all add: range_search_eval test_ranges_def)

lemma range_set_find_containing_range:
  "map (find_containing_range test_ranges) [0, 5, 30, 41, 15] =
     [Some (Range 0 10), Some (Range 0 10), Some (Range 20 30), Some (Range 40 50), None]"
  by (simp add: range_search_eval test_ranges_def)

section \<open>Addresses\<close>

text \<open>An address from its four bytes.\<close>

definition test_ip4 :: "nat \<Rightarrow> nat \<Rightarrow> nat \<Rightarrow> nat \<Rightarrow> multiaddr" where
  "test_ip4 a b c d = [Ip4 (of_nat (((a * 256 + b) * 256 + c) * 256 + d)), OtherProtocol ''tcp'']"

lemma test_addr_is_reachable:
  "\<not> list_ex (addr_is_reachable (\<lambda>_. None))
     [test_ip4 127 0 0 1, test_ip4 169 254 0 1, test_ip4 192 168 0 1, test_ip4 10 0 0 1, test_ip4 172 16 0 1, [Ip6 1, OtherProtocol ''tcp'']]"
  "\<not> list_ex (addr_is_reachable [''PRIVATE_NETWORK'' \<mapsto> ''1''])
     [test_ip4 127 0 0 1, test_ip4 169 254 0 1, [Ip6 1, OtherProtocol ''tcp'']]"
  "list_all (addr_is_reachable [''PRIVATE_NETWORK'' \<mapsto> ''1'']) [test_ip4 192 168 0 1, test_ip4 10 0 0 1, test_ip4 172 16 0 1]"
  by (simp_all add: test_ip4_def addr_is_reachable_ranges)

section \<open>Bundles\<close>

text \<open>Messages are byte strings here, and their encoded length is the length.\<close>

lemma test_bundle_messages:
  "map length (bundle_messages length [replicate 40 x, replicate 40 x, replicate 200 x, replicate 90 x] 100) = [2, 1]"
  by (simp add: bundle_messages_def bundles.simps Let_def)

section \<open>Task manager\<close>

lemma test_current_thread: "task_manager_default (Some CurrentThread) = Panic"
  by (simp add: task_manager_default_def task_manager_new_def)

text \<open>
  Two tasks that stop 0 and 1000 ms after they are cancelled, under a shutdown timeout of 20 ms: when the manager is
  dropped, the first is joined, the second is not waited for, and the drop takes 20 ms.
\<close>

lemma test_multi_threaded:
  "run_bind (task_manager_new (Some MultiThread) 20) (\<lambda>tm. run_bind (task_manager_spawn tm 0) (\<lambda>tm.
     run_bind (task_manager_spawn tm 1000) (task_manager_drop (Some MultiThread) (\<lambda>delay. Some (delay, False))))) =
   Done ([Joined, Elapsed], 20)"
  by (simp add: task_manager_new_def task_manager_spawn_def task_manager_drop_def task_manager_await_stop_def
      task_manager_cancel_def join_timeout_def Let_def del: run_bind_eq_Done)

text \<open>
  A periodic task that cancels its own token in the second call, and returns before the third tick is due, is not called
  a third time: the loop stops.
\<close>

lemma periodic_cancelled_before:
  assumes "periodic t0 iv c0 calls now c" and "c0 = None" and "c = Some t"
  shows "t \<le> now"
  using assms
proof (induction arbitrary: t)
  case (run calls now c tick now' c')
  from run.hyps(2) have "now \<le> tick" by (simp add: next_tick_def)
  with run show ?case by (cases c) fastforce+
qed simp

lemma test_periodic:
  assumes "periodic t0 iv None [first, second] now (Some t)" and "now < t0 + 3 * iv"
  shows "\<not> tick_allowed (Some t) now (next_tick t0 iv [first, second] now) \<and> periodic_stops t0 iv [first, second] now (Some t)"
  using assms(2) periodic_cancelled_before [OF assms(1) refl refl]
  by (simp add: tick_allowed_def periodic_stops_def next_tick_def)

end
