(* ===== verification/Spec2Isabelle.thy ===== *)
theory Spec2Isabelle
  imports Codec Bootnode Flows Contract_Examples Unit_Tests
begin

text \<open>
  Verification of the Subsquid network layer: the messages the nodes of the network exchange (messages/),
  the client that reads the contracts on chain (contract-client/), and the peer-to-peer transport with its
  actors (transport/).

  \<^bold>\<open>The program.\<close> Workers execute queries for gateways and report on themselves: they
  publish signed pings and the logs of the queries they executed. Gateways send queries to workers and logs
  to the logs collector; the scheduler answers pings with pongs and probes whether workers can be reached;
  the logs collector receives the logs and publishes up to where it has collected them; an observer listens
  to all of it; boot nodes let nodes find each other. Which nodes take part is recorded in contracts on
  chain.

  Every actor is a libp2p behaviour that wraps the base behaviour and its request-response protocols, run by
  a transport task that owns the swarm; the application talks to the task through queues, by a handle.

  \<^bold>\<open>Theories, in the order in which they build on each other.\<close>

  \<^item> Prelude: integers, panics as values (\<open>run\<close>), overflow under both build profiles.
    External: the interfaces of the libraries (keys and peer IDs, multiaddresses, protobuf, gossipsub,
    request-response, timers, containers) as parameter records, with what the code relies on as predicates
    (\<open>..._laws\<close>).
  \<^item> Ranges (messages/src/range.rs), Data_Chunk (data_chunk.rs), Messages (proto/messages.proto,
    lib.rs), Signatures (signatures.rs): the message library. Range sets are canonical, closed under
    \<open>extend\<close>, and searched correctly; names of chunks round-trip and order chunks; the locale
    \<open>signed_message\<close> gives signing and verification for the three signed messages.
  \<^item> Codec (transport/src/codec.rs), Wrapped (behaviour/wrapped.rs): reading and writing of requests;
    the event queue and the polling loop of every behaviour, which loses and reorders nothing and, under
    progress, terminates.
  \<^item> Pubsub (behaviour/pubsub.rs): subscriptions, and the verdict on every message with its replay
    window.
  \<^item> Metrics (metrics.rs), Queue (util/queue.rs), Task_Manager (util/task_manager.rs): gauges; bounded
    queues under every interleaving of senders and receiver; cancellation and shutdown within the timeout.
  \<^item> Request_Client (behaviour/request_client.rs, request_server.rs): every request is answered once,
    by a response or a timeout, also when it is sent again after a dial; buffers stay bounded.
  \<^item> Transport_Util (protocol.rs, util.rs, cli.rs, the configuration of lib.rs,
    behaviour/addr_cache.rs): constants, the key file, the address filter, boot nodes.
  \<^item> Allow_List: the peers a node accepts, and the locale \<open>node_list\<close> for programs that
    follow the registered nodes.
  \<^item> Base (behaviour/base.rs): connections, probes, lookups, the allow list, topics, bundles of logs;
    its polling loop returns.
  \<^item> Contract_Client (contract-client/src): every query of the client, over a chain that is a
    parameter; the locale \<open>paging_loop\<close> covers its two paged lists.
    Contract_Examples (contract-client/examples): the four command-line programs, which print an answer
    only if the client has given it.
  \<^item> Actor: what the transports share. Transport_Loop: histories of a transport, in which the calls of
    the handle, the passes of the loop and the application that takes events interleave in any order, and the
    locale \<open>transport_loop\<close>: per queue, messages are served once and in order, events reach the
    application in order or are counted as dropped, queues keep their sizes, and the behaviour is given what
    was served. All five actors interpret it. It also says what a swarm may do: it polls the behaviour and
    hands over its events (\<open>swarm_drives\<close>).
  \<^item> Gateway, Worker, Scheduler, Observer, Logs_Collector (transport/src/actors): behaviour, transport
    loop and handle of each actor. For the behaviours: a gateway reports one result per query, from the worker
    asked, and at rest it has forgotten none; a worker answers on the channel of the query; the collector hands on authentic logs only. For the
    applications, over all histories of the transports: the results a gateway's application receives match
    queries it has submitted, one to one; a worker's receives signed queries only, and its results answer
    them; probe results match probes; what the collector's receives is vouched for.
  \<^item> Flows: exchanges between two actors. A query travels from gateway to worker and its result back,
    through both codecs; acknowledgements of logs reach workers and observers once; pongs reach workers, and
    logs of gateways the collector. Nothing that arrives from the network makes an actor panic.
  \<^item> Builder (builder.rs, the errors of lib.rs, the arguments of cli.rs): from arguments to running
    actors, and the wait of a worker for its registration. Bootnode (bin/bootnode.rs, bin/keygen.rs): the
    boot node and the key generator.
  \<^item> Unit_Tests: the unit tests of the repository hold of the definitions.
  \<^item> This theory: properties that span components. Logs travel from a worker to the collector, pings
    from a worker to gateways and scheduler, and the allow lists of all nodes refine one abstract list that
    follows the chain.

  \<^bold>\<open>How code becomes definitions.\<close> A struct is a record, an enum a datatype, a method a
  definition on the state that returns the new state; a Rust panic is \<open>Panic\<close>, an error a left
  summand. Library objects are represented by the calls made on them, or are given as parameters; what a
  call returns is a parameter that may depend on all calls before. Traits are records of methods
  (\<open>wrapper\<close>, \<open>signed\<close>). The hash maps are finite maps; their iteration order,
  where it matters, is a parameter with a law. \<open>select!\<close> is an inductive relation with one rule
  for each branch (\<open>gateway_pass\<close> and its like), so that every scheduling is covered; runs are
  reachability relations (\<open>client_run\<close>, \<open>base_run\<close>, \<open>gateway_run\<close>,
  \<open>worker_run\<close>, \<open>periodic\<close>), and histories of a transport are sequences of labelled
  steps (\<open>trace\<close> over \<open>gateway_step\<close> and its like, with labels \<open>act\<close>).

  \<^bold>\<open>Loops, fuel and bounds.\<close> No definition uses fuel. Loops that end are functions with
  a termination proof: paging ends because the 32-bit page number overflows. The polling loops and the wait
  of a worker may run forever and are partial functions into \<open>option\<close>; that they return is
  proved, under the progress they need (in Wrapped, Base and Builder). Integers keep their width where
  the code can overflow: block numbers, gauges, counters of connections, sequence numbers, on-chain numbers.

  \<^bold>\<open>Assumptions.\<close> They are hypotheses of the theorems that need them, and each of these
  theorems is applied to a concrete instance (\<open>..._witness\<close>) that satisfies them: a signature
  made with a peer's key verifies for the peer; decoding inverts encoding for the messages at hand; a
  bounded channel is a queue; a map of futures holds at most its capacity; the contracts page their lists; a
  swarm changes its behaviour only by polling it and by the events it reports to it.

  \<^bold>\<open>Not modelled.\<close> Logging and libp2p's own metrics; what the macros generate
  (command-line parsers, serde, the composition of behaviours by \<open>NetworkBehaviour\<close>, error
  texts); the protobuf encoding and the contract bindings, which are generated; the insides of libp2p, tokio
  and ethers, SimpleLogger and chrono; the build script, which runs the protobuf compiler; accessors of single
  fields and clones, which are the fields and values themselves. The interval stream of node lists is
  represented by its items (\<open>network_nodes\<close>).
\<close>

section \<open>Query logs, from a worker to the logs collector\<close>

abbreviation worker_base :: "('lru, 'fm, 'bm, 'ns, 'cmd) worker_behaviour \<Rightarrow> ('lru, 'fm, 'bm, 'ns) base" where
  "worker_base w \<equiv> wrapper (wi_base (wb_inner w))"

abbreviation collector_handler where
  "collector_handler L rr \<equiv> \<lambda>c e. logs_collector_on_inner_event L rr c (LiBase e)"

lemma authentic_signed:
  assumes "m\<lparr>qe_signature := []\<rparr> = l\<lparr>qe_signature := []\<rparr>" and "verify_signature cr (query_executed_signed pb) peer m = Done (True, m)"
    and "qe_worker_id l = peer_to_base58 cr peer" and "client_signed cr pb l"
  shows "authentic_log cr pb peer m"
proof -
  from assms(1) have "qe_worker_id m = qe_worker_id l" "qe_client_id m = qe_client_id l" "qe_query m = qe_query l"
    by (cases m; cases l; simp)+
  with assms(2-) show ?thesis by (simp add: authentic_log_def client_signed_def)
qed


text \<open>For the witnesses: a worker with the peer ID \<open>[0, 1]\<close>.\<close>

definition demo_flow_worker ::
    "(peer_id \<Rightarrow> multiaddr set option, nat \<times> peer_id list, (query_id, peer_id) fmap, (unit + peer_id fset) list, unit) worker_behaviour" where
  "demo_flow_worker = wrapper (worker_behaviour_new demo_flow_libs 0 demo_base (PeerId [0, 1]) (worker_config_new (PeerId [8]) (PeerId [9])))"

lemma demo_flow_key: "key_of_peer (l_crypto demo_flow_libs) (bb_keypair (worker_base demo_flow_worker)) (PeerId [0, 1])"
  by (simp add: key_of_peer_def demo_flow_libs_def demo_wf_crypto_def demo_crypto_def demo_flow_worker_def worker_behaviour_new_def
      wrapped_from_def Let_def base_allow_peer_def base_subscribe_pings_def base_subscribe_worker_logs_def base_subscribe_logs_collected_def
      on_pubsub_frame demo_base_def base_new_def)

lemma demo_flow_subscribed:
  "subscribed demo_flow_libs (worker_base demo_flow_worker) worker_logs_topic"
  "subscribed demo_flow_libs (worker_base demo_flow_worker) ping_topic"
  by (simp_all add: subscribed_def demo_flow_worker_def worker_behaviour_new_def wrapped_from_def Let_def base_allow_peer_def allow_peer_call_def
      base_subscribe_pings_def base_subscribe_worker_logs_def base_subscribe_logs_collected_def on_pubsub_frame pubsub_subscribe_def
      demo_flow_libs_def demo_libs_def demo_gossip_def topic_state_new_def demo_base_topics)

lemma demo_flow_sign:
  "base_sign demo_flow_libs (worker_base demo_flow_worker) (query_executed_signed (l_protobuf demo_flow_libs)) demo_worker_log = Done demo_signed_log"
  by (simp add: base_sign_def sign_def signed_defs demo_flow_libs_def demo_wf_crypto_def demo_crypto_def demo_protobuf_def demo_flow_worker_def
      worker_behaviour_new_def wrapped_from_def Let_def base_allow_peer_def base_subscribe_pings_def base_subscribe_worker_logs_def
      base_subscribe_logs_collected_def on_pubsub_frame demo_base_def base_new_def)

lemma demo_flow_codec:
  "logs_codec (l_protobuf demo_flow_libs) {m. \<exists>l\<in>set [demo_worker_log].
     base_sign demo_flow_libs (worker_base demo_flow_worker) (query_executed_signed (l_protobuf demo_flow_libs)) l = Done m}"
proof -
  have "qs = replicate (length qs) x" if "set qs \<subseteq> {x}" for qs and x :: query_executed
    using that by (metis replicate_eqI singletonD subsetD)
  then show ?thesis
    by (simp add: logs_codec_def demo_flow_sign)
       (simp add: demo_flow_libs_def worker_logs_msg_from_queries_def worker_logs_msg_from_msg_def query_logs_from_def)
qed


section \<open>Pings, from a worker to gateways and scheduler\<close>

abbreviation gateway_handler where
  "gateway_handler L \<equiv> \<lambda>g e. Done (gateway_on_inner_event L g (GiBase e))"

abbreviation scheduler_handler where
  "scheduler_handler L \<equiv> \<lambda>s e. Done (scheduler_on_inner_event L s (SiBase e))"

text \<open>The ping in a message that is signed by the sender and names it as the worker.\<close>

definition authentic_ping :: "crypto \<Rightarrow> protobuf \<Rightarrow> pubsub_msg \<Rightarrow> ping option" where
  "authentic_ping cr pb msg =
     (case dec_ping pb (pm_data msg) of
        Some p \<Rightarrow> if verify_signature cr (ping_signed pb) (pm_peer_id msg) p = Done (True, p) \<and>
                     Option.bind (ping_worker_id p) (peer_from_str cr) = Some (pm_peer_id msg) then Some p else None
      | None \<Rightarrow> None)"

lemma receive_ping_actors:
  assumes "pm_topic msg = ping_topic" and "2 \<le> length (to_bytes (pm_peer_id msg))"
  shows "receive L (gateway_handler L) g msg = Done (g, case authentic_ping (l_crypto L) (l_protobuf L) msg of
      Some p \<Rightarrow> [GenerateEvent (GwPing (pm_peer_id msg) p)] | None \<Rightarrow> [])"
    and "receive L (scheduler_handler L) s msg = Done (s, case authentic_ping (l_crypto L) (l_protobuf L) msg of
      Some p \<Rightarrow> [GenerateEvent (ScPing (pm_peer_id msg) p)] | None \<Rightarrow> [])"
  by (auto simp: receive_ping [OF assms] authentic_ping_def gateway_on_inner_event_def gateway_on_base_event_def gateway_on_ping_def
      scheduler_on_inner_event_def scheduler_on_base_event_def scheduler_on_ping_def split: option.split)

text \<open>
  C14. Pings are authentic and arrive. A message on the ping topic makes a gateway and the scheduler
  emit a \<open>Ping\<close> event exactly if it decodes to a ping that its sender signed and that names the
  sender as the worker; the event then carries the sender and this ping. And the ping that a worker
  sends about itself is such a message: both emit exactly one event, with the ping of the
  worker and its signature.
\<close>

theorem ping_flow:
  assumes "key_of_peer (l_crypto L) (bb_keypair (worker_base w)) peer" and "subscribed L (worker_base w) ping_topic"
    and "\<forall>s. dec_ping (l_protobuf L) (enc_ping (l_protobuf L) (p\<lparr>ping_signature := s\<rparr>)) = Some (p\<lparr>ping_signature := s\<rparr>)"
    and "Option.bind (ping_worker_id p) (peer_from_str (l_crypto L)) = Some peer"
    and "l_crypto L' = l_crypto L" and "l_protobuf L' = l_protobuf L"
  shows "(\<exists>w' calls p'. worker_send_ping L now w p = Done w' \<and>
      ps_inner (base_gossip (worker_base w')) = ps_inner (base_gossip (worker_base w)) @ calls \<and>
      p'\<lparr>ping_signature := []\<rparr> = p\<lparr>ping_signature := []\<rparr> \<and>
      receive_all L' (gateway_handler L') g (published (l_gossip L) peer ping_topic calls) = Done (g, [GenerateEvent (GwPing peer p')]) \<and>
      receive_all L' (scheduler_handler L') s (published (l_gossip L) peer ping_topic calls) = Done (s, [GenerateEvent (ScPing peer p')])) \<and>
    (\<forall>msg. pm_topic msg = ping_topic \<longrightarrow> 2 \<le> length (to_bytes (pm_peer_id msg)) \<longrightarrow>
      receive L' (gateway_handler L') g msg = Done (g, case authentic_ping (l_crypto L) (l_protobuf L) msg of
        Some p \<Rightarrow> [GenerateEvent (GwPing (pm_peer_id msg) p)] | None \<Rightarrow> []) \<and>
      receive L' (scheduler_handler L') s msg = Done (s, case authentic_ping (l_crypto L) (l_protobuf L) msg of
        Some p \<Rightarrow> [GenerateEvent (ScPing (pm_peer_id msg) p)] | None \<Rightarrow> []))"
proof
  let ?pb = "l_protobuf L" and ?cr = "l_crypto L"
  from ping_sig.verify_sign [OF assms(1), of ?pb p] obtain p' where
    p': "sign ?cr (ping_signed ?pb) (bb_keypair (worker_base w)) p = Done p'" "verify_signature ?cr (ping_signed ?pb) peer p' = Done (True, p')"
    by blast
  then obtain sg where sg: "p' = p\<lparr>ping_signature := sg\<rparr>" by (auto simp: sign_def signed_defs)
  let ?msg = "\<lparr>pm_peer_id = peer, pm_topic = ping_topic, pm_data = enc_ping ?pb p'\<rparr>"
  let ?b = "base_publish L now (worker_base w) ping_topic (enc_ping ?pb p')"
  let ?calls = "[GsPublish (sha256_topic (l_gossip L) ping_topic) (enc_ping ?pb p')]"
  have "worker_send_ping L now w p = Done (w\<lparr>wb_inner := (wb_inner w)\<lparr>wi_base := (wi_base (wb_inner w))\<lparr>wrapper := ?b\<rparr>\<rparr>\<rparr>)" (is "_ = Done ?w'")
    using p'(1) by (simp add: worker_send_ping_def base_publish_ping_def base_sign_def del: run_bind_eq_Done)
  moreover have "ps_inner (base_gossip (worker_base ?w')) = ps_inner (base_gossip (worker_base w)) @ ?calls"
    using publish_subscribed(1) [OF assms(2)] by simp
  moreover have "authentic_ping ?cr ?pb ?msg = Some p'"
    using p'(2) assms(3,4) by (simp add: authentic_ping_def sg)
  moreover have "published (l_gossip L) peer ping_topic ?calls = [?msg]" by (simp add: published_def List.map_filter_simps)
  moreover have "2 \<le> length (to_bytes peer)" using assms(1) by (simp add: key_of_peer_def)
  moreover have "p'\<lparr>ping_signature := []\<rparr> = p\<lparr>ping_signature := []\<rparr>" by (simp add: sg)
  ultimately show "\<exists>w' calls p'. worker_send_ping L now w p = Done w' \<and>
      ps_inner (base_gossip (worker_base w')) = ps_inner (base_gossip (worker_base w)) @ calls \<and>
      p'\<lparr>ping_signature := []\<rparr> = p\<lparr>ping_signature := []\<rparr> \<and>
      receive_all L' (gateway_handler L') g (published (l_gossip L) peer ping_topic calls) = Done (g, [GenerateEvent (GwPing peer p')]) \<and>
      receive_all L' (scheduler_handler L') s (published (l_gossip L) peer ping_topic calls) = Done (s, [GenerateEvent (ScPing peer p')])"
    using receive_ping_actors [of ?msg L'] assms(5,6) by (intro exI conjI) (assumption | simp)+
qed (simp add: receive_ping_actors assms(5,6))

text \<open>For the witness: pings that are encoded by their signature.\<close>

abbreviation demo_worker_ping :: ping where
  "demo_worker_ping \<equiv> \<lparr>ping_worker_id = Some [CHR 0x00, CHR 0x01], ping_version = None, ping_stored_bytes = None,
     ping_stored_ranges = [], ping_signature = []\<rparr>"

definition demo_ping_libs ::
    "(peer_id \<Rightarrow> multiaddr set option, nat \<times> peer_id list, (query_id, peer_id) fmap, (unit + peer_id fset) list, unit) libs" where
  "demo_ping_libs = demo_flow_libs\<lparr>l_protobuf := demo_protobuf\<lparr>enc_ping := ping_signature,
     dec_ping := \<lambda>b. Some (demo_worker_ping\<lparr>ping_signature := b\<rparr>)\<rparr>\<rparr>"

definition demo_scheduler ::
    "(peer_id \<Rightarrow> multiaddr set option, nat \<times> peer_id list, (query_id, peer_id) fmap, (unit + peer_id fset) list, unit) scheduler" where
  "demo_scheduler = wrapper (scheduler_new demo_libs 0 demo_base scheduler_config_default)"

theorem ping_flow_witness:
  "\<exists>w' calls p'. worker_send_ping demo_ping_libs 0 demo_flow_worker demo_worker_ping = Done w' \<and>
     receive_all demo_ping_libs (gateway_handler demo_ping_libs) demo_gateway (published (l_gossip demo_ping_libs) (PeerId [0, 1]) ping_topic calls) =
       Done (demo_gateway, [GenerateEvent (GwPing (PeerId [0, 1]) p')]) \<and>
     receive_all demo_ping_libs (scheduler_handler demo_ping_libs) demo_scheduler (published (l_gossip demo_ping_libs) (PeerId [0, 1]) ping_topic calls) =
       Done (demo_scheduler, [GenerateEvent (ScPing (PeerId [0, 1]) p')])"
proof -
  have 1: "key_of_peer (l_crypto demo_ping_libs) (bb_keypair (worker_base demo_flow_worker)) (PeerId [0, 1])"
    using demo_flow_key by (simp add: demo_ping_libs_def)
  have 2: "subscribed demo_ping_libs (worker_base demo_flow_worker) ping_topic"
    using demo_flow_subscribed(2) by (simp add: demo_ping_libs_def subscribed_def)
  have 3: "\<forall>s. dec_ping (l_protobuf demo_ping_libs) (enc_ping (l_protobuf demo_ping_libs) (demo_worker_ping\<lparr>ping_signature := s\<rparr>)) =
      Some (demo_worker_ping\<lparr>ping_signature := s\<rparr>)" by (simp add: demo_ping_libs_def)
  have 4: "Option.bind (ping_worker_id demo_worker_ping) (peer_from_str (l_crypto demo_ping_libs)) = Some (PeerId [0, 1])"
    by (simp add: demo_ping_libs_def demo_flow_libs_def demo_wf_crypto_def)
  from ping_flow [OF 1 2 3 4 refl refl, of 0 demo_gateway demo_scheduler] show ?thesis by blast
qed

section \<open>The allow list, from the chain to the nodes\<close>

text \<open>
  The abstract list driven by what the contract client reads: the active gateways and workers. If one
  of the two cannot be read, nothing changes.
\<close>

definition chain_spec :: "bool \<Rightarrow> crypto \<Rightarrow> ethers_client \<Rightarrow> peer_id set \<times> peer_id set \<Rightarrow> peer_id set \<times> peer_id set" where
  "chain_spec chk cr view st =
     (case (active_gateways chk cr view, active_workers cr view) of
        (Done (Inr gateways), Done (Inr workers)) \<Rightarrow>
          let nodes = set gateways \<union> wk_peer_id ` set workers in (nodes, snd st - nodes)
      | _ \<Rightarrow> st)"

lemma network_nodes_spec: "network_nodes chk cr view = Done res \<Longrightarrow> node_spec res st = chain_spec chk cr view st"
  by (cases "active_gateways chk cr view"; cases "active_workers cr view")
     (auto simp: network_nodes_def chain_spec_def try_run_def fset_of_list.rep_eq split: sum.splits)

lemma node_spec_chain:
  "list_all2 (\<lambda>view res. network_nodes chk cr view = Done res) views rs \<Longrightarrow>
     fold node_spec rs st = fold (chain_spec chk cr) views st"
  by (induction views rs arbitrary: st rule: list_all2_induct) (simp_all add: network_nodes_spec)

text \<open>
  C5. Every node follows the chain. Let \<open>views\<close> be the states of the chain that the stream of node lists reads. Then
  an actor's base behaviour and the boot node, however its loop interleaves the lists with
  other events, both implement the abstract list over these states: a peer is allowed exactly if it is an active gateway or
  worker in the latest state that could be read, or was allowed at the start and has not been registered in any of them.
\<close>

theorem allow_list_follows_chain:
  fixes L :: "('lru, 'fm, 'bm, 'ns, client_error) libs"
  assumes "list_all2 (\<lambda>view res. network_nodes chk cr view = Done res) views rs"
    and "peer_order_laws (l_order L)" and "bb_registered_nodes s0 = {||}"
    and "peer_order_laws order" and "bo_registered_nodes b0 = {||}" and "nodes_handled inputs = rs"
  shows "allowed (ib_allow (bb_inner (fold (\<lambda>res s. base_on_nodes_update L s res) rs s0))) =
      node_view (fold (chain_spec chk cr) views ({}, allowed (ib_allow (bb_inner s0)))) \<and>
    allowed (bh_allow (sm_behaviour (bo_swarm (bootnode_loop order env b0 inputs)))) =
      node_view (fold (chain_spec chk cr) views ({}, allowed (bh_allow (sm_behaviour (bo_swarm b0)))))"
proof
  show "allowed (ib_allow (bb_inner (fold (\<lambda>res s. base_on_nodes_update L s res) rs s0))) =
      node_view (fold (chain_spec chk cr) views ({}, allowed (ib_allow (bb_inner s0))))"
    using base_nodes.updates_from_start(2) [OF assms(2,3)] by (simp add: node_spec_chain [OF assms(1)])
  have "boot_nodes.implements b0 ({}, allowed (bh_allow (sm_behaviour (bo_swarm b0))))"
    using assms(5) by (simp add: boot_nodes.implements_def node_view_def)
  from bootnode_loop_implements [OF assms(4) this, of env inputs]
  show "allowed (bh_allow (sm_behaviour (bo_swarm (bootnode_loop order env b0 inputs)))) =
      node_view (fold (chain_spec chk cr) views ({}, allowed (bh_allow (sm_behaviour (bo_swarm b0)))))"
    by (simp add: boot_nodes.implements_def assms(6) node_spec_chain [OF assms(1)])
qed

text \<open>In particular, a peer allowed at the start is revoked when it leaves the list of registered nodes.\<close>

lemma registered_peer_revoked:
  assumes "p \<in> fset n1" and "p \<notin> fset n2"
  shows "p \<notin> node_view (fold node_spec [Inr n1, Inr n2] (R, S))"
  using assms by (simp add: node_view_def)

text \<open>For the witness: a chain with one worker and no gateway, and one that cannot be read.\<close>

definition demo_view :: ethers_client where
  "demo_view = demo_ethers\<lparr>ec_l2_client := demo_chain\<lparr>get_active_gateways := \<lambda>_ _ _ _. Inr []\<rparr>\<rparr>"

definition demo_unreadable :: ethers_client where
  "demo_unreadable = demo_ethers\<lparr>ec_l2_client := demo_chain\<lparr>get_block_number := Inl ''timeout''\<rparr>\<rparr>"

definition demo_chain_libs ::
    "(peer_id \<Rightarrow> multiaddr set option, nat \<times> peer_id list, (query_id, peer_id) fmap, unit, client_error) libs" where
  "demo_chain_libs = \<lparr>l_kad_id = l_kad_id demo_libs, l_lru = l_lru demo_libs, l_timers = l_timers demo_libs, l_bimap = l_bimap demo_libs,
     l_stream_poll = \<lambda>_. ((), Pending), l_gossip = l_gossip demo_libs, l_crypto = l_crypto demo_libs, l_protobuf = l_protobuf demo_libs,
     l_order = l_order demo_libs, l_env = l_env demo_libs, l_chk = l_chk demo_libs\<rparr>"

definition demo_chain_base where
  "demo_chain_base = base_new demo_chain_libs (Keypair []) (\<lambda>_. ()) base_config_default [\<lparr>bn_peer_id = PeerId [1], bn_address = []\<rparr>] (dht_protocol Tethys) metrics_init"

definition demo_bootnode :: bootnode where
  "demo_bootnode = \<lparr>bo_swarm = boot_allow (PeerId [0, 2]) \<lparr>sm_behaviour =
     \<lparr>bh_settings = bootnode_settings_new demo_crypto (Keypair []) Tethys, bh_kademlia = [], bh_allow = []\<rparr>,
     sm_quic = \<lparr>qs_mtu_upper_bound = 0, qs_keep_alive_interval = 0, qs_max_idle_timeout = 0\<rparr>, sm_calls = []\<rparr>, bo_registered_nodes = {||}\<rparr>"

lemma demo_views:
  "active_gateways True demo_peers demo_view = Done (Inr [])"
  "active_workers demo_peers demo_view = Done (Inr [\<lparr>wk_peer_id = PeerId [0, 2], wk_onchain_id = 1, wk_address = 9, wk_bond = 1,
     wk_registered_at = 10, wk_deregistered_at = None\<rparr>])"
  "active_gateways True demo_peers demo_unreadable = Done (Inl (client_error_from_provider ''timeout''))"
  by (simp_all add: active_gateways_def active_workers_def ethers_multicall_def worker_new_def demo_view_def demo_unreadable_def demo_ethers_def
      demo_chain_def demo_worker_def demo_peers_def try_call_def active_gateways_loop.simps page_overflow_def gateways_page_size_def
      List.map_filter_simps Let_def)

theorem allow_list_follows_chain_witness:
  "let rs = [Inr {|PeerId [0, 2]|}, Inl (client_error_from_provider ''timeout'')] in
   allowed (ib_allow (bb_inner (fold (\<lambda>res s. base_on_nodes_update demo_chain_libs s res) rs demo_chain_base))) = {PeerId [1], PeerId [0, 2]} \<and>
   allowed (bh_allow (sm_behaviour (bo_swarm (bootnode_loop (l_order demo_chain_libs) (\<lambda>_. None) demo_bootnode
     [NodesInput (rs ! 0), SwarmInput BootOtherEvent, NodesInput (rs ! 1), SignalInput])))) = {PeerId [0, 2]}"
proof -
  let ?rs = "[Inr {|PeerId [0, 2]|}, Inl (client_error_from_provider ''timeout'')]"
  have 1: "list_all2 (\<lambda>view res. network_nodes True demo_peers view = Done res) [demo_view, demo_unreadable] ?rs"
    by (simp add: network_nodes_def try_run_def demo_views del: run_bind_eq_Done)
  have 2: "peer_order_laws (l_order demo_chain_libs)" using demo_order_peers by (simp add: demo_chain_libs_def)
  have 3: "bb_registered_nodes demo_chain_base = {||}" "allowed (ib_allow (bb_inner demo_chain_base)) = {PeerId [1]}"
    by (simp_all add: demo_chain_base_def base_new_def Let_def add_boot_node_def allow_peer_call_def allowed_def allow_step_def)
  have 4: "bo_registered_nodes demo_bootnode = {||}" "allowed (bh_allow (sm_behaviour (bo_swarm demo_bootnode))) = {PeerId [0, 2]}"
    by (simp_all add: demo_bootnode_def boot_allow_def allowed_def allow_step_def)
  from allow_list_follows_chain [OF 1 2 3(1) 2 4(1), of "[NodesInput (?rs ! 0), SwarmInput BootOtherEvent, NodesInput (?rs ! 1), SignalInput]"
      "\<lambda>_. None"]
  show ?thesis by (simp add: 3 4 chain_spec_def demo_views node_view_def)
qed

end
